(* ===== verification/Prelude.thy ===== *)
theory Prelude
  imports
    "HOL-Library.Word"
    "HOL-Library.AList"
    "HOL-Library.Char_ord"
    "HOL-Library.List_Lexorder"
begin

text \<open>
  Shared types, containers and automation of the development.

  Rust's \<^verbatim>\<open>HashMap<K, V>\<close> is an association list with distinct keys: the order of the
  list stands for the unspecified iteration order of the hash table, so a loop over the entries of
  a map is a \<^const>\<open>fold\<close> over the list, and a theorem about every list is a theorem about
  every iteration order.  \<open>hm_ok\<close> is the representation invariant.  \<^verbatim>\<open>HashSet<T>\<close> is a
  distinct list in the same way.  The operations are those of \<^verbatim>\<open>std::collections\<close> the
  program uses.  Strings are byte lists (\<^typ>\<open>string\<close>), ordered bytewise as in Rust.

  The locale \<open>hash_map\<close> states the contract of a hash map and proves, once, the lemma every
  entry loop of the program rests on (\<open>get_upserts\<close>); it is interpreted on the association
  lists below.
\<close>

named_theorems hm_simps \<open>lookup equations of the hash-map operations\<close>
named_theorems hm_intros \<open>the hash-map operations keep the representation invariant\<close>

subsection \<open>Machine integers, identifiers, results\<close>

type_synonym u8 = "8 word"
type_synonym u32 = "32 word"
type_synonym u64 = "64 word"
type_synonym Counter = u64
type_synonym NodeId = string
type_synonym bytes = "u8 list"

text \<open>\<^verbatim>\<open>Result<T, E>\<close>: \<open>Inl\<close> carries the error, \<open>Inr\<close> the value.\<close>

type_synonym ('e, 'a) result = "'e + 'a"

lemma unat_succ:
  fixes x :: "'a::len word"
  assumes "x \<noteq> - 1"
  shows "unat (x + 1) = Suc (unat x)"
proof -
  from assms have "1 + x \<noteq> 0" by (metis add.commute add_eq_0_iff)
  then show ?thesis by (simp add: unatSuc add.commute [of x])
qed

lemma word_less_succ_iff:
  fixes x y :: "'a::len word"
  shows "x \<noteq> - 1 \<Longrightarrow> y < x + 1 \<longleftrightarrow> y \<le> x"
  by (simp add: word_less_nat_alt word_le_nat_alt unat_succ less_Suc_eq_le)

lemma word_less_succ [simp]:
  fixes x :: "'a::len word"
  shows "x \<noteq> - 1 \<Longrightarrow> x < x + 1"
  by (simp add: word_less_succ_iff)

lemma word_succ_le_iff:
  fixes x y :: "'a::len word"
  shows "x \<noteq> - 1 \<Longrightarrow> x + 1 \<le> y \<longleftrightarrow> x < y"
  by (simp add: word_less_succ_iff flip: not_less)

lemma word_pred_bounds:
  fixes x y :: "'a::len word"
  assumes "y < x"
  shows "x - 1 < x" and "y \<le> x - 1"
proof -
  from assms have "x - 1 \<noteq> - 1" by auto
  then show "x - 1 < x" and "y \<le> x - 1"
    using word_less_succ [of "x - 1"] word_less_succ_iff [of "x - 1" y] assms by auto
qed

subsection \<open>Hash maps and hash sets\<close>

type_synonym ('k, 'v) hmap = "('k \<times> 'v) list"
type_synonym 'a hset = "'a list"

abbreviation hm_ok :: "('k, 'v) hmap \<Rightarrow> bool" where
  "hm_ok m \<equiv> distinct (map fst m)"

abbreviation hm_get :: "('k, 'v) hmap \<Rightarrow> 'k \<Rightarrow> 'v option" where
  "hm_get m k \<equiv> map_of m k"

abbreviation hm_insert :: "'k \<Rightarrow> 'v \<Rightarrow> ('k, 'v) hmap \<Rightarrow> ('k, 'v) hmap" where
  "hm_insert k v m \<equiv> AList.update k v m"

abbreviation hm_remove :: "'k \<Rightarrow> ('k, 'v) hmap \<Rightarrow> ('k, 'v) hmap" where
  "hm_remove k m \<equiv> AList.delete k m"

abbreviation hm_keys :: "('k, 'v) hmap \<Rightarrow> 'k list" where
  "hm_keys m \<equiv> map fst m"

abbreviation hm_values :: "('k, 'v) hmap \<Rightarrow> 'v list" where
  "hm_values m \<equiv> map snd m"

text \<open>\<^verbatim>\<open>m.contains_key(k)\<close>, \<^verbatim>\<open>m.get(k).copied().unwrap_or(d)\<close>, \<^verbatim>\<open>m.retain(p)\<close>, a loop over
  \<^verbatim>\<open>values_mut()\<close>, \<^verbatim>\<open>==\<close> on maps, and \<^verbatim>\<open>collect()\<close> of pairs into a map (a later pair wins).\<close>

definition hm_contains :: "('k, 'v) hmap \<Rightarrow> 'k \<Rightarrow> bool" where
  "hm_contains m k \<longleftrightarrow> map_of m k \<noteq> None"

definition hm_or :: "('k, 'v) hmap \<Rightarrow> 'k \<Rightarrow> 'v \<Rightarrow> 'v" where
  "hm_or m k d = (case map_of m k of None \<Rightarrow> d | Some v \<Rightarrow> v)"

definition hm_retain :: "('k \<Rightarrow> 'v \<Rightarrow> bool) \<Rightarrow> ('k, 'v) hmap \<Rightarrow> ('k, 'v) hmap" where
  "hm_retain p m = filter (\<lambda>(k, v). p k v) m"

definition hm_map_values :: "('v \<Rightarrow> 'w) \<Rightarrow> ('k, 'v) hmap \<Rightarrow> ('k, 'w) hmap" where
  "hm_map_values f m = map (\<lambda>(k, v). (k, f v)) m"

definition hm_eq :: "('k, 'v) hmap \<Rightarrow> ('k, 'v) hmap \<Rightarrow> bool" where
  "hm_eq a b \<longleftrightarrow> list_all (\<lambda>k. map_of a k = map_of b k) (hm_keys a @ hm_keys b)"

definition hm_collect :: "('k \<times> 'v) list \<Rightarrow> ('k, 'v) hmap" where
  "hm_collect xs = fold (\<lambda>(k, v) m. hm_insert k v m) xs []"

abbreviation hs_ok :: "'a hset \<Rightarrow> bool" where
  "hs_ok s \<equiv> distinct s"

abbreviation hs_insert :: "'a \<Rightarrow> 'a hset \<Rightarrow> 'a hset" where
  "hs_insert x s \<equiv> List.insert x s"

abbreviation hs_remove :: "'a \<Rightarrow> 'a hset \<Rightarrow> 'a hset" where
  "hs_remove x s \<equiv> removeAll x s"

definition hs_collect :: "'a list \<Rightarrow> 'a hset" where
  "hs_collect xs = fold hs_insert xs []"

subsection \<open>The contract of a hash map\<close>

locale hash_map =
  fixes empty :: 'm
    and get :: "'m \<Rightarrow> 'k \<Rightarrow> 'v option"
    and insert :: "'k \<Rightarrow> 'v \<Rightarrow> 'm \<Rightarrow> 'm"
    and remove :: "'k \<Rightarrow> 'm \<Rightarrow> 'm"
    and ok :: "'m \<Rightarrow> bool"
  assumes get_empty: "get empty k = None"
    and get_insert: "ok m \<Longrightarrow> get (insert k v m) k' = (if k = k' then Some v else get m k')"
    and get_remove: "ok m \<Longrightarrow> get (remove k m) k' = (if k = k' then None else get m k')"
    and ok_empty: "ok empty"
    and ok_insert: "ok m \<Longrightarrow> ok (insert k v m)"
    and ok_remove: "ok m \<Longrightarrow> ok (remove k m)"
begin

text \<open>The entry loop: every entry \<open>(k, v)\<close> of \<open>xs\<close> updates the slot of \<open>k\<close> from its old value.\<close>

lemma ok_upserts: "ok m \<Longrightarrow> ok (fold (\<lambda>(k, v) m. insert k (f (get m k) v) m) xs m)"
  by (induction xs arbitrary: m) (auto simp: ok_insert)

lemma get_upserts:
  assumes "ok m" and "distinct (map fst xs)"
  shows "get (fold (\<lambda>(k, v) m. insert k (f (get m k) v) m) xs m) k =
    (case map_of xs k of None \<Rightarrow> get m k | Some v \<Rightarrow> Some (f (get m k) v))"
  using assms
proof (induction xs arbitrary: m)
  case Nil
  then show ?case by simp
next
  case (Cons x xs)
  obtain k' v where x: "x = (k', v)" by (cases x)
  have IH: "get (fold (\<lambda>(k, v) m. insert k (f (get m k) v) m) xs (insert k' (f (get m k') v) m)) k =
    (case map_of xs k of None \<Rightarrow> get (insert k' (f (get m k') v) m) k
     | Some v' \<Rightarrow> Some (f (get (insert k' (f (get m k') v) m) k) v'))"
    using Cons.prems x by (intro Cons.IH) (auto simp: ok_insert)
  show ?case
    using Cons.prems x IH by (auto simp: get_insert map_of_eq_None_iff [symmetric] split: option.splits)
qed

text \<open>Inserting a sequence of entries: the last one for a key wins.\<close>

lemma get_inserts:
  "ok m \<Longrightarrow> get (fold (\<lambda>(k, v) m. insert k v m) xs m) k =
     (case map_of (rev xs) k of None \<Rightarrow> get m k | Some v \<Rightarrow> Some v)"
  by (induction xs arbitrary: m)
    (auto simp: ok_insert get_insert map_of_append map_add_def split: option.splits)

lemma ok_removes: "ok m \<Longrightarrow> ok (fold remove ks m)"
  by (induction ks arbitrary: m) (auto simp: ok_remove)

lemma get_removes: "ok m \<Longrightarrow> get (fold remove ks m) k = (if k \<in> set ks then None else get m k)"
  by (induction ks arbitrary: m) (auto simp: ok_remove get_remove)

end

lemma map_of_update_iff [simp, hm_simps]:
  "map_of (AList.update k v m) k' = (if k = k' then Some v else map_of m k')"
  by (simp add: update_conv')

lemma map_of_delete_iff [simp, hm_simps]:
  "map_of (AList.delete k m) k' = (if k = k' then None else map_of m k')"
  by (simp add: delete_conv')

interpretation hm: hash_map "[]" map_of AList.update AList.delete "\<lambda>m. distinct (map fst m)"
  by unfold_locales (auto simp: distinct_update distinct_delete)

declare hm.ok_insert [simp, hm_intros] hm.ok_remove [simp, hm_intros]

subsection \<open>Lookup equations of the remaining operations\<close>

lemma hm_or_Nil [simp]: "hm_or [] k d = d"
  by (simp add: hm_or_def)

lemma hm_or_update [simp, hm_simps]:
  "hm_or (AList.update k v m) k' d = (if k = k' then v else hm_or m k' d)"
  by (simp add: hm_or_def)

lemma hm_or_delete [simp, hm_simps]:
  "hm_or (AList.delete k m) k' d = (if k = k' then d else hm_or m k' d)"
  by (simp add: hm_or_def)

lemma hm_or_Some: "map_of m k = Some v \<Longrightarrow> hm_or m k d = v"
  by (simp add: hm_or_def)

lemma hm_or_notin: "k \<notin> fst ` set m \<Longrightarrow> hm_or m k d = d"
  by (simp add: hm_or_def map_of_eq_None_iff [symmetric])

lemma hm_retain_keys: "set (map fst (hm_retain p m)) \<subseteq> set (map fst m)"
  by (auto simp: hm_retain_def)

lemma hm_ok_retain [simp, hm_intros]: "hm_ok m \<Longrightarrow> hm_ok (hm_retain p m)"
  by (simp add: hm_retain_def distinct_map_filter)

lemma map_of_retain [simp, hm_simps]:
  assumes "hm_ok m"
  shows "map_of (hm_retain p m) k =
    (case map_of m k of None \<Rightarrow> None | Some v \<Rightarrow> if p k v then Some v else None)"
  using assms unfolding hm_retain_def
proof (induction m)
  case (Cons x m)
  then show ?case
    by (cases x) (auto simp: map_of_eq_None_iff split: option.splits dest: map_of_SomeD)
qed simp

lemma hm_map_values_keys [simp]: "map fst (hm_map_values f m) = map fst m"
  by (induction m) (auto simp: hm_map_values_def)

lemma map_of_map_values [simp, hm_simps]:
  "map_of (hm_map_values f m) k = map_option f (map_of m k)"
  by (induction m) (auto simp: hm_map_values_def)

lemma hm_eq_iff: "hm_eq a b \<longleftrightarrow> (\<forall>k. map_of a k = map_of b k)"
proof -
  have "map_of a k = map_of b k" if "k \<notin> fst ` set a" "k \<notin> fst ` set b" for k
    using that by (metis map_of_eq_None_iff)
  then show ?thesis
    unfolding hm_eq_def by (auto simp: list_all_iff)
qed

lemma hm_ok_collect [simp, hm_intros]: "hm_ok (hm_collect xs)"
  unfolding hm_collect_def using hm.ok_upserts [of "[]" "\<lambda>_ v. v" xs] by simp

lemma map_of_collect: "map_of (hm_collect xs) k = map_of (rev xs) k"
  unfolding hm_collect_def by (simp add: hm.get_inserts split: option.splits)

lemma map_of_rev_distinct: "hm_ok m \<Longrightarrow> map_of (rev m) = map_of m"
  by (subst map_of_inject_set) (simp_all flip: rev_map)

lemma map_of_collect_distinct:
  "distinct (map fst xs) \<Longrightarrow> map_of (hm_collect xs) k = map_of xs k"
  unfolding hm_collect_def using hm.get_upserts [of "[]" xs "\<lambda>_ v. v" k]
  by (auto split: option.splits)

lemma update_new_key: "k \<notin> fst ` set m \<Longrightarrow> AList.update k v m = m @ [(k, v)]"
  by (induction m) auto

text \<open>Collecting a map that already has distinct keys changes nothing.\<close>

lemma hm_collect_distinct: "hm_ok xs \<Longrightarrow> hm_collect xs = xs"
proof -
  have "distinct (map fst (m @ xs)) \<Longrightarrow> fold (\<lambda>(k, v) m. hm_insert k v m) xs m = m @ xs" for m
  proof (induction xs arbitrary: m)
    case (Cons x xs)
    then show ?case by (cases x) (simp add: update_new_key)
  qed simp
  from this [of "[]"] show "hm_ok xs \<Longrightarrow> hm_collect xs = xs" by (simp add: hm_collect_def)
qed

lemma set_hs_collect [simp]: "set (hs_collect xs) = set xs"
proof -
  have "set (fold hs_insert xs s) = set xs \<union> set s" for s
    by (induction xs arbitrary: s) auto
  then show ?thesis by (simp add: hs_collect_def)
qed

lemma hs_ok_collect [simp]: "hs_ok (hs_collect xs)"
proof -
  have "distinct s \<Longrightarrow> distinct (fold hs_insert xs s)" for s
    by (induction xs arbitrary: s) auto
  then show ?thesis by (simp add: hs_collect_def)
qed

end
