(* ===== verification/Text.thy ===== *)
theory Text
  imports Prelude
begin

text \<open>
  The text functions of the Rust standard library that the object keys of the bucket and the
  client's command line use: \<^verbatim>\<open>strip_prefix\<close>, \<^verbatim>\<open>strip_suffix\<close>, \<^verbatim>\<open>splitn\<close>,
  \<^verbatim>\<open>split\<close>, \<^verbatim>\<open>trim\<close>, \<^verbatim>\<open>trim_end_matches\<close>, decimal printing and
  \<^verbatim>\<open>str::parse\<close> for \<^verbatim>\<open>u64\<close> and \<^verbatim>\<open>i64\<close>; with the lemmas that parsing inverts
  printing and that splitting inverts joining.
\<close>

named_theorems text_simps \<open>parsing a printed or joined text\<close>

subsection \<open>Prefixes, suffixes and trimming\<close>

definition strip_prefix :: "string \<Rightarrow> string \<Rightarrow> string option" where
  "strip_prefix p s = (if take (length p) s = p then Some (drop (length p) s) else None)"

definition strip_suffix :: "string \<Rightarrow> string \<Rightarrow> string option" where
  "strip_suffix p s = map_option rev (strip_prefix (rev p) (rev s))"

definition starts_with :: "string \<Rightarrow> string \<Rightarrow> bool" where
  "starts_with p s \<longleftrightarrow> take (length p) s = p"

definition ends_with :: "string \<Rightarrow> string \<Rightarrow> bool" where
  "ends_with p s \<longleftrightarrow> starts_with (rev p) (rev s)"

definition trim_end_matches :: "char \<Rightarrow> string \<Rightarrow> string" where
  "trim_end_matches c s = rev (dropWhile (\<lambda>x. x = c) (rev s))"

text \<open>\<^verbatim>\<open>str::trim\<close> on the ASCII white space characters (tab, line feed, vertical tab, form feed,
  carriage return, space); the white space of other planes of Unicode is not part of the model.\<close>

definition is_space :: "char \<Rightarrow> bool" where
  "is_space c \<longleftrightarrow> of_char c \<in> {9, 10, 11, 12, 13, 32 :: nat}"

definition trim :: "string \<Rightarrow> string" where
  "trim s = rev (dropWhile is_space (rev (dropWhile is_space s)))"

text \<open>\<^verbatim>\<open>impl Debug for str\<close>: the text in quotes, with quotes, backslashes and control characters
  escaped.  Characters beyond ASCII are kept, as the standard library does for printable ones.\<close>

definition hex_digit :: "nat \<Rightarrow> char" where
  "hex_digit n = char_of (if n < 10 then 48 + n else 87 + n)"

definition escape_debug :: "char \<Rightarrow> string" where
  "escape_debug c =
     (let n = of_char c :: nat in
      if n = 0 then [char_of (92 :: nat), CHR ''0'']
      else if n = 9 then [char_of (92 :: nat), CHR ''t'']
      else if n = 10 then [char_of (92 :: nat), CHR ''n'']
      else if n = 13 then [char_of (92 :: nat), CHR ''r'']
      else if n = 34 \<or> n = 92 then [char_of (92 :: nat), c]
      else if n < 16 then [char_of (92 :: nat), CHR ''u'', CHR ''{'', hex_digit n, CHR ''}'']
      else if n < 32 \<or> n = 127
      then [char_of (92 :: nat), CHR ''u'', CHR ''{'', hex_digit (n div 16), hex_digit (n mod 16), CHR ''}'']
      else [c])"

definition string_debug :: "string \<Rightarrow> string" where
  "string_debug s = [char_of (34 :: nat)] @ concat (map escape_debug s) @ [char_of (34 :: nat)]"

lemma strip_prefix_append [simp, text_simps]: "strip_prefix p (p @ s) = Some s"
  by (simp add: strip_prefix_def)

lemma strip_prefix_Some_iff: "strip_prefix p s = Some r \<longleftrightarrow> s = p @ r"
  by (auto simp: strip_prefix_def) (metis append_take_drop_id)

lemma strip_suffix_append [simp, text_simps]: "strip_suffix p (s @ p) = Some s"
  by (simp add: strip_suffix_def)

lemma strip_suffix_Some_iff: "strip_suffix p s = Some r \<longleftrightarrow> s = r @ p"
proof -
  have "rev s = rev p @ z \<longleftrightarrow> s = rev z @ p" for z
    by (metis rev_append rev_rev_ident)
  then show ?thesis
    by (auto simp: strip_suffix_def strip_prefix_Some_iff intro: exI [of _ "rev r"])
qed

lemma starts_with_append [simp, text_simps]: "starts_with p (p @ s)"
  by (simp add: starts_with_def)

lemma starts_with_iff: "starts_with p s \<longleftrightarrow> (\<exists>r. s = p @ r)"
  by (auto simp: starts_with_def) (metis append_take_drop_id)

lemma ends_with_append [simp, text_simps]: "ends_with p (s @ p)"
  by (simp add: ends_with_def)

lemma trim_end_matches_last: "trim_end_matches c s = [] \<or> last (trim_end_matches c s) \<noteq> c"
proof -
  have "dropWhile (\<lambda>x. x = c) t = [] \<or> hd (dropWhile (\<lambda>x. x = c) t) \<noteq> c" for t
    using hd_dropWhile [of "\<lambda>x. x = c" t] by blast
  from this [of "rev s"] show ?thesis by (simp add: trim_end_matches_def last_rev)
qed

subsection \<open>Splitting at a separator\<close>

fun split_once :: "string \<Rightarrow> string \<Rightarrow> (string \<times> string) option" where
  "split_once sep [] = None"
| "split_once sep (c # cs) =
     (if take (length sep) (c # cs) = sep then Some ([], drop (length sep) (c # cs))
      else map_option (\<lambda>(a, b). (c # a, b)) (split_once sep cs))"

fun splitn :: "nat \<Rightarrow> string \<Rightarrow> string \<Rightarrow> string list" where
  "splitn 0 sep s = []"
| "splitn (Suc 0) sep s = [s]"
| "splitn (Suc (Suc n)) sep s =
     (case split_once sep s of None \<Rightarrow> [s] | Some (a, b) \<Rightarrow> a # splitn (Suc n) sep b)"

fun split_at :: "char \<Rightarrow> string \<Rightarrow> string list" where
  "split_at c [] = [[]]"
| "split_at c (x # xs) =
     (if x = c then [] # split_at c xs
      else (case split_at c xs of [] \<Rightarrow> [[x]] | y # ys \<Rightarrow> (x # y) # ys))"

text \<open>A text is free of a separator of two equal characters when the separator neither occurs in
  it nor straddles its end.\<close>

fun free_of_pair :: "char \<Rightarrow> string \<Rightarrow> bool" where
  "free_of_pair c [] \<longleftrightarrow> True"
| "free_of_pair c [x] \<longleftrightarrow> x \<noteq> c"
| "free_of_pair c (x # y # ys) \<longleftrightarrow> \<not> (x = c \<and> y = c) \<and> free_of_pair c (y # ys)"

lemma split_once_pair [text_simps]:
  "free_of_pair c s \<Longrightarrow> split_once [c, c] (s @ c # c # t) = Some (s, t)"
  by (induction c s rule: free_of_pair.induct) auto

lemma splitn_pair [text_simps]:
  "free_of_pair c s \<Longrightarrow> splitn (Suc (Suc n)) [c, c] (s @ c # c # t) = s # splitn (Suc n) [c, c] t"
  by (simp add: split_once_pair)

lemma split_once_Some: "split_once sep s = Some (a, b) \<Longrightarrow> s = a @ sep @ b"
proof (induction sep s arbitrary: a rule: split_once.induct)
  case (2 sep c cs)
  show ?case
  proof (cases "take (length sep) (c # cs) = sep")
    case True
    with 2 show ?thesis by simp (metis append_take_drop_id)
  qed (use 2 in auto)
qed simp

lemma split_once_char [text_simps]: "c \<notin> set a \<Longrightarrow> split_once [c] (a @ c # b) = Some (a, b)"
  by (induction a) auto

lemma split_once_char_free: "split_once [c] s = Some (a, b) \<Longrightarrow> c \<notin> set a"
  by (induction s arbitrary: a) (auto split: if_splits option.splits)

lemma split_once_pair_free: "split_once [c, c] s = Some (a, b) \<Longrightarrow> free_of_pair c a"
proof (induction s arbitrary: a)
  case (Cons x xs)
  show ?case
  proof (cases "take 2 (x # xs) = [c, c]")
    case False
    then obtain a' where a': "split_once [c, c] xs = Some (a', b)" "a = x # a'"
      using Cons.prems by (auto simp: eval_nat_numeral split: if_splits)
    from Cons.IH [OF a'(1)] split_once_Some [OF a'(1)] False show ?thesis
      unfolding a'(2) by (cases a') (auto simp: eval_nat_numeral)
  qed (use Cons.prems in \<open>simp add: eval_nat_numeral\<close>)
qed simp

lemma free_of_pair_if_free: "c \<notin> set s \<Longrightarrow> free_of_pair c s"
  by (induction c s rule: free_of_pair.induct) auto

lemma split_at_free [simp]: "c \<notin> set s \<Longrightarrow> split_at c s = [s]"
  by (induction s) auto

lemma split_at_append [text_simps]:
  "c \<notin> set s \<Longrightarrow> split_at c (s @ c # t) = s # split_at c t"
  by (induction s) auto

lemma length_split_at: "length (split_at c s) = Suc (length (filter (\<lambda>x. x = c) s))"
  by (induction s) (auto split: list.splits)

subsection \<open>Decimal numbers\<close>

definition digit :: "nat \<Rightarrow> char" where
  "digit n = char_of (48 + n)"

definition digit_val :: "char \<Rightarrow> nat option" where
  "digit_val c = (let n = of_char c in if 48 \<le> n \<and> n \<le> 57 then Some (n - 48) else None)"

fun show_nat :: "nat \<Rightarrow> string" where
  "show_nat n = (if n < 10 then [digit n] else show_nat (n div 10) @ [digit (n mod 10)])"

definition show_int :: "int \<Rightarrow> string" where
  "show_int i = (if i < 0 then CHR ''-'' # show_nat (nat (- i)) else show_nat (nat i))"

fun parse_digits :: "nat \<Rightarrow> string \<Rightarrow> nat option" where
  "parse_digits acc [] = Some acc"
| "parse_digits acc (c # cs) =
     (case digit_val c of None \<Rightarrow> None | Some d \<Rightarrow> parse_digits (10 * acc + d) cs)"

definition parse_nat :: "string \<Rightarrow> nat option" where
  "parse_nat s = (if s = [] then None else parse_digits 0 s)"

definition parse_u64 :: "string \<Rightarrow> u64 option" where
  "parse_u64 s =
     (case parse_nat (if s \<noteq> [] \<and> hd s = CHR ''+'' then tl s else s) of
        None \<Rightarrow> None
      | Some n \<Rightarrow> if n < 2 ^ 64 then Some (word_of_nat n) else None)"

definition parse_i64 :: "string \<Rightarrow> int option" where
  "parse_i64 s =
     (if s \<noteq> [] \<and> hd s = CHR ''-''
      then (case parse_nat (tl s) of
              None \<Rightarrow> None | Some n \<Rightarrow> if n \<le> 2 ^ 63 then Some (- int n) else None)
      else (case parse_nat (if s \<noteq> [] \<and> hd s = CHR ''+'' then tl s else s) of
              None \<Rightarrow> None | Some n \<Rightarrow> if n < 2 ^ 63 then Some (int n) else None))"

declare show_nat.simps [simp del]

lemma digit_val_digit [simp]: "n < 10 \<Longrightarrow> digit_val (digit n) = Some n"
  by (simp add: digit_val_def digit_def)

lemma digit_inject: "m < 10 \<Longrightarrow> n < 10 \<Longrightarrow> digit m = digit n \<longleftrightarrow> m = n"
  by (metis digit_val_digit option.inject)

lemma parse_digits_append:
  "parse_digits acc (s @ t) =
     (case parse_digits acc s of None \<Rightarrow> None | Some n \<Rightarrow> parse_digits n t)"
  by (induction s arbitrary: acc) (auto split: option.splits)

lemma show_nat_nonempty [simp]: "show_nat n \<noteq> []"
  by (subst show_nat.simps) simp

lemma parse_digits_show_nat: "parse_digits 0 (show_nat n) = Some n"
proof (induction n rule: show_nat.induct)
  case (1 n)
  then show ?case
    by (subst show_nat.simps) (simp add: parse_digits_append)
qed

lemma parse_nat_show_nat [simp, text_simps]: "parse_nat (show_nat n) = Some n"
  by (simp add: parse_nat_def parse_digits_show_nat)

lemma set_show_nat: "set (show_nat n) \<subseteq> digit ` {..<10}"
proof (induction n rule: show_nat.induct)
  case (1 n)
  show ?case
  proof (cases "n < 10")
    case True
    then show ?thesis by (subst show_nat.simps) auto
  next
    case False
    moreover have "digit (n mod 10) \<in> digit ` {..<10}" by (intro imageI) simp
    ultimately show ?thesis using 1 by (subst show_nat.simps) auto
  qed
qed

lemma digit_not_sign: "n < 10 \<Longrightarrow> digit n \<noteq> CHR ''-'' \<and> digit n \<noteq> CHR ''+'' \<and> digit n \<noteq> CHR ''_''"
  using digit_val_digit [of n] by (auto simp: digit_val_def)

lemma show_nat_chars: "c \<in> {CHR ''-'', CHR ''+'', CHR ''_''} \<Longrightarrow> c \<notin> set (show_nat n)"
  using set_show_nat [of n] digit_not_sign by fastforce

lemma hd_show_nat: "hd (show_nat n) \<noteq> CHR ''-'' \<and> hd (show_nat n) \<noteq> CHR ''+''"
  using show_nat_chars [of _ n] hd_in_set [of "show_nat n"] by (metis insertCI show_nat_nonempty)

lemma parse_u64_show [simp, text_simps]: "parse_u64 (show_nat (unat w)) = Some w"
  using hd_show_nat [of "unat w"] unsigned_less [of w] by (simp add: parse_u64_def)

lemma parse_i64_show [text_simps]:
  "- (2 ^ 63) \<le> i \<Longrightarrow> i < 2 ^ 63 \<Longrightarrow> parse_i64 (show_int i) = Some i"
  using hd_show_nat [of "nat i"] by (auto simp: parse_i64_def show_int_def nat_less_iff nat_le_iff)

end
