(* ===== verification/Object_Store.thy ===== *)
theory Object_Store
  imports Text
begin

text \<open>
  The S3 client wrapper \<^verbatim>\<open>src/storage/s3_client.rs\<close>.

  The AWS SDK and the service behind it are the record \<open>S3\<close> of request functions, an argument of
  every operation.  A request maps the state of the world to an answer and a new state: whatever
  other clients of the bucket do between two requests of this program is part of that state change,
  so a sequence of requests is not assumed to be atomic.  An operation of the client that can fail
  is a \<open>call\<close>; \<open>and_then\<close> is the \<^verbatim>\<open>?\<close> operator of the source.

  The pagination loop of \<^verbatim>\<open>list_object_keys\<close> runs as long as the service returns a continuation
  token; it takes fuel, and running out of it is the error \<open>ListingUnfinished\<close>, which
  \<open>list_object_keys_pages\<close> excludes when the fuel is at least the number of pages.

  \<open>s3_documented\<close> collects what the service documents (read after write, conditional put, listing by
  prefix in key order) for a world without interference; the properties that need it name it.
\<close>

named_theorems s3_simps \<open>results of the S3 client on a service that keeps its contract\<close>

subsection \<open>Fallible calls\<close>

type_synonym ('s, 'e, 'a) call = "'s \<Rightarrow> ('e, 'a) result \<times> 's"

definition return_ok :: "'a \<Rightarrow> ('s, 'e, 'a) call" where
  "return_ok a = (\<lambda>s. (Inr a, s))"

definition and_then :: "('s, 'e, 'a) call \<Rightarrow> ('a \<Rightarrow> ('s, 'e, 'b) call) \<Rightarrow> ('s, 'e, 'b) call" where
  "and_then m f = (\<lambda>s. case m s of (Inl e, s') \<Rightarrow> (Inl e, s') | (Inr a, s') \<Rightarrow> f a s')"

definition map_err :: "('e \<Rightarrow> 'f) \<Rightarrow> ('s, 'e, 'a) call \<Rightarrow> ('s, 'f, 'a) call" where
  "map_err g m = (\<lambda>s. case m s of (Inl e, s') \<Rightarrow> (Inl (g e), s') | (Inr a, s') \<Rightarrow> (Inr a, s'))"

definition ignore_err :: "('s, 'e, 'a) call \<Rightarrow> 's \<Rightarrow> 's" where
  "ignore_err m s = snd (m s)"

lemma return_ok_apply [simp]: "return_ok a s = (Inr a, s)"
  by (simp add: return_ok_def)

lemma and_then_Inr [simp]: "m s = (Inr a, s') \<Longrightarrow> and_then m f s = f a s'"
  by (simp add: and_then_def)

lemma and_then_Inl [simp]: "m s = (Inl e, s') \<Longrightarrow> and_then m f s = (Inl e, s')"
  by (simp add: and_then_def)

lemma map_err_Inr [simp]: "m s = (Inr a, s') \<Longrightarrow> map_err g m s = (Inr a, s')"
  by (simp add: map_err_def)

lemma and_then_InrE:
  assumes "and_then m f s = (Inr b, s'')"
  obtains a s' where "m s = (Inr a, s')" "f a s' = (Inr b, s'')"
  using assms by (auto simp: and_then_def split: prod.splits sum.splits)

subsection \<open>The service\<close>

datatype SdkError = ServiceError string | TransportError

datatype StreamError = StreamError

datatype anyhow =
    SdkFailure SdkError
  | BodyFailure StreamError
  | PutIfAbsentFailed string SdkError
  | GetOptionalFailed string SdkError
  | JsonEncodeFailed
  | JsonDecodeFailed string
  | ListingUnfinished
  | BadKey string
  | BadDuration
  | DeltaDecodeFailed
  | LookupFailed string
  | Unresolved string

record 's S3 =
  req_head_bucket :: "string \<Rightarrow> ('s, SdkError, unit) call"
  req_create_bucket :: "string \<Rightarrow> ('s, SdkError, unit) call"
  req_put_object :: "string \<Rightarrow> string \<Rightarrow> bytes \<Rightarrow> string \<Rightarrow> string option \<Rightarrow> ('s, SdkError, unit) call"
  req_get_object :: "string \<Rightarrow> string \<Rightarrow> ('s, SdkError, (StreamError, bytes) result) call"
  req_delete_object :: "string \<Rightarrow> string \<Rightarrow> ('s, SdkError, unit) call"
  req_list_objects_v2 :: "string \<Rightarrow> string \<Rightarrow> string option
    \<Rightarrow> ('s, SdkError, string option list \<times> string option) call"

subsection \<open>The client\<close>

definition ensure_bucket :: "'s S3 \<Rightarrow> string \<Rightarrow> ('s, anyhow, unit) call" where
  "ensure_bucket s3 bucket = (\<lambda>s.
     case req_head_bucket s3 bucket s of
       (Inr _, s1) \<Rightarrow> (Inr (), s1)
     | (Inl _, s1) \<Rightarrow> map_err SdkFailure (req_create_bucket s3 bucket) s1)"

definition put_object :: "'s S3 \<Rightarrow> string \<Rightarrow> string \<Rightarrow> bytes \<Rightarrow> string \<Rightarrow> ('s, anyhow, unit) call" where
  "put_object s3 bucket key body content_type =
     map_err SdkFailure (req_put_object s3 bucket key body content_type None)"

definition put_object_if_absent ::
  "'s S3 \<Rightarrow> string \<Rightarrow> string \<Rightarrow> bytes \<Rightarrow> string \<Rightarrow> ('s, anyhow, bool) call" where
  "put_object_if_absent s3 bucket key body content_type = (\<lambda>s.
     case req_put_object s3 bucket key body content_type (Some ''*'') s of
       (Inr _, s1) \<Rightarrow> (Inr True, s1)
     | (Inl (ServiceError code), s1) \<Rightarrow>
         if code = ''PreconditionFailed'' then (Inr False, s1)
         else (Inl (PutIfAbsentFailed key (ServiceError code)), s1)
     | (Inl e, s1) \<Rightarrow> (Inl (PutIfAbsentFailed key e), s1))"

definition get_object :: "'s S3 \<Rightarrow> string \<Rightarrow> string \<Rightarrow> ('s, anyhow, bytes) call" where
  "get_object s3 bucket key = (\<lambda>s.
     case req_get_object s3 bucket key s of
       (Inl e, s1) \<Rightarrow> (Inl (SdkFailure e), s1)
     | (Inr (Inl e), s1) \<Rightarrow> (Inl (BodyFailure e), s1)
     | (Inr (Inr body), s1) \<Rightarrow> (Inr body, s1))"

definition get_object_optional :: "'s S3 \<Rightarrow> string \<Rightarrow> string \<Rightarrow> ('s, anyhow, bytes option) call" where
  "get_object_optional s3 bucket key = (\<lambda>s.
     case req_get_object s3 bucket key s of
       (Inr (Inl e), s1) \<Rightarrow> (Inl (BodyFailure e), s1)
     | (Inr (Inr body), s1) \<Rightarrow> (Inr (Some body), s1)
     | (Inl (ServiceError code), s1) \<Rightarrow>
         if code = ''NoSuchKey'' then (Inr None, s1)
         else (Inl (GetOptionalFailed key (ServiceError code)), s1)
     | (Inl e, s1) \<Rightarrow> (Inl (GetOptionalFailed key e), s1))"

definition delete_object :: "'s S3 \<Rightarrow> string \<Rightarrow> string \<Rightarrow> ('s, anyhow, unit) call" where
  "delete_object s3 bucket key = map_err SdkFailure (req_delete_object s3 bucket key)"

fun list_pages ::
  "nat \<Rightarrow> 's S3 \<Rightarrow> string \<Rightarrow> string \<Rightarrow> string option \<Rightarrow> string list \<Rightarrow> ('s, anyhow, string list) call" where
  "list_pages 0 s3 bucket prefix token keys s = (Inl ListingUnfinished, s)"
| "list_pages (Suc fuel) s3 bucket prefix token keys s =
     (case req_list_objects_v2 s3 bucket prefix token s of
        (Inl e, s1) \<Rightarrow> (Inl (SdkFailure e), s1)
      | (Inr (contents, next_token), s1) \<Rightarrow>
          let keys = keys @ List.map_filter (\<lambda>k. k) contents in
          (case next_token of
             Some t \<Rightarrow> list_pages fuel s3 bucket prefix (Some t) keys s1
           | None \<Rightarrow> (Inr keys, s1)))"

definition list_object_keys :: "nat \<Rightarrow> 's S3 \<Rightarrow> string \<Rightarrow> string \<Rightarrow> ('s, anyhow, string list) call" where
  "list_object_keys fuel s3 bucket prefix = list_pages fuel s3 bucket prefix None []"

text \<open>The JSON library is two arguments: \<open>to_json\<close> may fail, \<open>from_json\<close> may reject.\<close>

definition put_json ::
  "('v \<Rightarrow> bytes option) \<Rightarrow> 's S3 \<Rightarrow> string \<Rightarrow> string \<Rightarrow> 'v \<Rightarrow> ('s, anyhow, unit) call" where
  "put_json to_json s3 bucket key v = (\<lambda>s.
     case to_json v of
       None \<Rightarrow> (Inl JsonEncodeFailed, s)
     | Some bytes \<Rightarrow> put_object s3 bucket key bytes ''application/json'' s)"

definition put_json_if_absent ::
  "('v \<Rightarrow> bytes option) \<Rightarrow> 's S3 \<Rightarrow> string \<Rightarrow> string \<Rightarrow> 'v \<Rightarrow> ('s, anyhow, bool) call" where
  "put_json_if_absent to_json s3 bucket key v = (\<lambda>s.
     case to_json v of
       None \<Rightarrow> (Inl JsonEncodeFailed, s)
     | Some bytes \<Rightarrow> put_object_if_absent s3 bucket key bytes ''application/json'' s)"

definition get_json ::
  "(bytes \<Rightarrow> 'v option) \<Rightarrow> 's S3 \<Rightarrow> string \<Rightarrow> string \<Rightarrow> ('s, anyhow, 'v) call" where
  "get_json from_json s3 bucket key =
     and_then (get_object s3 bucket key) (\<lambda>bytes s.
       case from_json bytes of
         None \<Rightarrow> (Inl (JsonDecodeFailed key), s)
       | Some v \<Rightarrow> (Inr v, s))"

definition get_json_optional ::
  "(bytes \<Rightarrow> 'v option) \<Rightarrow> 's S3 \<Rightarrow> string \<Rightarrow> string \<Rightarrow> ('s, anyhow, 'v option) call" where
  "get_json_optional from_json s3 bucket key =
     and_then (get_object_optional s3 bucket key) (\<lambda>found s.
       case found of
         None \<Rightarrow> (Inr None, s)
       | Some bytes \<Rightarrow> (case from_json bytes of
             None \<Rightarrow> (Inl (JsonDecodeFailed key), s)
           | Some v \<Rightarrow> (Inr (Some v), s)))"

subsection \<open>What the service documents\<close>

type_synonym objects = "string \<times> string \<Rightarrow> bytes option"

fun listing :: "'s S3 \<Rightarrow> string \<Rightarrow> string \<Rightarrow> 's \<Rightarrow> string option \<Rightarrow> string list list \<Rightarrow> bool" where
  "listing s3 b p s token [] \<longleftrightarrow> False"
| "listing s3 b p s token (page # pages) \<longleftrightarrow>
     (if pages = [] then req_list_objects_v2 s3 b p token s = (Inr (map Some page, None), s)
      else (\<exists>t. req_list_objects_v2 s3 b p token s = (Inr (map Some page, Some t), s)
               \<and> listing s3 b p s (Some t) pages))"

definition s3_documented :: "nat \<Rightarrow> 's S3 \<Rightarrow> ('s \<Rightarrow> objects) \<Rightarrow> bool" where
  "s3_documented fuel s3 objs \<longleftrightarrow>
     (\<forall>b k v ct s. \<exists>s'. req_put_object s3 b k v ct None s = (Inr (), s')
        \<and> objs s' = (objs s)((b, k) \<mapsto> v)) \<and>
     (\<forall>b k v ct s. objs s (b, k) = None \<longrightarrow>
        (\<exists>s'. req_put_object s3 b k v ct (Some ''*'') s = (Inr (), s')
           \<and> objs s' = (objs s)((b, k) \<mapsto> v))) \<and>
     (\<forall>b k v ct s. objs s (b, k) \<noteq> None \<longrightarrow>
        req_put_object s3 b k v ct (Some ''*'') s = (Inl (ServiceError ''PreconditionFailed''), s)) \<and>
     (\<forall>b k s. req_get_object s3 b k s =
        (case objs s (b, k) of None \<Rightarrow> Inl (ServiceError ''NoSuchKey'') | Some v \<Rightarrow> Inr (Inr v), s)) \<and>
     (\<forall>b k s. \<exists>s'. req_delete_object s3 b k s = (Inr (), s') \<and> objs s' = (objs s)((b, k) := None)) \<and>
     (\<forall>b p s. \<exists>pages. listing s3 b p s None pages \<and> length pages \<le> fuel \<and> sorted (concat pages) \<and>
        distinct (concat pages) \<and> set (concat pages) = {k. objs s (b, k) \<noteq> None \<and> starts_with p k})"

lemma s3_documentedD:
  assumes "s3_documented fuel s3 objs"
  shows "\<exists>s'. req_put_object s3 b k v ct None s = (Inr (), s') \<and> objs s' = (objs s)((b, k) \<mapsto> v)"
    and "objs s (b, k) = None \<Longrightarrow>
      \<exists>s'. req_put_object s3 b k v ct (Some ''*'') s = (Inr (), s') \<and> objs s' = (objs s)((b, k) \<mapsto> v)"
    and "objs s (b, k) \<noteq> None \<Longrightarrow>
      req_put_object s3 b k v ct (Some ''*'') s = (Inl (ServiceError ''PreconditionFailed''), s)"
    and "req_get_object s3 b k s =
      (case objs s (b, k) of None \<Rightarrow> Inl (ServiceError ''NoSuchKey'') | Some v \<Rightarrow> Inr (Inr v), s)"
    and "\<exists>s'. req_delete_object s3 b k s = (Inr (), s') \<and> objs s' = (objs s)((b, k) := None)"
    and "\<exists>pages. listing s3 b p s None pages \<and> length pages \<le> fuel \<and> sorted (concat pages) \<and>
        distinct (concat pages) \<and> set (concat pages) = {k. objs s (b, k) \<noteq> None \<and> starts_with p k}"
  using assms unfolding s3_documented_def by (elim conjE; simp)+

lemma list_pages_listing:
  "listing s3 b p s token pages \<Longrightarrow> length pages \<le> fuel \<Longrightarrow>
   list_pages fuel s3 b p token keys s = (Inr (keys @ concat pages), s)"
proof (induction pages arbitrary: fuel token keys)
  case (Cons page pages)
  then obtain n where fuel: "fuel = Suc n" by (cases fuel) auto
  have some: "List.map_filter (\<lambda>k. k) (map Some page) = page"
    by (simp add: List.map_filter_def comp_def filter_map)
  from Cons show ?case
    by (auto simp: fuel some Let_def split: if_splits)
qed simp

text \<open>An in-memory service: it keeps the contract, so the hypothesis \<open>s3_documented\<close> can hold.\<close>

definition mem_s3 :: "((string \<times> string) \<times> bytes) list S3" where
  "mem_s3 =
     \<lparr>req_head_bucket = (\<lambda>b s. (Inr (), s)),
      req_create_bucket = (\<lambda>b s. (Inr (), s)),
      req_put_object = (\<lambda>b k v ct cond s.
        if cond = Some ''*'' \<and> map_of s (b, k) \<noteq> None
        then (Inl (ServiceError ''PreconditionFailed''), s)
        else (Inr (), AList.update (b, k) v s)),
      req_get_object = (\<lambda>b k s.
        (case map_of s (b, k) of None \<Rightarrow> Inl (ServiceError ''NoSuchKey'') | Some v \<Rightarrow> Inr (Inr v), s)),
      req_delete_object = (\<lambda>b k s. (Inr (), AList.delete (b, k) s)),
      req_list_objects_v2 = (\<lambda>b p token s.
        (Inr (map Some (sort (remdups (map (snd \<circ> fst)
           (filter (\<lambda>((b', k), v). b' = b \<and> starts_with p k) s)))), None), s))\<rparr>"

lemma mem_s3_documented: "s3_documented (Suc 0) mem_s3 map_of"
  unfolding s3_documented_def
proof (intro conjI allI)
  fix b p and s :: "((string \<times> string) \<times> bytes) list"
  let ?ks = "sort (remdups (map (snd \<circ> fst) (filter (\<lambda>((b', k), v). b' = b \<and> starts_with p k) s)))"
  have "set ?ks = {k. map_of s (b, k) \<noteq> None \<and> starts_with p k}"
    by (force simp: map_of_eq_None_iff image_iff)
  then show "\<exists>pages. listing mem_s3 b p s None pages \<and> length pages \<le> Suc 0 \<and> sorted (concat pages) \<and>
      distinct (concat pages) \<and> set (concat pages) = {k. map_of s (b, k) \<noteq> None \<and> starts_with p k}"
    by (intro exI [of _ "[?ks]"]) (simp add: mem_s3_def)
qed (auto simp: mem_s3_def map_of_delete_iff fun_eq_iff split: option.splits)

subsection \<open>The client on such a service\<close>

lemma list_object_keys_ok [s3_simps]:
  assumes "s3_documented fuel s3 objs"
  shows "\<exists>ks. list_object_keys fuel s3 b p s = (Inr ks, s) \<and> sorted ks \<and> distinct ks \<and>
           set ks = {k. objs s (b, k) \<noteq> None \<and> starts_with p k}"
proof -
  obtain pages where "listing s3 b p s None pages" "length pages \<le> fuel" and pages: "sorted (concat pages)"
      "distinct (concat pages)" "set (concat pages) = {k. objs s (b, k) \<noteq> None \<and> starts_with p k}"
    using s3_documentedD(6) [OF assms, of b p s] by blast
  then have "list_object_keys fuel s3 b p s = (Inr (concat pages), s)"
    by (simp add: list_object_keys_def list_pages_listing)
  with pages show ?thesis by blast
qed

lemma get_json_optional_ok [s3_simps]:
  assumes "s3_documented fuel s3 objs"
  shows "get_json_optional dec s3 b k s =
     (case objs s (b, k) of None \<Rightarrow> (Inr None, s)
      | Some bytes \<Rightarrow> (case dec bytes of None \<Rightarrow> (Inl (JsonDecodeFailed k), s) | Some v \<Rightarrow> (Inr (Some v), s)))"
  using s3_documentedD(4) [OF assms, of b k s]
  by (auto simp: get_json_optional_def and_then_def get_object_optional_def split: option.splits)

lemma put_json_ok [s3_simps]:
  assumes "s3_documented fuel s3 objs" "enc v = Some bytes"
  shows "\<exists>s'. put_json enc s3 b k v s = (Inr (), s') \<and> objs s' = (objs s)((b, k) \<mapsto> bytes)"
  using s3_documentedD(1) [OF assms(1), of b k bytes "''application/json''" s] assms(2)
  by (auto simp: put_json_def put_object_def map_err_def)

lemma put_json_if_absent_ok [s3_simps]:
  assumes "s3_documented fuel s3 objs" "enc v = Some bytes"
  shows "if objs s (b, k) = None
    then \<exists>s'. put_json_if_absent enc s3 b k v s = (Inr True, s') \<and> objs s' = (objs s)((b, k) \<mapsto> bytes)
    else put_json_if_absent enc s3 b k v s = (Inr False, s)"
  using s3_documentedD(2,3) [OF assms(1), of s b k bytes "''application/json''"] assms(2)
  by (auto simp: put_json_if_absent_def put_object_if_absent_def)

lemma delete_object_ok [s3_simps]:
  assumes "s3_documented fuel s3 objs"
  shows "\<exists>s'. delete_object s3 b k s = (Inr (), s') \<and> objs s' = (objs s)((b, k) := None)"
  using s3_documentedD(5) [OF assms, of b k s] by (auto simp: delete_object_def map_err_def)

lemma put_object_ok [s3_simps]:
  assumes "s3_documented fuel s3 objs"
  shows "\<exists>s'. put_object s3 b k v ct s = (Inr (), s') \<and> objs s' = (objs s)((b, k) \<mapsto> v)"
  using s3_documentedD(1) [OF assms, of b k v ct s] by (auto simp: put_object_def map_err_def)

lemma list_pages_unfinished:
  "listing s3 b p s token pages \<Longrightarrow> fuel < length pages \<Longrightarrow>
   list_pages fuel s3 b p token keys s = (Inl ListingUnfinished, s)"
proof (induction pages arbitrary: fuel token keys)
  case (Cons page pages)
  then show ?case by (cases fuel) (auto simp: Let_def split: if_splits)
qed simp

subsection \<open>Properties\<close>

text \<open>C38.  Pagination is transparent: when the service spreads a listing over pages linked by continuation
  tokens, \<open>list_object_keys\<close> returns the keys of all pages in order, and it does return: the loop ends
  exactly when its fuel covers the number of pages.\<close>
theorem list_object_keys_complete:
  assumes "listing s3 b p s None pages"
  shows "list_object_keys fuel s3 b p s =
    (if length pages \<le> fuel then (Inr (concat pages), s) else (Inl ListingUnfinished, s))"
  using list_pages_listing [OF assms] list_pages_unfinished [OF assms]
  by (simp add: list_object_keys_def)

theorem list_object_keys_complete_witness:
  "list_object_keys 5
     (mem_s3\<lparr>req_list_objects_v2 := (\<lambda>b p token s.
        (Inr (if token = None then ([Some ''a'', Some ''b''], Some ''t'') else ([Some ''c''], None)), s))\<rparr>)
     ''bucket'' [] [] = (Inr [''a'', ''b'', ''c''], [])"
  by (subst list_object_keys_complete [of _ _ _ _ "[[''a'', ''b''], [''c'']]"]) simp_all

end
