(* ===== verification/Version_Vector.thy ===== *)
theory Version_Vector
  imports Prelude
begin

text \<open>
  Version vectors: the free functions \<^verbatim>\<open>vv_join\<close>, \<^verbatim>\<open>vv_meet\<close>, \<^verbatim>\<open>vv_leq\<close> and
  \<^verbatim>\<open>vv_lt\<close> of \<^verbatim>\<open>src/logical_clocks/dot_version_vector.rs\<close> on
  \<^verbatim>\<open>HashMap<NodeId, Counter>\<close>, where a missing entry reads as 0.

  The locale \<open>version_vectors\<close> is the contract the clocks and the garbage collector rely on: join
  and meet are the pointwise maximum and minimum of the counters and \<open>leq\<close> the pointwise order.
  Its lemmas (least upper bound, greatest lower bound, the meet of a list of vectors) are proved
  once and reached through the interpretation \<open>vv\<close>.
\<close>

named_theorems vv_simps \<open>counters of the version-vector operations\<close>

type_synonym CausalContext = "(NodeId, Counter) hmap"

subsection \<open>Operations\<close>

definition vv_join :: "CausalContext \<Rightarrow> CausalContext \<Rightarrow> CausalContext" where
  "vv_join a b = fold (\<lambda>(k, v) out. hm_insert k (max (hm_or out k 0) v) out) b a"

definition vv_meet :: "CausalContext \<Rightarrow> CausalContext \<Rightarrow> CausalContext" where
  "vv_meet a b =
     (let keys = hs_collect (hm_keys a @ hm_keys b)
      in fold (\<lambda>k out.
           let a_val = hm_or a k 0; b_val = hm_or b k 0; m = min a_val b_val
           in if m > 0 then hm_insert k m out else out) keys [])"

definition vv_leq :: "CausalContext \<Rightarrow> CausalContext \<Rightarrow> bool" where
  "vv_leq a b =
     (let keys = hs_collect (hm_keys a @ hm_keys b)
      in list_all (\<lambda>k. hm_or a k 0 \<le> hm_or b k 0) keys)"

definition vv_lt :: "CausalContext \<Rightarrow> CausalContext \<Rightarrow> bool" where
  "vv_lt a b \<longleftrightarrow> vv_leq a b \<and> \<not> hm_eq a b"

subsection \<open>The contract of version vectors\<close>

locale version_vectors =
  fixes val :: "'m \<Rightarrow> 'k \<Rightarrow> 'c::linorder"
    and ok :: "'m \<Rightarrow> bool"
    and leq :: "'m \<Rightarrow> 'm \<Rightarrow> bool"
    and join :: "'m \<Rightarrow> 'm \<Rightarrow> 'm"
    and meet :: "'m \<Rightarrow> 'm \<Rightarrow> 'm"
  assumes leq_val: "leq a b \<longleftrightarrow> (\<forall>k. val a k \<le> val b k)"
    and val_join: "ok a \<Longrightarrow> ok b \<Longrightarrow> val (join a b) k = max (val a k) (val b k)"
    and val_meet: "ok a \<Longrightarrow> ok b \<Longrightarrow> val (meet a b) k = min (val a k) (val b k)"
    and ok_join: "ok a \<Longrightarrow> ok b \<Longrightarrow> ok (join a b)"
    and ok_meet: "ok a \<Longrightarrow> ok b \<Longrightarrow> ok (meet a b)"
begin

lemma leq_refl: "leq a a"
  by (simp add: leq_val)

lemma leq_trans: "leq a b \<Longrightarrow> leq b c \<Longrightarrow> leq a c"
  unfolding leq_val by (meson order_trans)

lemma leq_antisym: "leq a b \<Longrightarrow> leq b a \<Longrightarrow> val a = val b"
  by (auto simp: leq_val intro!: ext order_antisym)

lemma join_leq_iff: "ok a \<Longrightarrow> ok b \<Longrightarrow> leq (join a b) c \<longleftrightarrow> leq a c \<and> leq b c"
  by (auto simp: leq_val val_join)

lemma leq_meet_iff: "ok a \<Longrightarrow> ok b \<Longrightarrow> leq c (meet a b) \<longleftrightarrow> leq c a \<and> leq c b"
  by (auto simp: leq_val val_meet)

lemma join_upper: "ok a \<Longrightarrow> ok b \<Longrightarrow> leq a (join a b) \<and> leq b (join a b)"
  by (simp add: leq_val val_join)

lemma join_commute: "ok a \<Longrightarrow> ok b \<Longrightarrow> val (join a b) = val (join b a)"
  by (auto simp: val_join max.commute)

lemma join_assoc:
  "ok a \<Longrightarrow> ok b \<Longrightarrow> ok c \<Longrightarrow> val (join (join a b) c) = val (join a (join b c))"
  by (auto simp: val_join ok_join max.assoc)

lemma join_idem: "ok a \<Longrightarrow> val (join a a) = val a"
  by (auto simp: val_join)

lemma join_meet_absorb: "ok a \<Longrightarrow> ok b \<Longrightarrow> val (join a (meet a b)) = val a"
  by (auto simp: val_join val_meet ok_meet)

text \<open>The meet of a non-empty list of vectors, as a left fold.\<close>

lemma ok_meets: "ok a \<Longrightarrow> (\<And>x. x \<in> set xs \<Longrightarrow> ok x) \<Longrightarrow> ok (foldl meet a xs)"
  by (induction xs arbitrary: a) (auto simp: ok_meet)

lemma leq_meets_iff:
  "ok a \<Longrightarrow> (\<And>x. x \<in> set xs \<Longrightarrow> ok x) \<Longrightarrow>
   leq c (foldl meet a xs) \<longleftrightarrow> leq c a \<and> (\<forall>x \<in> set xs. leq c x)"
  by (induction xs arbitrary: a) (auto simp: leq_meet_iff ok_meet)

lemma val_meets:
  "ok a \<Longrightarrow> (\<And>x. x \<in> set xs \<Longrightarrow> ok x) \<Longrightarrow>
   val (foldl meet a xs) k = Min (insert (val a k) ((\<lambda>x. val x k) ` set xs))"
proof (induction xs arbitrary: a)
  case (Cons x xs)
  then have "val (foldl meet a (x # xs)) k
      = Min (insert (min (val a k) (val x k)) ((\<lambda>x. val x k) ` set xs))"
    by (simp add: ok_meet val_meet)
  then show ?case
    by (cases "set xs = {}") (simp_all add: min.assoc)
qed simp

end

subsection \<open>The program's functions meet it\<close>

lemma vv_leq_iff: "vv_leq a b \<longleftrightarrow> (\<forall>k. hm_or a k 0 \<le> hm_or b k 0)"
proof -
  have "hm_or a k 0 \<le> hm_or b k 0" if "k \<notin> set (hm_keys a)" for k
    using that by (simp add: hm_or_notin)
  then show ?thesis
    unfolding vv_leq_def Let_def by (auto simp: list_all_iff)
qed

lemma hm_ok_vv_join [simp, hm_intros]: "hm_ok a \<Longrightarrow> hm_ok (vv_join a b)"
  using hm.ok_upserts [of a "\<lambda>old v. max (case old of None \<Rightarrow> 0 | Some c \<Rightarrow> c) v" b]
  by (simp add: vv_join_def hm_or_def)

lemma hm_or_vv_join [vv_simps]:
  assumes "hm_ok a" and "hm_ok b"
  shows "hm_or (vv_join a b) k 0 = max (hm_or a k 0) (hm_or b k 0)"
  using hm.get_upserts [OF assms, of "\<lambda>old v. max (case old of None \<Rightarrow> 0 | Some c \<Rightarrow> c) v" k]
  by (auto simp: vv_join_def hm_or_def split: option.splits)

lemma vv_meet_alt:
  "map_of (fold (\<lambda>k out. let a_val = f k; b_val = g k; m = min a_val b_val
        in if m > 0 then hm_insert k m out else out) ks m) k =
   (if k \<in> set ks \<and> min (f k) (g k) > (0::Counter) then Some (min (f k) (g k)) else map_of m k)"
  by (induction ks arbitrary: m) (auto simp: Let_def)

lemma hm_ok_vv_meet [simp, hm_intros]: "hm_ok (vv_meet a b)"
proof -
  have "hm_ok m \<Longrightarrow> hm_ok (fold (\<lambda>k out. let a_val = f k; b_val = g k; m = min a_val b_val
        in if m > 0 then hm_insert k m out else out) ks m)"
    for f g :: "NodeId \<Rightarrow> Counter" and ks m
    by (induction ks arbitrary: m) (auto simp: Let_def)
  then show ?thesis by (simp add: vv_meet_def)
qed

lemma map_of_vv_meet:
  "map_of (vv_meet a b) k =
     (let m = min (hm_or a k 0) (hm_or b k 0) in if m > 0 then Some m else None)"
proof -
  have "min (hm_or a k 0) (hm_or b k 0) = 0" if "k \<notin> fst ` set a \<union> fst ` set b"
    using that by (auto simp: hm_or_notin)
  then show ?thesis
    unfolding vv_meet_def Let_def by (subst vv_meet_alt [unfolded Let_def]) (auto simp: hm_or_notin)
qed

lemma hm_or_vv_meet [vv_simps]: "hm_or (vv_meet a b) k 0 = min (hm_or a k 0) (hm_or b k 0)"
  by (auto simp: hm_or_def [of "vv_meet a b"] map_of_vv_meet Let_def word_gt_0)

interpretation vv: version_vectors "\<lambda>m k. hm_or m k (0::Counter)" hm_ok vv_leq vv_join vv_meet
  by unfold_locales (simp_all add: vv_leq_iff vv_simps)

text \<open>\<^verbatim>\<open>vv_join\<close> is the least upper bound and \<^verbatim>\<open>vv_meet\<close> the greatest lower bound of two
  version vectors in the order \<^verbatim>\<open>vv_leq\<close>, whatever the iteration order of the hash maps.\<close>

theorem vv_lattice:
  assumes "hm_ok a" and "hm_ok b"
  shows "(vv_leq (vv_join a b) c \<longleftrightarrow> vv_leq a c \<and> vv_leq b c) \<and>
    (vv_leq c (vv_meet a b) \<longleftrightarrow> vv_leq c a \<and> vv_leq c b)"
  using assms by (simp add: vv.join_leq_iff vv.leq_meet_iff)

theorem vv_lattice_witness:
  "vv_leq (vv_join [(''A'', 2)] [(''B'', 1)]) [(''B'', 1), (''A'', 3)] \<and>
   \<not> vv_leq [(''A'', 1)] (vv_meet [(''A'', 2)] [(''B'', 1)])"
proof -
  have ok: "hm_ok [(''A'', 2 :: Counter)]" "hm_ok [(''B'', 1 :: Counter)]" by simp_all
  show ?thesis
    unfolding vv_lattice [OF ok, THEN conjunct1] vv_lattice [OF ok, THEN conjunct2] by code_simp
qed

text \<open>\<^verbatim>\<open>vv_lt\<close> is strict progress: some counter grows and none shrinks, for vectors that store no
  zero entry (the ones the program builds with \<^verbatim>\<open>vv_meet\<close>).\<close>

lemma vv_lt_imp_progress:
  assumes "vv_lt a b" and "\<forall>k. map_of a k \<noteq> Some 0" and "\<forall>k. map_of b k \<noteq> Some 0"
  shows "vv_leq a b \<and> (\<exists>k. hm_or a k 0 < hm_or b k 0)"
proof -
  from assms(1) obtain k where leq: "vv_leq a b" and ne: "map_of a k \<noteq> map_of b k"
    by (auto simp: vv_lt_def hm_eq_iff)
  have "hm_or a k 0 \<noteq> hm_or b k 0"
    using ne assms(2,3) by (cases "map_of a k"; cases "map_of b k") (auto simp: hm_or_def)
  moreover have "hm_or a k 0 \<le> hm_or b k 0" using leq by (simp add: vv_leq_iff)
  ultimately show ?thesis using leq by (meson order_le_imp_less_or_eq)
qed

end
