(* ===== verification/GC_Storage.thy ===== *)
theory GC_Storage
  imports Object_Store Version_Vector "HOL-Library.Countable"
begin

text \<open>
  The durable state of the garbage collector, \<^verbatim>\<open>src/gc/storage.rs\<close>, and its configuration,
  \<^verbatim>\<open>src/gc/mod.rs\<close>: object keys, the parser of final-dot keys, and the eight methods of the trait
  \<^verbatim>\<open>GcStorage\<close> on top of the S3 client.

  A value of the trait is the record \<open>GcStorage\<close> of its methods; \<open>s3_gc_storage\<close> builds it from the
  service, the JSON codecs and the configuration.  The locale \<open>gc_storage\<close> is the contract the
  coordinator relies on (an atomic claim per epoch, reads that return the last write, and no
  interference between metadata, state and claims), interpreted on \<open>s3_gc_storage\<close>.
\<close>

named_theorems gcs_simps \<open>results of the garbage collector's storage\<close>

subsection \<open>Configuration\<close>

record GcReplicaConfig =
  initiate_interval :: nat

record GcStorageConfig =
  bucket :: string
  key_prefix :: string

record GcConfig =
  gc_replica :: bool
  observe_interval :: nat
  storage_config :: GcStorageConfig
  gc_replica_config :: "GcReplicaConfig option"

subsection \<open>Records\<close>

record EpochMetadata =
  em_epoch :: u64
  em_v_stable :: CausalContext
  em_obsolete_dots :: "NodeId hset"

record EpochState =
  es_epoch :: u64
  es_initiator_clock :: CausalContext
  es_state_payload :: bytes

record GcIntentRecord =
  gi_epoch :: u64
  gi_initiator :: NodeId

subsection \<open>Object keys\<close>

definition storage_key :: "GcStorageConfig \<Rightarrow> string \<Rightarrow> string \<Rightarrow> string" where
  "storage_key config namespace suffix =
     trim_end_matches CHR ''/'' (key_prefix config) @ ''/'' @ namespace @ suffix"

definition gc_intent_key :: "GcStorageConfig \<Rightarrow> u64 \<Rightarrow> string" where
  "gc_intent_key config epoch =
     storage_key config ''gc_intent'' (''_'' @ show_nat (unat epoch) @ ''.json'')"

definition epoch_metadata_key :: "GcStorageConfig \<Rightarrow> string" where
  "epoch_metadata_key config = storage_key config ''epoch_metadata'' ''.json''"

definition epoch_state_key :: "GcStorageConfig \<Rightarrow> string" where
  "epoch_state_key config = storage_key config ''epoch_state'' ''.json''"

definition final_dots_key_prefix :: "GcStorageConfig \<Rightarrow> string" where
  "final_dots_key_prefix config = storage_key config ''final_dots'' ''/''"

definition parse_final_dot_key :: "GcStorageConfig \<Rightarrow> string \<Rightarrow> (NodeId \<times> Counter) option" where
  "parse_final_dot_key config key =
     (let prefix = trim_end_matches CHR ''/'' (key_prefix config) @ ''/final_dots/'' in
      if starts_with prefix key \<and> ends_with ''.json'' key then
        let raw = take (length key - length ''.json'' - length prefix) (drop (length prefix) key);
            parts = split_at CHR ''_'' raw
        in if length parts = 2 then
             (case parse_u64 (parts ! 1) of Some counter \<Rightarrow> Some (parts ! 0, counter) | None \<Rightarrow> None)
           else None
      else None)"

subsection \<open>The trait and its S3 implementation\<close>

record 's GcStorage =
  read_epoch_metadata :: "('s, anyhow, EpochMetadata) call"
  read_epoch_state :: "('s, anyhow, EpochState) call"
  write_epoch_metadata :: "EpochMetadata \<Rightarrow> ('s, anyhow, unit) call"
  write_epoch_state :: "EpochState \<Rightarrow> ('s, anyhow, unit) call"
  read_final_dots :: "('s, anyhow, (NodeId, Counter) hmap) call"
  claim_gc_intent :: "u64 \<Rightarrow> NodeId \<Rightarrow> ('s, anyhow, bool) call"
  read_gc_intent :: "u64 \<Rightarrow> ('s, anyhow, GcIntentRecord option) call"
  release_gc_intent :: "u64 \<Rightarrow> ('s, anyhow, unit) call"

text \<open>The JSON form of the three records (\<^verbatim>\<open>serde_json\<close>) is an argument.\<close>

record json_codec =
  metadata_to_json :: "EpochMetadata \<Rightarrow> bytes option"
  metadata_from_json :: "bytes \<Rightarrow> EpochMetadata option"
  state_to_json :: "EpochState \<Rightarrow> bytes option"
  state_from_json :: "bytes \<Rightarrow> EpochState option"
  intent_to_json :: "GcIntentRecord \<Rightarrow> bytes option"
  intent_from_json :: "bytes \<Rightarrow> GcIntentRecord option"

definition default_epoch_metadata :: EpochMetadata where
  "default_epoch_metadata = \<lparr>em_epoch = 0, em_v_stable = [], em_obsolete_dots = []\<rparr>"

definition default_epoch_state :: EpochState where
  "default_epoch_state = \<lparr>es_epoch = 0, es_initiator_clock = [], es_state_payload = []\<rparr>"

definition unwrap_or :: "'a option \<Rightarrow> 'a \<Rightarrow> 'a" where
  "unwrap_or x d = (case x of None \<Rightarrow> d | Some a \<Rightarrow> a)"

definition s3_read_epoch_metadata ::
  "json_codec \<Rightarrow> 's S3 \<Rightarrow> GcStorageConfig \<Rightarrow> ('s, anyhow, EpochMetadata) call" where
  "s3_read_epoch_metadata js s3 config =
     and_then (get_json_optional (metadata_from_json js) s3 (bucket config) (epoch_metadata_key config))
       (\<lambda>found. return_ok (unwrap_or found default_epoch_metadata))"

definition s3_read_epoch_state ::
  "json_codec \<Rightarrow> 's S3 \<Rightarrow> GcStorageConfig \<Rightarrow> ('s, anyhow, EpochState) call" where
  "s3_read_epoch_state js s3 config =
     and_then (get_json_optional (state_from_json js) s3 (bucket config) (epoch_state_key config))
       (\<lambda>found. return_ok (unwrap_or found default_epoch_state))"

definition s3_write_epoch_metadata ::
  "json_codec \<Rightarrow> 's S3 \<Rightarrow> GcStorageConfig \<Rightarrow> EpochMetadata \<Rightarrow> ('s, anyhow, unit) call" where
  "s3_write_epoch_metadata js s3 config epoch_metadata =
     put_json (metadata_to_json js) s3 (bucket config) (epoch_metadata_key config) epoch_metadata"

definition s3_write_epoch_state ::
  "json_codec \<Rightarrow> 's S3 \<Rightarrow> GcStorageConfig \<Rightarrow> EpochState \<Rightarrow> ('s, anyhow, unit) call" where
  "s3_write_epoch_state js s3 config epoch_state =
     put_json (state_to_json js) s3 (bucket config) (epoch_state_key config) epoch_state"

definition s3_claim_gc_intent ::
  "json_codec \<Rightarrow> 's S3 \<Rightarrow> GcStorageConfig \<Rightarrow> u64 \<Rightarrow> NodeId \<Rightarrow> ('s, anyhow, bool) call" where
  "s3_claim_gc_intent js s3 config epoch initiator =
     put_json_if_absent (intent_to_json js) s3 (bucket config) (gc_intent_key config epoch)
       \<lparr>gi_epoch = epoch, gi_initiator = initiator\<rparr>"

definition s3_read_gc_intent ::
  "json_codec \<Rightarrow> 's S3 \<Rightarrow> GcStorageConfig \<Rightarrow> u64 \<Rightarrow> ('s, anyhow, GcIntentRecord option) call" where
  "s3_read_gc_intent js s3 config epoch =
     get_json_optional (intent_from_json js) s3 (bucket config) (gc_intent_key config epoch)"

definition s3_release_gc_intent :: "'s S3 \<Rightarrow> GcStorageConfig \<Rightarrow> u64 \<Rightarrow> ('s, anyhow, unit) call" where
  "s3_release_gc_intent s3 config epoch = delete_object s3 (bucket config) (gc_intent_key config epoch)"

definition s3_read_final_dots ::
  "nat \<Rightarrow> 's S3 \<Rightarrow> GcStorageConfig \<Rightarrow> ('s, anyhow, (NodeId, Counter) hmap) call" where
  "s3_read_final_dots fuel s3 config =
     and_then (list_object_keys fuel s3 (bucket config) (final_dots_key_prefix config))
       (\<lambda>keys. return_ok (hm_collect (List.map_filter (parse_final_dot_key config) keys)))"

definition s3_gc_storage ::
  "nat \<Rightarrow> json_codec \<Rightarrow> 's S3 \<Rightarrow> GcStorageConfig \<Rightarrow> 's GcStorage" where
  "s3_gc_storage fuel js s3 config =
     \<lparr>read_epoch_metadata = s3_read_epoch_metadata js s3 config,
      read_epoch_state = s3_read_epoch_state js s3 config,
      write_epoch_metadata = s3_write_epoch_metadata js s3 config,
      write_epoch_state = s3_write_epoch_state js s3 config,
      read_final_dots = s3_read_final_dots fuel s3 config,
      claim_gc_intent = s3_claim_gc_intent js s3 config,
      read_gc_intent = s3_read_gc_intent js s3 config,
      release_gc_intent = s3_release_gc_intent s3 config\<rparr>"

subsection \<open>The contract of the storage\<close>

record gc_view =
  gv_metadata :: EpochMetadata
  gv_state :: EpochState
  gv_intent :: "u64 \<Rightarrow> GcIntentRecord option"
  gv_final_dots :: "(NodeId, Counter) hmap"

text \<open>A map that went through JSON may come back in another iteration order.\<close>

definition metadata_equiv :: "EpochMetadata \<Rightarrow> EpochMetadata \<Rightarrow> bool" where
  "metadata_equiv a b \<longleftrightarrow>
     em_epoch a = em_epoch b \<and> map_of (em_v_stable a) = map_of (em_v_stable b) \<and>
     (hm_ok (em_v_stable a) \<longrightarrow> hm_ok (em_v_stable b)) \<and> set (em_obsolete_dots a) = set (em_obsolete_dots b)"

definition state_equiv :: "EpochState \<Rightarrow> EpochState \<Rightarrow> bool" where
  "state_equiv a b \<longleftrightarrow>
     es_epoch a = es_epoch b \<and> map_of (es_initiator_clock a) = map_of (es_initiator_clock b) \<and>
     (hm_ok (es_initiator_clock a) \<longrightarrow> hm_ok (es_initiator_clock b)) \<and>
     es_state_payload a = es_state_payload b"

locale gc_storage =
  fixes G :: "'s GcStorage"
    and ok :: "'s \<Rightarrow> bool"
    and view :: "'s \<Rightarrow> gc_view"
  assumes read_metadata: "ok s \<Longrightarrow> read_epoch_metadata G s = (Inr (gv_metadata (view s)), s)"
    and read_state: "ok s \<Longrightarrow> read_epoch_state G s = (Inr (gv_state (view s)), s)"
    and read_intent: "ok s \<Longrightarrow> read_gc_intent G n s = (Inr (gv_intent (view s) n), s)"
    and read_final: "ok s \<Longrightarrow> read_final_dots G s = (Inr (gv_final_dots (view s)), s)"
    and write_metadata: "ok s \<Longrightarrow> \<exists>s' m'. write_epoch_metadata G m s = (Inr (), s') \<and> ok s' \<and>
      view s' = (view s)\<lparr>gv_metadata := m'\<rparr> \<and> metadata_equiv m m'"
    and write_state: "ok s \<Longrightarrow> \<exists>s' t'. write_epoch_state G t s = (Inr (), s') \<and> ok s' \<and>
      view s' = (view s)\<lparr>gv_state := t'\<rparr> \<and> state_equiv t t'"
    and claim_free: "ok s \<Longrightarrow> gv_intent (view s) n = None \<Longrightarrow> \<exists>s'. claim_gc_intent G n i s = (Inr True, s') \<and>
      ok s' \<and> view s' = (view s)\<lparr>gv_intent := (gv_intent (view s))(n \<mapsto> \<lparr>gi_epoch = n, gi_initiator = i\<rparr>)\<rparr>"
    and claim_taken: "ok s \<Longrightarrow> gv_intent (view s) n \<noteq> None \<Longrightarrow> claim_gc_intent G n i s = (Inr False, s)"
    and release: "ok s \<Longrightarrow> \<exists>s'. release_gc_intent G n s = (Inr (), s') \<and> ok s' \<and>
      view s' = (view s)\<lparr>gv_intent := (gv_intent (view s))(n := None)\<rparr>"
begin

lemma claim_once:
  "ok s \<Longrightarrow> claim_gc_intent G n i s = (Inr True, s') \<Longrightarrow> claim_gc_intent G n j s' = (Inr False, s')"
  using claim_free [of s n i] claim_taken [of s n i] claim_taken [of s' n j]
  by (cases "gv_intent (view s) n") fastforce+

lemma claim_release_reclaim:
  assumes "ok s" "gv_intent (view s) n = None"
  shows "\<exists>s1 s2. claim_gc_intent G n i s = (Inr True, s1) \<and> release_gc_intent G n s1 = (Inr (), s2) \<and>
           view s2 = view s \<and> ok s2"
proof -
  obtain s1 where s1: "claim_gc_intent G n i s = (Inr True, s1)" "ok s1"
    "view s1 = (view s)\<lparr>gv_intent := (gv_intent (view s))(n \<mapsto> \<lparr>gi_epoch = n, gi_initiator = i\<rparr>)\<rparr>"
    using claim_free [OF assms] by blast
  obtain s2 where "release_gc_intent G n s1 = (Inr (), s2)" "ok s2"
    "view s2 = (view s1)\<lparr>gv_intent := (gv_intent (view s1))(n := None)\<rparr>"
    using release [OF s1(2)] by blast
  with s1 assms(2) show ?thesis
    by (auto intro!: exI [of _ s1] exI [of _ s2] gc_view.equality)
qed

end

subsection \<open>Keys do not collide\<close>

lemma show_nat_inject [simp]: "show_nat m = show_nat n \<longleftrightarrow> m = n"
  by (metis option.inject parse_nat_show_nat)

lemma gc_intent_key_inject [simp]: "gc_intent_key c m = gc_intent_key c n \<longleftrightarrow> m = n"
  by (auto simp: gc_intent_key_def storage_key_def word_unat_eq_iff)

lemma keys_distinct [simp]:
  "gc_intent_key c n \<noteq> epoch_metadata_key c" "epoch_metadata_key c \<noteq> gc_intent_key c n"
  "gc_intent_key c n \<noteq> epoch_state_key c" "epoch_state_key c \<noteq> gc_intent_key c n"
  "epoch_metadata_key c \<noteq> epoch_state_key c" "epoch_state_key c \<noteq> epoch_metadata_key c"
  by (simp_all add: gc_intent_key_def epoch_metadata_key_def epoch_state_key_def storage_key_def)

lemma starts_with_same: "starts_with (a @ x) (a @ y) \<longleftrightarrow> starts_with x y"
  by (simp add: starts_with_def)

lemma keys_not_final_dots [simp]:
  "\<not> starts_with (final_dots_key_prefix c) (gc_intent_key c n)"
  "\<not> starts_with (final_dots_key_prefix c) (epoch_metadata_key c)"
  "\<not> starts_with (final_dots_key_prefix c) (epoch_state_key c)"
  by (simp_all add: gc_intent_key_def epoch_metadata_key_def epoch_state_key_def storage_key_def
      final_dots_key_prefix_def starts_with_same) (simp_all add: starts_with_def)

subsection \<open>The S3 implementation keeps the contract\<close>

lemmas s3_gc_storage_defs = s3_gc_storage_def s3_read_epoch_metadata_def s3_read_epoch_state_def
  s3_write_epoch_metadata_def s3_write_epoch_state_def s3_claim_gc_intent_def s3_read_gc_intent_def
  s3_release_gc_intent_def s3_read_final_dots_def

definition json_documented :: "json_codec \<Rightarrow> bool" where
  "json_documented js \<longleftrightarrow>
     (\<forall>m. \<exists>b m'. metadata_to_json js m = Some b \<and> metadata_from_json js b = Some m' \<and> metadata_equiv m m') \<and>
     (\<forall>t. \<exists>b t'. state_to_json js t = Some b \<and> state_from_json js b = Some t' \<and> state_equiv t t') \<and>
     (\<forall>i. \<exists>b. intent_to_json js i = Some b \<and> intent_from_json js b = Some i)"

definition final_dot_keys :: "('s \<Rightarrow> objects) \<Rightarrow> GcStorageConfig \<Rightarrow> 's \<Rightarrow> string set" where
  "final_dot_keys objs c s =
     {k. objs s (bucket c, k) \<noteq> None \<and> starts_with (final_dots_key_prefix c) k}"

definition s3_view :: "json_codec \<Rightarrow> ('s \<Rightarrow> objects) \<Rightarrow> GcStorageConfig \<Rightarrow> 's \<Rightarrow> gc_view" where
  "s3_view js objs c s =
     \<lparr>gv_metadata = unwrap_or (Option.bind (objs s (bucket c, epoch_metadata_key c)) (metadata_from_json js))
        default_epoch_metadata,
      gv_state = unwrap_or (Option.bind (objs s (bucket c, epoch_state_key c)) (state_from_json js))
        default_epoch_state,
      gv_intent = (\<lambda>n. Option.bind (objs s (bucket c, gc_intent_key c n)) (intent_from_json js)),
      gv_final_dots = hm_collect (List.map_filter (parse_final_dot_key c)
        (sorted_list_of_set (final_dot_keys objs c s)))\<rparr>"

definition s3_gc_ok ::
  "nat \<Rightarrow> json_codec \<Rightarrow> 's S3 \<Rightarrow> ('s \<Rightarrow> objects) \<Rightarrow> GcStorageConfig \<Rightarrow> 's \<Rightarrow> bool" where
  "s3_gc_ok fuel js s3 objs c s \<longleftrightarrow>
     s3_documented fuel s3 objs \<and> json_documented js \<and>
     (\<forall>b. objs s (bucket c, epoch_metadata_key c) = Some b \<longrightarrow> metadata_from_json js b \<noteq> None) \<and>
     (\<forall>b. objs s (bucket c, epoch_state_key c) = Some b \<longrightarrow> state_from_json js b \<noteq> None) \<and>
     (\<forall>n b. objs s (bucket c, gc_intent_key c n) = Some b \<longrightarrow> intent_from_json js b \<noteq> None)"

lemma s3_gc_okD:
  assumes "s3_gc_ok fuel js s3 objs c s"
  shows "s3_documented fuel s3 objs"
    and "\<exists>b m'. metadata_to_json js m = Some b \<and> metadata_from_json js b = Some m' \<and> metadata_equiv m m'"
    and "\<exists>b t'. state_to_json js t = Some b \<and> state_from_json js b = Some t' \<and> state_equiv t t'"
    and "\<exists>b. intent_to_json js i = Some b \<and> intent_from_json js b = Some i"
    and "objs s (bucket c, epoch_metadata_key c) = Some b \<Longrightarrow> metadata_from_json js b \<noteq> None"
    and "objs s (bucket c, epoch_state_key c) = Some b \<Longrightarrow> state_from_json js b \<noteq> None"
    and "objs s (bucket c, gc_intent_key c n) = Some b \<Longrightarrow> intent_from_json js b \<noteq> None"
  using assms unfolding s3_gc_ok_def json_documented_def by (elim conjE; simp)+

lemma final_dot_keys_same:
  "objs s' = (objs s)((bucket c, k) := v) \<Longrightarrow> \<not> starts_with (final_dots_key_prefix c) k \<Longrightarrow>
   final_dot_keys objs c s' = final_dot_keys objs c s"
  by (auto simp: final_dot_keys_def)

lemma s3_gc_ok_update:
  assumes "s3_gc_ok fuel js s3 objs c s" "objs s' = (objs s)((bucket c, k) := v)"
    and "\<And>b. v = Some b \<Longrightarrow> k = epoch_metadata_key c \<Longrightarrow> metadata_from_json js b \<noteq> None"
    and "\<And>b. v = Some b \<Longrightarrow> k = epoch_state_key c \<Longrightarrow> state_from_json js b \<noteq> None"
    and "\<And>b n. v = Some b \<Longrightarrow> k = gc_intent_key c n \<Longrightarrow> intent_from_json js b \<noteq> None"
  shows "s3_gc_ok fuel js s3 objs c s'"
  using assms unfolding s3_gc_ok_def by (auto split: if_splits)

lemma unwrap_or_simps [simp]: "unwrap_or None d = d" "unwrap_or (Some a) d = a"
  by (simp_all add: unwrap_or_def)

lemma s3_gc_reads:
  assumes ok: "s3_gc_ok fuel js s3 objs c s"
  shows "read_epoch_metadata (s3_gc_storage fuel js s3 c) s = (Inr (gv_metadata (s3_view js objs c s)), s)"
    and "read_epoch_state (s3_gc_storage fuel js s3 c) s = (Inr (gv_state (s3_view js objs c s)), s)"
  using s3_gc_okD(5-6) [OF ok]
  by (auto simp: s3_gc_storage_defs and_then_def get_json_optional_ok [OF s3_gc_okD(1) [OF ok]]
      s3_view_def split: option.splits)

lemma s3_gc_read_intent:
  assumes ok: "s3_gc_ok fuel js s3 objs c s"
  shows "read_gc_intent (s3_gc_storage fuel js s3 c) n s = (Inr (gv_intent (s3_view js objs c s) n), s)"
  using s3_gc_okD(7) [where n = n, OF ok]
  by (cases "objs s (bucket c, gc_intent_key c n)")
    (auto simp: s3_gc_storage_defs get_json_optional_ok [OF s3_gc_okD(1) [OF ok]] s3_view_def)

lemma read_final_dots_documented:
  assumes doc: "s3_documented fuel s3 objs"
  shows "read_final_dots (s3_gc_storage fuel js s3 c) s = (Inr (gv_final_dots (s3_view js objs c s)), s)"
proof -
  obtain ks where ks: "list_object_keys fuel s3 (bucket c) (final_dots_key_prefix c) s = (Inr ks, s)"
    "sorted ks" "distinct ks" "set ks = final_dot_keys objs c s"
    using list_object_keys_ok [OF doc, of "bucket c" "final_dots_key_prefix c" s]
    by (auto simp: final_dot_keys_def)
  then have "ks = sorted_list_of_set (final_dot_keys objs c s)"
    by (metis sorted_list_of_set.idem_if_sorted_distinct)
  with ks(1) show ?thesis by (simp add: s3_gc_storage_defs s3_view_def)
qed

lemmas s3_gc_read_final_dots = read_final_dots_documented [OF s3_gc_okD(1)]

lemma s3_gc_write_metadata:
  assumes ok: "s3_gc_ok fuel js s3 objs c s"
  shows "\<exists>s' m'. write_epoch_metadata (s3_gc_storage fuel js s3 c) m s = (Inr (), s') \<and>
      s3_gc_ok fuel js s3 objs c s' \<and>
      s3_view js objs c s' = (s3_view js objs c s)\<lparr>gv_metadata := m'\<rparr> \<and> metadata_equiv m m'"
proof -
  obtain b m' where b: "metadata_to_json js m = Some b" "metadata_from_json js b = Some m'" "metadata_equiv m m'"
    using s3_gc_okD(2) [OF ok, of m] by blast
  obtain s' where s': "put_json (metadata_to_json js) s3 (bucket c) (epoch_metadata_key c) m s = (Inr (), s')"
    "objs s' = (objs s)((bucket c, epoch_metadata_key c) \<mapsto> b)"
    using put_json_ok [where enc = "metadata_to_json js", OF s3_gc_okD(1) [OF ok] b(1)] by blast
  then have "s3_gc_ok fuel js s3 objs c s'"
    using b(2) by (intro s3_gc_ok_update [OF ok s'(2)]) auto
  with s' b show ?thesis
    by (auto simp: s3_gc_storage_defs s3_view_def final_dot_keys_same [OF s'(2)])
qed

lemma s3_gc_write_state:
  assumes ok: "s3_gc_ok fuel js s3 objs c s"
  shows "\<exists>s' t'. write_epoch_state (s3_gc_storage fuel js s3 c) t s = (Inr (), s') \<and>
      s3_gc_ok fuel js s3 objs c s' \<and>
      s3_view js objs c s' = (s3_view js objs c s)\<lparr>gv_state := t'\<rparr> \<and> state_equiv t t'"
proof -
  obtain b t' where b: "state_to_json js t = Some b" "state_from_json js b = Some t'" "state_equiv t t'"
    using s3_gc_okD(3) [OF ok, of t] by blast
  obtain s' where s': "put_json (state_to_json js) s3 (bucket c) (epoch_state_key c) t s = (Inr (), s')"
    "objs s' = (objs s)((bucket c, epoch_state_key c) \<mapsto> b)"
    using put_json_ok [where enc = "state_to_json js", OF s3_gc_okD(1) [OF ok] b(1)] by blast
  then have "s3_gc_ok fuel js s3 objs c s'"
    using b(2) by (intro s3_gc_ok_update [OF ok s'(2)]) auto
  with s' b show ?thesis
    by (auto simp: s3_gc_storage_defs s3_view_def final_dot_keys_same [OF s'(2)])
qed

lemma s3_gc_occupied:
  assumes "s3_gc_ok fuel js s3 objs c s"
  shows "gv_intent (s3_view js objs c s) n = None \<longleftrightarrow> objs s (bucket c, gc_intent_key c n) = None"
  using s3_gc_okD(7) [OF assms, of n]
  by (cases "objs s (bucket c, gc_intent_key c n)") (auto simp: s3_view_def)

lemma s3_gc_claim:
  assumes ok: "s3_gc_ok fuel js s3 objs c s"
  shows "gv_intent (s3_view js objs c s) n = None \<Longrightarrow>
      \<exists>s'. claim_gc_intent (s3_gc_storage fuel js s3 c) n i s = (Inr True, s') \<and> s3_gc_ok fuel js s3 objs c s' \<and>
        s3_view js objs c s' = (s3_view js objs c s)\<lparr>gv_intent :=
          (gv_intent (s3_view js objs c s))(n \<mapsto> \<lparr>gi_epoch = n, gi_initiator = i\<rparr>)\<rparr>" (is "?free \<Longrightarrow> ?P")
    and "gv_intent (s3_view js objs c s) n \<noteq> None \<Longrightarrow>
      claim_gc_intent (s3_gc_storage fuel js s3 c) n i s = (Inr False, s)" (is "?taken \<Longrightarrow> ?Q")
proof -
  obtain b where b: "intent_to_json js \<lparr>gi_epoch = n, gi_initiator = i\<rparr> = Some b"
    "intent_from_json js b = Some \<lparr>gi_epoch = n, gi_initiator = i\<rparr>"
    using s3_gc_okD(4) [OF ok] by blast
  note put = put_json_if_absent_ok [where enc = "intent_to_json js",
      OF s3_gc_okD(1) [OF ok] b(1), of s "bucket c" "gc_intent_key c n"]
  show ?P if ?free
  proof -
    obtain s' where s': "put_json_if_absent (intent_to_json js) s3 (bucket c) (gc_intent_key c n)
        \<lparr>gi_epoch = n, gi_initiator = i\<rparr> s = (Inr True, s')"
      "objs s' = (objs s)((bucket c, gc_intent_key c n) \<mapsto> b)"
      using put \<open>?free\<close> by (auto simp: s3_gc_occupied [OF ok])
    then have "s3_gc_ok fuel js s3 objs c s'"
      using b(2) by (intro s3_gc_ok_update [OF ok s'(2)]) auto
    with s' b show ?thesis
      by (auto simp: s3_gc_storage_defs s3_view_def final_dot_keys_same [OF s'(2)] intro!: ext)
  qed
  show ?Q if ?taken
    using put \<open>?taken\<close> by (auto simp: s3_gc_occupied [OF ok] s3_gc_storage_defs)
qed

lemma s3_gc_release:
  assumes ok: "s3_gc_ok fuel js s3 objs c s"
  shows "\<exists>s'. release_gc_intent (s3_gc_storage fuel js s3 c) n s = (Inr (), s') \<and> s3_gc_ok fuel js s3 objs c s' \<and>
      s3_view js objs c s' = (s3_view js objs c s)\<lparr>gv_intent := (gv_intent (s3_view js objs c s))(n := None)\<rparr>"
proof -
  obtain s' where s': "delete_object s3 (bucket c) (gc_intent_key c n) s = (Inr (), s')"
    "objs s' = (objs s)((bucket c, gc_intent_key c n) := None)"
    using delete_object_ok [OF s3_gc_okD(1) [OF ok]] by blast
  then have "s3_gc_ok fuel js s3 objs c s'"
    by (intro s3_gc_ok_update [OF ok s'(2)]) auto
  with s' show ?thesis
    by (auto simp: s3_gc_storage_defs s3_view_def final_dot_keys_same [OF s'(2)] intro!: ext)
qed

interpretation s3gc: gc_storage "s3_gc_storage fuel js s3 c" "s3_gc_ok fuel js s3 objs c" "s3_view js objs c"
  for fuel js s3 c and objs :: "'s \<Rightarrow> objects"
  by unfold_locales
    (rule s3_gc_reads s3_gc_read_intent s3_gc_read_final_dots s3_gc_write_metadata s3_gc_write_state
      s3_gc_claim s3_gc_release; assumption)+

subsection \<open>Final dots\<close>

lemma parse_final_dot_key_eq [gcs_simps]:
  "parse_final_dot_key c (final_dots_key_prefix c @ nid @ ''_'' @ show_nat (unat n) @ ''.json'') =
     (if CHR ''_'' \<in> set nid then None else Some (nid, n))"
proof -
  let ?k = "final_dots_key_prefix c @ nid @ ''_'' @ show_nat (unat n) @ ''.json''"
  let ?p = "trim_end_matches CHR ''/'' (key_prefix c) @ ''/final_dots/''"
  have p: "?p = final_dots_key_prefix c" by (simp add: final_dots_key_prefix_def storage_key_def)
  have raw: "take (length ?k - length ''.json'' - length ?p) (drop (length ?p) ?k)
      = nid @ CHR ''_'' # show_nat (unat n)"
    unfolding p by simp
  have ends: "ends_with ''.json'' ?k" "starts_with ?p ?k"
    unfolding p using ends_with_append [of "''.json''" "final_dots_key_prefix c @ nid @ ''_'' @ show_nat (unat n)"]
    by simp_all
  have free: "CHR ''_'' \<notin> set (show_nat (unat n))" by (rule show_nat_chars) simp
  show ?thesis
  proof (cases "CHR ''_'' \<in> set nid")
    case True
    then have "filter (\<lambda>x. x = CHR ''_'') nid \<noteq> []" by (auto simp: filter_empty_conv)
    then have "length (split_at CHR ''_'' (nid @ CHR ''_'' # show_nat (unat n))) \<noteq> 2"
      by (simp add: length_split_at)
    with True ends show ?thesis by (simp only: parse_final_dot_key_def Let_def raw) simp
  next
    case False
    then have "split_at CHR ''_'' (nid @ CHR ''_'' # show_nat (unat n)) = [nid, show_nat (unat n)]"
      using free by (simp add: split_at_append)
    with False ends show ?thesis by (simp only: parse_final_dot_key_def Let_def raw) simp
  qed
qed

lemma map_of_final_dots:
  assumes "map_of (hm_collect (List.map_filter f ks)) p = Some n"
  shows "\<exists>k \<in> set ks. f k = Some (p, n)"
proof -
  have "(p, n) \<in> set (List.map_filter f ks)"
    using map_of_SomeD [OF assms [unfolded map_of_collect]] by simp
  then obtain k where "k \<in> set ks" "f k \<noteq> None" "the (f k) = (p, n)"
    by (auto simp: List.map_filter_def)
  then show ?thesis by (intro bexI [of _ k]) auto
qed

lemma final_dots_total:
  "k \<in> set ks \<Longrightarrow> f k = Some (p, n) \<Longrightarrow> map_of (hm_collect (List.map_filter f ks)) p \<noteq> None"
  by (auto simp: map_of_collect map_of_eq_None_iff image_iff List.map_filter_def
      intro!: exI [of _ n] bexI [of _ k])

lemma finite_final_dot_keys:
  assumes "s3_documented fuel s3 objs"
  shows "finite (final_dot_keys objs c s)"
proof -
  obtain ks where "set ks = final_dot_keys objs c s"
    using list_object_keys_ok [OF assms, of "bucket c" "final_dots_key_prefix c" s]
    by (auto simp: final_dot_keys_def)
  then show ?thesis by (metis List.finite_set)
qed

lemma departed_twice_keys:
  "final_dots_key_prefix \<lparr>bucket = ''b'', key_prefix = ''gc''\<rparr> = ''gc/final_dots/''"
  "list_object_keys (Suc 0) mem_s3 ''b'' ''gc/final_dots/''
     [((''b'', ''gc/final_dots/n_9.json''), []), ((''b'', ''gc/final_dots/n_10.json''), [])]
   = (Inr [''gc/final_dots/n_10.json'', ''gc/final_dots/n_9.json''],
      [((''b'', ''gc/final_dots/n_9.json''), []), ((''b'', ''gc/final_dots/n_10.json''), [])])"
  by (simp_all add: final_dots_key_prefix_def storage_key_def trim_end_matches_def list_object_keys_def
      mem_s3_def starts_with_def less_eq_char_def less_char_def List.map_filter_def)

lemma show_nat_9_10: "show_nat 9 = ''9''" "show_nat 10 = ''10''"
  by code_simp+

lemma newest_final_dot_lost:
  "read_final_dots (s3_gc_storage 1 js mem_s3 \<lparr>bucket = ''b'', key_prefix = ''gc''\<rparr>)
     [((''b'', ''gc/final_dots/n_9.json''), []), ((''b'', ''gc/final_dots/n_10.json''), [])]
   = (Inr [(''n'', 9)],
      [((''b'', ''gc/final_dots/n_9.json''), []), ((''b'', ''gc/final_dots/n_10.json''), [])])"
  using parse_final_dot_key_eq [of "\<lparr>bucket = ''b'', key_prefix = ''gc''\<rparr>" "''n''" 9]
    parse_final_dot_key_eq [of "\<lparr>bucket = ''b'', key_prefix = ''gc''\<rparr>" "''n''" 10]
  by (simp add: s3_gc_storage_defs and_then_def departed_twice_keys show_nat_9_10 List.map_filter_def
      hm_collect_def)

subsection \<open>A JSON codec\<close>

text \<open>A codec that keeps the contract, so the hypothesis \<open>json_documented\<close> can hold.\<close>

definition text_to_nats :: "string \<Rightarrow> nat list" where
  "text_to_nats s = map of_char s"

definition nats_to_text :: "nat list \<Rightarrow> string" where
  "nats_to_text ns = map char_of ns"

lemma nats_to_text_inverse [simp]: "nats_to_text (text_to_nats s) = s"
  by (simp add: nats_to_text_def text_to_nats_def comp_def)

definition mem_json :: json_codec where
  "mem_json =
     \<lparr>metadata_to_json = (\<lambda>m. Some (replicate (to_nat (unat (em_epoch m),
          map (\<lambda>(k, v). (text_to_nats k, unat v)) (em_v_stable m), map text_to_nats (em_obsolete_dots m))) 0)),
      metadata_from_json = (\<lambda>b. case from_nat (length b) of (e, vs, obs) \<Rightarrow>
        Some \<lparr>em_epoch = word_of_nat e,
              em_v_stable = map (\<lambda>(k, v). (nats_to_text k, word_of_nat v)) vs,
              em_obsolete_dots = map nats_to_text obs\<rparr>),
      state_to_json = (\<lambda>t. Some (replicate (to_nat (unat (es_epoch t),
          map (\<lambda>(k, v). (text_to_nats k, unat v)) (es_initiator_clock t), map unat (es_state_payload t))) 0)),
      state_from_json = (\<lambda>b. case from_nat (length b) of (e, vs, data) \<Rightarrow>
        Some \<lparr>es_epoch = word_of_nat e,
              es_initiator_clock = map (\<lambda>(k, v). (nats_to_text k, word_of_nat v)) vs,
              es_state_payload = map word_of_nat data\<rparr>),
      intent_to_json = (\<lambda>i. Some (replicate (to_nat (unat (gi_epoch i), text_to_nats (gi_initiator i))) 0)),
      intent_from_json = (\<lambda>b. case from_nat (length b) of (e, i) \<Rightarrow>
        Some \<lparr>gi_epoch = word_of_nat e, gi_initiator = nats_to_text i\<rparr>)\<rparr>"

lemma mem_json_documented: "json_documented mem_json"
proof -
  have pairs: "map (\<lambda>(k, v). (nats_to_text k, word_of_nat v)) (map (\<lambda>(k, v). (text_to_nats k, unat v)) m) = m"
    for m :: "(string \<times> u64) list"
    by (induction m) auto
  have texts: "map nats_to_text (map text_to_nats ss) = ss" for ss
    by (simp add: comp_def)
  have data: "map word_of_nat (map unat ws) = ws" for ws :: bytes
    by (simp add: comp_def)
  show ?thesis
    unfolding json_documented_def mem_json_def
    by (simp add: metadata_equiv_def state_equiv_def pairs texts data del: map_map)
qed

lemma mem_gc_ok: "s3_gc_ok 1 mem_json mem_s3 map_of c []"
  using mem_s3_documented mem_json_documented by (simp add: s3_gc_ok_def)

subsection \<open>Properties\<close>

text \<open>C36.  The garbage-collection intent is a lock per epoch on any service that keeps its documented
  contract: after a successful claim every further claim of the epoch, by whichever node, is refused
  and readers see the claimant; claims of other epochs are independent; a release makes the epoch
  claimable again and restores the durable state as it was before the claim.\<close>
theorem gc_intent_lock:
  assumes "s3_gc_ok fuel js s3 objs c s"
    and "claim_gc_intent (s3_gc_storage fuel js s3 c) n i s = (Inr True, s')"
  shows "claim_gc_intent (s3_gc_storage fuel js s3 c) n j s' = (Inr False, s') \<and>
         read_gc_intent (s3_gc_storage fuel js s3 c) n s' = (Inr (Some \<lparr>gi_epoch = n, gi_initiator = i\<rparr>), s') \<and>
         (m \<noteq> n \<longrightarrow> fst (claim_gc_intent (s3_gc_storage fuel js s3 c) m j s')
                 = fst (claim_gc_intent (s3_gc_storage fuel js s3 c) m j s)) \<and>
         (\<exists>s''. release_gc_intent (s3_gc_storage fuel js s3 c) n s' = (Inr (), s'') \<and>
            s3_view js objs c s'' = s3_view js objs c s \<and>
            fst (claim_gc_intent (s3_gc_storage fuel js s3 c) n j s'') = Inr True)"
proof -
  have free: "gv_intent (s3_view js objs c s) n = None"
    using s3gc.claim_taken [OF assms(1), of n i] assms(2)
    by (cases "gv_intent (s3_view js objs c s) n") auto
  obtain ok': "s3_gc_ok fuel js s3 objs c s'" and view': "s3_view js objs c s' = (s3_view js objs c s)\<lparr>gv_intent :=
      (gv_intent (s3_view js objs c s))(n \<mapsto> \<lparr>gi_epoch = n, gi_initiator = i\<rparr>)\<rparr>"
    using s3gc.claim_free [OF assms(1) free, of i] assms(2) by auto
  obtain s'' where s'': "release_gc_intent (s3_gc_storage fuel js s3 c) n s' = (Inr (), s'')"
    "s3_view js objs c s'' = s3_view js objs c s" "s3_gc_ok fuel js s3 objs c s''"
    using s3gc.claim_release_reclaim [OF assms(1) free, of i] assms(2) by auto
  have "fst (claim_gc_intent (s3_gc_storage fuel js s3 c) m j t) = Inr (gv_intent (s3_view js objs c t) m = None)"
    if "s3_gc_ok fuel js s3 objs c t" for m t
    using s3gc.claim_free [OF that, of m j] s3gc.claim_taken [OF that, of m j]
    by (cases "gv_intent (s3_view js objs c t) m") auto
  then show ?thesis
    using s3gc.claim_once [OF assms, of j] s3gc.read_intent [OF ok', of n] s'' view' free assms(1) ok' by auto
qed

theorem gc_intent_lock_witness:
  "fst (claim_gc_intent (s3_gc_storage 1 mem_json mem_s3 \<lparr>bucket = ''b'', key_prefix = ''gc''\<rparr>) 1 ''n2''
     (snd (claim_gc_intent (s3_gc_storage 1 mem_json mem_s3 \<lparr>bucket = ''b'', key_prefix = ''gc''\<rparr>) 1 ''n1'' [])))
   = Inr False"
proof -
  let ?c = "\<lparr>bucket = ''b'', key_prefix = ''gc''\<rparr>"
  obtain s' where "claim_gc_intent (s3_gc_storage 1 mem_json mem_s3 ?c) 1 ''n1'' [] = (Inr True, s')"
    using s3_gc_claim(1) [OF mem_gc_ok, of ?c 1 "''n1''"] by (auto simp: s3_view_def)
  with gc_intent_lock [OF mem_gc_ok this] show ?thesis by simp
qed

text \<open>Epoch metadata and epoch state are two independent registers that start at epoch 0: a read returns the
  last write (maps up to iteration order), a write to one leaves the other, every intent and the
  final dots unchanged.  The two writes of a commit are therefore visible separately: between them a
  reader sees the new state with the old metadata.\<close>
theorem epoch_registers:
  assumes "s3_gc_ok fuel js s3 objs c s"
  shows "\<exists>s1 s2 m' t'.
    write_epoch_state (s3_gc_storage fuel js s3 c) t s = (Inr (), s1) \<and>
    read_epoch_state (s3_gc_storage fuel js s3 c) s1 = (Inr t', s1) \<and> state_equiv t t' \<and>
    read_epoch_metadata (s3_gc_storage fuel js s3 c) s1
      = (fst (read_epoch_metadata (s3_gc_storage fuel js s3 c) s), s1) \<and>
    write_epoch_metadata (s3_gc_storage fuel js s3 c) m s1 = (Inr (), s2) \<and>
    read_epoch_metadata (s3_gc_storage fuel js s3 c) s2 = (Inr m', s2) \<and> metadata_equiv m m' \<and>
    read_epoch_state (s3_gc_storage fuel js s3 c) s2 = (Inr t', s2) \<and>
    read_gc_intent (s3_gc_storage fuel js s3 c) n s2 = (fst (read_gc_intent (s3_gc_storage fuel js s3 c) n s), s2) \<and>
    read_final_dots (s3_gc_storage fuel js s3 c) s2 = (fst (read_final_dots (s3_gc_storage fuel js s3 c) s), s2)"
proof -
  obtain s1 t' where s1: "write_epoch_state (s3_gc_storage fuel js s3 c) t s = (Inr (), s1)"
    "s3_gc_ok fuel js s3 objs c s1" "s3_view js objs c s1 = (s3_view js objs c s)\<lparr>gv_state := t'\<rparr>" "state_equiv t t'"
    using s3gc.write_state [OF assms] by blast
  obtain s2 m' where s2: "write_epoch_metadata (s3_gc_storage fuel js s3 c) m s1 = (Inr (), s2)"
    "s3_gc_ok fuel js s3 objs c s2" "s3_view js objs c s2 = (s3_view js objs c s1)\<lparr>gv_metadata := m'\<rparr>"
    "metadata_equiv m m'"
    using s3gc.write_metadata [OF s1(2)] by blast
  show ?thesis
    by (intro exI [of _ s1] exI [of _ s2] exI [of _ m'] exI [of _ t'])
      (simp add: s1 s2 assms s3gc.read_metadata s3gc.read_state s3gc.read_intent s3gc.read_final
        s3gc.read_metadata [OF assms] s3gc.read_metadata [OF s1(2)] s3gc.read_metadata [OF s2(2)]
        s3gc.read_state [OF s1(2)] s3gc.read_state [OF s2(2)] s3gc.read_intent [OF assms]
        s3gc.read_intent [OF s2(2)] s3gc.read_final [OF assms] s3gc.read_final [OF s2(2)])
qed

theorem epoch_registers_witness:
  "\<exists>s1 s2 m' t'.
    write_epoch_state (s3_gc_storage 1 mem_json mem_s3 \<lparr>bucket = ''b'', key_prefix = ''gc''\<rparr>)
      \<lparr>es_epoch = 1, es_initiator_clock = [(''n'', 2)], es_state_payload = [7]\<rparr> [] = (Inr (), s1) \<and>
    write_epoch_metadata (s3_gc_storage 1 mem_json mem_s3 \<lparr>bucket = ''b'', key_prefix = ''gc''\<rparr>)
      \<lparr>em_epoch = 1, em_v_stable = [(''n'', 1)], em_obsolete_dots = []\<rparr> s1 = (Inr (), s2) \<and>
    read_epoch_metadata (s3_gc_storage 1 mem_json mem_s3 \<lparr>bucket = ''b'', key_prefix = ''gc''\<rparr>) s2 = (Inr m', s2) \<and>
    em_epoch m' = 1 \<and>
    read_epoch_state (s3_gc_storage 1 mem_json mem_s3 \<lparr>bucket = ''b'', key_prefix = ''gc''\<rparr>) s2 = (Inr t', s2) \<and>
    es_state_payload t' = [7]"
  using epoch_registers [OF mem_gc_ok, of "\<lparr>bucket = ''b'', key_prefix = ''gc''\<rparr>"
      "\<lparr>es_epoch = 1, es_initiator_clock = [(''n'', 2)], es_state_payload = [7]\<rparr>"
      "\<lparr>em_epoch = 1, em_v_stable = [(''n'', 1)], em_obsolete_dots = []\<rparr>" 0]
  unfolding state_equiv_def metadata_equiv_def by force



end
