(* ===== verification/Dotted_Version_Vector.thy ===== *)
theory Dotted_Version_Vector
  imports Version_Vector
begin

text \<open>
  The dotted version vector of \<^verbatim>\<open>src/logical_clocks/dot_version_vector.rs\<close>: a \<open>Dot\<close> for the latest
  local event, kept outside the causal context, and the context itself.  One definition per method
  of \<^verbatim>\<open>impl DotVersionVector\<close> and of \<^verbatim>\<open>impl PartialOrd\<close>, loops over a map as folds over its
  entries; \<open>dvv_\<close> prefixes the methods whose names are taken.  Counters are 64-bit words and
  \<open>dvv_event\<close> wraps at \<open>2^64 - 1\<close>, as the release build does.

  \<open>dvv_inv\<close> is the inductive form of the invariant documented on the struct.  The locale
  \<open>causal_clock\<close> is what the replication engine needs of a clock; its lemmas are reached through
  the interpretation \<open>clock\<close>.
\<close>

named_theorems dvv_simps \<open>knowledge of a clock after an operation\<close>
named_theorems dvv_intros \<open>the operations keep the invariant\<close>

subsection \<open>Data\<close>

record Dot =
  node_id :: NodeId
  counter :: Counter

definition Dot_new :: "NodeId \<Rightarrow> Counter \<Rightarrow> Dot" where
  "Dot_new n c = \<lparr>node_id = n, counter = c\<rparr>"

record DotVersionVector =
  dvv_dot :: Dot
  dvv_context :: CausalContext

datatype Ordering = Less | Equal | Greater

subsection \<open>Operations\<close>

definition frontier_dvv :: "NodeId \<Rightarrow> CausalContext \<Rightarrow> DotVersionVector" where
  "frontier_dvv n frontier =
     (let c = hm_or frontier n 0 in \<lparr>dvv_dot = Dot_new n c, dvv_context = frontier\<rparr>)"

definition dvv_new :: "NodeId \<Rightarrow> DotVersionVector" where
  "dvv_new n = \<lparr>dvv_dot = Dot_new n 0, dvv_context = []\<rparr>"

definition dvv_remove :: "NodeId \<Rightarrow> DotVersionVector \<Rightarrow> DotVersionVector" where
  "dvv_remove n s = s\<lparr>dvv_context := hm_remove n (dvv_context s)\<rparr>"

definition effective_counter :: "'z DotVersionVector_scheme \<Rightarrow> NodeId \<Rightarrow> Counter" where
  "effective_counter s n =
     (let c = hm_or (dvv_context s) n 0
      in if n = node_id (dvv_dot s) then max c (counter (dvv_dot s)) else c)"

definition effective_map :: "'z DotVersionVector_scheme \<Rightarrow> CausalContext" where
  "effective_map s =
     (let m = dvv_context s; n = node_id (dvv_dot s)
      in if counter (dvv_dot s) > 0
         then hm_insert n (max (hm_or m n 0) (counter (dvv_dot s))) m else m)"

definition descends :: "'z DotVersionVector_scheme \<Rightarrow> 'y DotVersionVector_scheme \<Rightarrow> bool" where
  "descends s other =
     (let self_eff = effective_map s; other_eff = effective_map other;
          all_nodes = hs_collect (hm_keys self_eff @ hm_keys other_eff)
      in list_all (\<lambda>n. \<not> hm_or self_eff n 0 < hm_or other_eff n 0) all_nodes)"

definition dominates_dot :: "'z DotVersionVector_scheme \<Rightarrow> Dot \<Rightarrow> bool" where
  "dominates_dot s d \<longleftrightarrow> effective_counter s (node_id d) \<ge> counter d"

fun word_cmp :: "Counter \<Rightarrow> Counter \<Rightarrow> Ordering" where
  "word_cmp a b = (if a < b then Less else if a = b then Equal else Greater)"

definition partial_cmp ::
  "'z DotVersionVector_scheme \<Rightarrow> 'y DotVersionVector_scheme \<Rightarrow> Ordering option" where
  "partial_cmp s other =
     (let self_eff = effective_map s; other_eff = effective_map other;
          all_nodes = hs_collect (hm_keys self_eff @ hm_keys other_eff);
          flags = fold (\<lambda>n (has_less, has_greater).
             (case word_cmp (hm_or self_eff n 0) (hm_or other_eff n 0) of
                Less \<Rightarrow> (True, has_greater)
              | Greater \<Rightarrow> (has_less, True)
              | Equal \<Rightarrow> (has_less, has_greater))) all_nodes (False, False)
      in (case flags of
            (False, False) \<Rightarrow> Some Equal
          | (True, False) \<Rightarrow> Some Less
          | (False, True) \<Rightarrow> Some Greater
          | (True, True) \<Rightarrow> None))"

definition is_concurrent_with ::
  "'z DotVersionVector_scheme \<Rightarrow> 'y DotVersionVector_scheme \<Rightarrow> bool" where
  "is_concurrent_with s other \<longleftrightarrow> partial_cmp s other = None"

definition dvv_event :: "DotVersionVector \<Rightarrow> DotVersionVector" where
  "dvv_event s =
     (let d = dvv_dot s; n = node_id d;
          s' = (if counter d > 0
                then s\<lparr>dvv_context :=
                   hm_insert n (max (hm_or (dvv_context s) n 0) (counter d)) (dvv_context s)\<rparr>
                else s)
      in s'\<lparr>dvv_dot := d\<lparr>counter := counter d + 1\<rparr>\<rparr>)"

text \<open>The body of the loop of \<^verbatim>\<open>merge\<close>, for one entry of the remote effective map.\<close>

definition merge_entry :: "NodeId \<times> Counter \<Rightarrow> DotVersionVector \<Rightarrow> DotVersionVector" where
  "merge_entry = (\<lambda>(nid, remote_counter) s.
     let d = dvv_dot s; cx = dvv_context s in
     if nid = node_id d then
       if remote_counter < counter d
       then s\<lparr>dvv_context := hm_insert nid (max (hm_or cx nid 0) remote_counter) cx\<rparr>
       else if remote_counter > counter d
       then s\<lparr>dvv_context := hm_insert nid (max (hm_or cx nid 0) (remote_counter - 1)) cx,
              dvv_dot := d\<lparr>counter := remote_counter\<rparr>\<rparr>
       else s
     else s\<lparr>dvv_context := hm_insert nid (max (hm_or cx nid 0) remote_counter) cx\<rparr>)"

definition dvv_merge :: "DotVersionVector \<Rightarrow> DotVersionVector \<Rightarrow> DotVersionVector" where
  "dvv_merge s other = fold merge_entry (effective_map other) s"

definition dvv_delta_since :: "DotVersionVector \<Rightarrow> CausalContext \<Rightarrow> DotVersionVector" where
  "dvv_delta_since s remote_knowledge =
     (let eff = effective_map s; own = node_id (dvv_dot s);
          delta_ctx = fold (\<lambda>(nid, c) ctx.
             let known = hm_or remote_knowledge nid 0
             in if c > known \<and> nid \<noteq> own then hm_insert nid c ctx else ctx) eff [];
          remote_knows_us = hm_or remote_knowledge own 0;
          dot_counter = (if counter (dvv_dot s) > remote_knows_us then counter (dvv_dot s) else 0)
      in \<lparr>dvv_dot = Dot_new own dot_counter, dvv_context = delta_ctx\<rparr>)"

definition full_delta :: "DotVersionVector \<Rightarrow> DotVersionVector" where
  "full_delta s = s"

subsection \<open>The invariant\<close>

text \<open>The struct's comment: the context's own entry is strictly below the dot, or there is no event
  yet.  \<open>dvv_inv\<close> adds that a clock without events has seen none of its own, without which
  \<^verbatim>\<open>event\<close> would not keep the documented form.\<close>

definition dot_outside_context :: "DotVersionVector \<Rightarrow> bool" where
  "dot_outside_context s \<longleftrightarrow>
     hm_or (dvv_context s) (node_id (dvv_dot s)) 0 < counter (dvv_dot s) \<or> counter (dvv_dot s) = 0"

definition dvv_inv :: "DotVersionVector \<Rightarrow> bool" where
  "dvv_inv s \<longleftrightarrow> hm_ok (dvv_context s) \<and>
     (let c = hm_or (dvv_context s) (node_id (dvv_dot s)) 0
      in c < counter (dvv_dot s) \<or> counter (dvv_dot s) = 0 \<and> c = 0)"

lemma dvv_new_simps [simp]:
  "node_id (dvv_dot (dvv_new n)) = n"
  "counter (dvv_dot (dvv_new n)) = 0"
  "dvv_context (dvv_new n) = []"
  by (simp_all add: dvv_new_def Dot_new_def)

lemma Dot_new_simps [simp]: "node_id (Dot_new n c) = n" "counter (Dot_new n c) = c"
  by (simp_all add: Dot_new_def)

lemma dvv_delta_since_dot [simp]:
  "node_id (dvv_dot (dvv_delta_since s r)) = node_id (dvv_dot s)"
  "counter (dvv_dot (dvv_delta_since s r)) =
     (if counter (dvv_dot s) > hm_or r (node_id (dvv_dot s)) 0 then counter (dvv_dot s) else 0)"
  by (simp_all add: dvv_delta_since_def Let_def)

lemma dvv_inv_documented: "dvv_inv s \<Longrightarrow> dot_outside_context s"
  by (auto simp: dvv_inv_def dot_outside_context_def Let_def)

lemma dvv_inv_ok [simp]: "dvv_inv s \<Longrightarrow> hm_ok (dvv_context s)"
  by (simp add: dvv_inv_def)

subsection \<open>Effective knowledge\<close>

lemma hm_or_effective_map [simp, dvv_simps]: "hm_or (effective_map s) n 0 = effective_counter s n"
  by (auto simp: effective_map_def effective_counter_def Let_def word_gt_0)

lemma hm_ok_effective_map [simp, hm_intros]:
  "hm_ok (dvv_context s) \<Longrightarrow> hm_ok (effective_map s)"
  by (simp add: effective_map_def Let_def)

lemma effective_counter_notin:
  "n \<notin> fst ` set (effective_map s) \<Longrightarrow> effective_counter s n = 0"
  by (metis hm_or_effective_map hm_or_notin)

lemma effective_counter_frontier [simp, dvv_simps]:
  "effective_counter (frontier_dvv n f) k = hm_or f k 0"
  by (auto simp: effective_counter_def frontier_dvv_def Dot_new_def Let_def)

lemma effective_counter_new [simp, dvv_simps]: "effective_counter (dvv_new n) k = 0"
  by (simp add: effective_counter_def dvv_new_def Dot_new_def)

lemma effective_counter_remove [dvv_simps]:
  "n \<noteq> node_id (dvv_dot s) \<Longrightarrow>
   effective_counter (dvv_remove n s) k = (if k = n then 0 else effective_counter s k)"
  by (simp add: effective_counter_def dvv_remove_def Let_def)

lemma effective_counter_own:
  "dvv_inv s \<Longrightarrow> effective_counter s (node_id (dvv_dot s)) = counter (dvv_dot s)"
  by (auto simp: effective_counter_def dvv_inv_def Let_def max_def)

lemma dominates_dot_frontier:
  "dominates_dot (frontier_dvv n f) d \<longleftrightarrow> counter d \<le> hm_or f (node_id d) 0"
  by (simp add: dominates_dot_def)

subsection \<open>Order\<close>

lemma descends_iff: "descends s t \<longleftrightarrow> (\<forall>n. effective_counter t n \<le> effective_counter s n)"
proof -
  have "effective_counter t n \<le> effective_counter s n"
    if "n \<notin> set (hm_keys (effective_map t))" for n
    using that by (simp add: effective_counter_notin)
  then show ?thesis
    unfolding descends_def Let_def by (auto simp: list_all_iff not_less)
qed

lemma cmp_flags:
  "fold (\<lambda>n (l, g). (case word_cmp (f n) (h n) of
       Less \<Rightarrow> (True, g) | Greater \<Rightarrow> (l, True) | Equal \<Rightarrow> (l, g))) ns (l, g) =
   (l \<or> (\<exists>n \<in> set ns. f n < h n), g \<or> (\<exists>n \<in> set ns. h n < f n))"
  by (induction ns arbitrary: l g) auto

lemma ex_effective_keys:
  "(\<exists>x \<in> set (effective_map s) \<union> set (effective_map t).
      effective_counter s (fst x) < effective_counter t (fst x)) \<longleftrightarrow> \<not> descends s t"
proof -
  have "\<exists>x \<in> set (effective_map t). fst x = n" if "effective_counter s n < effective_counter t n" for n
    using that effective_counter_notin [of n t] by force
  then show ?thesis
    by (auto simp: descends_iff not_le)
qed

lemma partial_cmp_eq:
  "partial_cmp s t =
     (if descends t s then if descends s t then Some Equal else Some Less
      else if descends s t then Some Greater else None)"
  using ex_effective_keys [of s t] ex_effective_keys [of t s]
  unfolding partial_cmp_def Let_def cmp_flags
  by (auto simp: Un_commute [of "set (effective_map t)"] split: bool.splits)

lemma not_descends_iff: "\<not> descends s t \<longleftrightarrow> (\<exists>n. effective_counter s n < effective_counter t n)"
  by (simp add: descends_iff not_le)

lemma effective_counter_eq_iff:
  "effective_counter s = effective_counter t \<longleftrightarrow> descends s t \<and> descends t s"
  by (auto simp: descends_iff intro!: ext order_antisym)

lemmas dvv_order_simps = partial_cmp_eq descends_iff is_concurrent_with_def

text \<open>\<^verbatim>\<open>impl PartialOrd\<close>: the operators the trait derives from \<^verbatim>\<open>partial_cmp\<close> form a preorder.\<close>

instantiation DotVersionVector_ext :: (type) preorder
begin

definition less_eq_DotVersionVector_ext ::
  "'a DotVersionVector_scheme \<Rightarrow> 'a DotVersionVector_scheme \<Rightarrow> bool" where
  "less_eq_DotVersionVector_ext s t \<longleftrightarrow> partial_cmp s t \<in> {Some Less, Some Equal}"

definition less_DotVersionVector_ext ::
  "'a DotVersionVector_scheme \<Rightarrow> 'a DotVersionVector_scheme \<Rightarrow> bool" where
  "less_DotVersionVector_ext s t \<longleftrightarrow> partial_cmp s t = Some Less"

instance
proof
  fix x y z :: "'a DotVersionVector_scheme"
  show "x < y \<longleftrightarrow> x \<le> y \<and> \<not> y \<le> x"
    by (auto simp: less_DotVersionVector_ext_def less_eq_DotVersionVector_ext_def partial_cmp_eq)
  show "x \<le> x"
    by (simp add: less_eq_DotVersionVector_ext_def dvv_order_simps)
  show "x \<le> y \<Longrightarrow> y \<le> z \<Longrightarrow> x \<le> z"
    unfolding less_eq_DotVersionVector_ext_def dvv_order_simps
    by (auto split: if_splits intro: order_trans)
qed

end

text \<open>The comparison of two clocks is the pointwise order of their effective counters:
  equal, strictly below, strictly above, or concurrent exactly when each knows an event the other
  does not.\<close>

theorem partial_cmp_pointwise:
  "(partial_cmp s t = Some Equal \<longleftrightarrow> effective_counter s = effective_counter t) \<and>
   (partial_cmp s t = Some Less \<longleftrightarrow>
     (\<forall>n. effective_counter s n \<le> effective_counter t n) \<and>
     (\<exists>n. effective_counter s n < effective_counter t n)) \<and>
   (partial_cmp s t = Some Greater \<longleftrightarrow>
     (\<forall>n. effective_counter t n \<le> effective_counter s n) \<and>
     (\<exists>n. effective_counter t n < effective_counter s n)) \<and>
   (is_concurrent_with s t \<longleftrightarrow>
     (\<exists>n. effective_counter s n < effective_counter t n) \<and>
     (\<exists>n. effective_counter t n < effective_counter s n))"
  unfolding is_concurrent_with_def partial_cmp_eq not_descends_iff [symmetric]
    descends_iff [symmetric] effective_counter_eq_iff by auto

subsection \<open>Events and merges\<close>

lemma dvv_event_node [simp]: "node_id (dvv_dot (dvv_event s)) = node_id (dvv_dot s)"
  by (simp add: dvv_event_def Let_def)

lemma dvv_event_counter [simp]: "counter (dvv_dot (dvv_event s)) = counter (dvv_dot s) + 1"
  by (simp add: dvv_event_def Let_def)

lemma dvv_inv_new [simp, dvv_intros]: "dvv_inv (dvv_new n)"
  by (simp add: dvv_inv_def dvv_new_def Dot_new_def)

lemma dvv_inv_remove [simp, dvv_intros]: "dvv_inv s \<Longrightarrow> dvv_inv (dvv_remove n s)"
  by (auto simp: dvv_inv_def dvv_remove_def Let_def word_gt_0)

lemma dvv_inv_event [dvv_intros]:
  "dvv_inv s \<Longrightarrow> counter (dvv_dot s) \<noteq> - 1 \<Longrightarrow> dvv_inv (dvv_event s)"
  by (auto simp: dvv_inv_def dvv_event_def Let_def word_gt_0 max_def)

lemma effective_counter_event [dvv_simps]:
  assumes "dvv_inv s" and "counter (dvv_dot s) \<noteq> - 1"
  shows "effective_counter (dvv_event s) n =
    (if n = node_id (dvv_dot s) then counter (dvv_dot s) + 1 else effective_counter s n)"
proof (cases "n = node_id (dvv_dot s)")
  case True
  then show ?thesis
    using effective_counter_own [OF dvv_inv_event [OF assms]] by simp
next
  case False
  then show ?thesis
    by (simp add: effective_counter_def dvv_event_def Let_def)
qed

lemma merge_entry_node [simp]: "node_id (dvv_dot (merge_entry e s)) = node_id (dvv_dot s)"
  by (cases e) (simp add: merge_entry_def Let_def)

lemma dvv_inv_merge_entry [dvv_intros]:
  assumes "dvv_inv s"
  shows "dvv_inv (merge_entry e s)"
proof (cases e)
  case (Pair n c)
  show ?thesis
    using assms word_pred_bounds [of "counter (dvv_dot s)" c]
    unfolding Pair merge_entry_def dvv_inv_def Let_def by auto
qed

lemma effective_counter_merge_entry:
  assumes "dvv_inv s"
  shows "effective_counter (merge_entry (n, c) s) k =
    (if k = n then max (effective_counter s k) c else effective_counter s k)"
  using assms word_pred_bounds [of "counter (dvv_dot s)" c]
  unfolding merge_entry_def dvv_inv_def effective_counter_def Let_def
  by (auto simp: max_def)

lemma dvv_merge_entries:
  assumes "dvv_inv s" and "distinct (map fst es)"
  shows "dvv_inv (fold merge_entry es s) \<and>
    node_id (dvv_dot (fold merge_entry es s)) = node_id (dvv_dot s) \<and>
    effective_counter (fold merge_entry es s) k = max (effective_counter s k) (hm_or es k 0)"
  using assms
proof (induction es arbitrary: s)
  case (Cons e es)
  obtain n c where e: "e = (n, c)" by (cases e)
  have "hm_or es n 0 = 0" using Cons.prems e by (simp add: hm_or_notin)
  then show ?case
    using Cons.IH [OF dvv_inv_merge_entry [OF Cons.prems(1)], of e] Cons.prems e
    by (auto simp: effective_counter_merge_entry hm_or_def)
qed simp

lemma dvv_inv_merge [dvv_intros]:
  "dvv_inv s \<Longrightarrow> hm_ok (dvv_context t) \<Longrightarrow> dvv_inv (dvv_merge s t)"
  using dvv_merge_entries [of s "effective_map t"] by (simp add: dvv_merge_def)

lemma dvv_merge_node [simp]: "node_id (dvv_dot (dvv_merge s t)) = node_id (dvv_dot s)"
proof -
  have "node_id (dvv_dot (fold merge_entry es s)) = node_id (dvv_dot s)" for es
    by (induction es arbitrary: s) simp_all
  then show ?thesis by (simp add: dvv_merge_def)
qed

lemma effective_counter_merge [dvv_simps]:
  "dvv_inv s \<Longrightarrow> hm_ok (dvv_context t) \<Longrightarrow>
   effective_counter (dvv_merge s t) k = max (effective_counter s k) (effective_counter t k)"
  using dvv_merge_entries [of s "effective_map t" k] by (simp add: dvv_merge_def)


inductive clock_built :: "DotVersionVector \<Rightarrow> bool" where
  built_new: "clock_built (dvv_new n)"
| built_event: "clock_built s \<Longrightarrow> counter (dvv_dot s) \<noteq> - 1 \<Longrightarrow> clock_built (dvv_event s)"
| built_merge: "clock_built s \<Longrightarrow> hm_ok (dvv_context t) \<Longrightarrow> clock_built (dvv_merge s t)"
| built_remove: "clock_built s \<Longrightarrow> clock_built (dvv_remove n s)"

lemma clock_built_inv: "clock_built s \<Longrightarrow> dvv_inv s"
  by (induction rule: clock_built.induct) (auto intro: dvv_intros)

text \<open>C25.  The invariant documented on the struct (the dot is strictly above the context's own
  entry, or there is no event yet) holds in every clock built by \<^verbatim>\<open>new\<close>, \<^verbatim>\<open>event\<close>,
  \<^verbatim>\<open>merge\<close> and \<^verbatim>\<open>remove\<close>, as long as the 64-bit counter has not reached its maximum.\<close>

theorem clock_invariant: "clock_built s \<Longrightarrow> dot_outside_context s"
  by (simp add: clock_built_inv dvv_inv_documented)

theorem clock_invariant_witness:
  "dot_outside_context (dvv_event (dvv_merge (dvv_event (dvv_new ''A''))
     \<lparr>dvv_dot = Dot_new ''B'' 0, dvv_context = [(''A'', 10)]\<rparr>))"
proof (rule clock_invariant)
  let ?m = "dvv_merge (dvv_event (dvv_new ''A''))
     \<lparr>dvv_dot = Dot_new ''B'' 0, dvv_context = [(''A'', 10)]\<rparr>"
  have "clock_built ?m"
    by (intro clock_built.intros) simp_all
  moreover have "counter (dvv_dot ?m) \<noteq> - 1"
    by code_simp
  ultimately show "clock_built (dvv_event ?m)" by (rule built_event)
qed

text \<open>At the largest 64-bit counter a further event wraps the dot to 0, which the code reads as
  "no event yet": the clock then contradicts its own invariant's reading, since the context says
  the node has had \<open>2^64 - 1\<close> events.\<close>

theorem event_wraps:
  assumes "counter (dvv_dot s) = - 1"
  shows "counter (dvv_dot (dvv_event s)) = 0 \<and>
    hm_or (dvv_context (dvv_event s)) (node_id (dvv_dot s)) 0 = - 1"
proof -
  have "max c (- 1) = - 1" for c :: Counter by (simp add: max_def word_order.extremum_unique)
  then show ?thesis using assms by (simp add: dvv_event_def Let_def word_gt_0)
qed

theorem event_wraps_witness:
  "counter (dvv_dot (dvv_event \<lparr>dvv_dot = Dot_new ''A'' (- 1), dvv_context = []\<rparr>)) = 0"
  using event_wraps [of "\<lparr>dvv_dot = Dot_new ''A'' (- 1), dvv_context = []\<rparr>"]
  by (simp add: Dot_new_def)

subsection \<open>The contract of a causal clock\<close>

locale causal_clock =
  fixes knows :: "'c \<Rightarrow> 'n \<Rightarrow> 'k::linorder"
    and own :: "'c \<Rightarrow> 'n"
    and inv :: "'c \<Rightarrow> bool"
    and full :: "'c \<Rightarrow> bool"
    and event :: "'c \<Rightarrow> 'c"
    and merge :: "'c \<Rightarrow> 'c \<Rightarrow> 'c"
  assumes inv_event: "inv s \<Longrightarrow> \<not> full s \<Longrightarrow> inv (event s)"
    and inv_merge: "inv s \<Longrightarrow> inv t \<Longrightarrow> inv (merge s t)"
    and own_event: "own (event s) = own s"
    and own_merge: "own (merge s t) = own s"
    and knows_merge: "inv s \<Longrightarrow> inv t \<Longrightarrow> knows (merge s t) n = max (knows s n) (knows t n)"
    and knows_event_own: "inv s \<Longrightarrow> \<not> full s \<Longrightarrow> knows s (own s) < knows (event s) (own s)"
    and knows_event_other:
      "inv s \<Longrightarrow> \<not> full s \<Longrightarrow> n \<noteq> own s \<Longrightarrow> knows (event s) n = knows s n"
begin

lemma event_mono: "inv s \<Longrightarrow> \<not> full s \<Longrightarrow> knows s n \<le> knows (event s) n"
  by (cases "n = own s") (auto simp: knows_event_other intro: less_imp_le knows_event_own)

lemma merge_mono: "inv s \<Longrightarrow> inv t \<Longrightarrow> knows s n \<le> knows (merge s t) n"
  by (simp add: knows_merge)

lemma merge_commute: "inv s \<Longrightarrow> inv t \<Longrightarrow> knows (merge s t) = knows (merge t s)"
  by (auto simp: knows_merge max.commute)

lemma merge_assoc:
  "inv s \<Longrightarrow> inv t \<Longrightarrow> inv u \<Longrightarrow> knows (merge (merge s t) u) = knows (merge s (merge t u))"
  by (auto simp: knows_merge inv_merge max.assoc)

lemma merge_idem: "inv s \<Longrightarrow> inv t \<Longrightarrow> knows (merge (merge s t) t) = knows (merge s t)"
  by (auto simp: knows_merge inv_merge)

text \<open>An event of one clock is unknown to every clock that has only merged states from before it.\<close>

lemma event_fresh:
  "inv s \<Longrightarrow> \<not> full s \<Longrightarrow> knows t (own s) \<le> knows s (own s) \<Longrightarrow>
   knows t (own s) < knows (event s) (own s)"
  using knows_event_own by (meson order_le_less_trans)

end

interpretation clock: causal_clock effective_counter "\<lambda>s. node_id (dvv_dot s)" dvv_inv
  "\<lambda>s. counter (dvv_dot s) = - 1" dvv_event dvv_merge
  by unfold_locales
    (auto intro: dvv_intros simp: dvv_simps effective_counter_own)

text \<open>Merging clocks is commutative, associative and idempotent on effective knowledge, so the
  order in which gossip arrives does not matter.\<close>

theorem merge_semilattice:
  assumes "dvv_inv s" and "dvv_inv t" and "dvv_inv u"
  shows "effective_counter (dvv_merge s t) = effective_counter (dvv_merge t s) \<and>
    effective_counter (dvv_merge (dvv_merge s t) u) = effective_counter (dvv_merge s (dvv_merge t u)) \<and>
    effective_counter (dvv_merge (dvv_merge s t) t) = effective_counter (dvv_merge s t)"
  using assms clock.merge_commute clock.merge_assoc clock.merge_idem by blast

theorem merge_semilattice_witness:
  "effective_counter (dvv_merge (dvv_event (dvv_new ''A'')) (dvv_event (dvv_new ''B''))) =
   effective_counter (dvv_merge (dvv_event (dvv_new ''B'')) (dvv_event (dvv_new ''A'')))"
proof -
  have "dvv_inv (dvv_event (dvv_new n))" for n
    by (rule dvv_inv_event) simp_all
  then show ?thesis using merge_semilattice by blast
qed

subsection \<open>Deltas of the clock\<close>

lemma delta_ctx_fold:
  assumes "distinct (map fst es)" and "hm_ok m" and "set (hm_keys m) \<inter> fst ` set es = {}"
  shows "map_of (fold (\<lambda>(nid, c) ctx. let known = hm_or r nid 0
             in if c > known \<and> nid \<noteq> own then hm_insert nid c ctx else ctx) es m) k =
    (case map_of es k of None \<Rightarrow> map_of m k
     | Some c \<Rightarrow> if c > hm_or r k (0::Counter) \<and> k \<noteq> own then Some c else None)"
  using assms
proof (induction es arbitrary: m)
  case (Cons e es)
  obtain n c where e: "e = (n, c)" by (cases e)
  have "map_of m n = None" using Cons.prems(3) e by (auto simp: map_of_eq_None_iff)
  moreover have "map_of es n = None" using Cons.prems(1) e by (auto simp: map_of_eq_None_iff)
  ultimately show ?case
    using Cons e by (auto simp: Let_def dom_update split: option.splits)
qed (auto split: option.splits)

lemma hm_ok_delta [simp, hm_intros]: "hm_ok (dvv_context (dvv_delta_since s r))"
proof -
  have "hm_ok m \<Longrightarrow> hm_ok (fold (\<lambda>(nid, c) ctx. let known = hm_or r nid 0
      in if c > known \<and> nid \<noteq> own then hm_insert nid c ctx else ctx) es m)" for m own es
    by (induction es arbitrary: m) (auto simp: Let_def)
  then show ?thesis by (simp add: dvv_delta_since_def Let_def)
qed

lemma effective_counter_delta:
  assumes "dvv_inv s"
  shows "effective_counter (dvv_delta_since s r) k =
    (if effective_counter s k > hm_or r k 0 then effective_counter s k else 0)"
proof (cases "k = node_id (dvv_dot s)")
  case True
  have "map_of (dvv_context (dvv_delta_since s r)) k = None"
    unfolding dvv_delta_since_def Let_def
    using assms True delta_ctx_fold [of "effective_map s" "[]" r "node_id (dvv_dot s)" k, unfolded Let_def]
    by (auto split: option.splits)
  then have "hm_or (dvv_context (dvv_delta_since s r)) k 0 = 0" by (simp add: hm_or_def)
  then show ?thesis
    using True effective_counter_own [OF assms]
    by (simp add: effective_counter_def [of "dvv_delta_since s r"] Let_def)
next
  case False
  have "map_of (dvv_context (dvv_delta_since s r)) k =
    (case map_of (effective_map s) k of None \<Rightarrow> None
     | Some c \<Rightarrow> if c > hm_or r k 0 then Some c else None)"
    unfolding dvv_delta_since_def Let_def
    using assms False delta_ctx_fold [of "effective_map s" "[]" r "node_id (dvv_dot s)" k, unfolded Let_def]
    by (auto split: option.splits)
  then have "hm_or (dvv_context (dvv_delta_since s r)) k 0 =
    (if hm_or (effective_map s) k 0 > hm_or r k 0 then hm_or (effective_map s) k 0 else 0)"
    by (auto simp: hm_or_def [of _ k 0] split: option.splits)
  then show ?thesis
    using False by (simp add: effective_counter_def [of "dvv_delta_since s r"] Let_def)
qed

text \<open>C15.  A delta computed against a peer's knowledge, once merged by a clock with at least that
  knowledge, gives it exactly what merging the whole clock would: nothing is lost by sending only
  what the peer did not know.\<close>

theorem delta_merge_complete:
  assumes "dvv_inv s" and "dvv_inv t" and "vv_leq r (effective_map t)"
  shows "effective_counter (dvv_merge t (dvv_delta_since s r)) = effective_counter (dvv_merge t s)"
proof
  fix k
  have "hm_or r k 0 \<le> effective_counter t k"
    using assms(3) by (simp add: vv_leq_iff)
  then show "effective_counter (dvv_merge t (dvv_delta_since s r)) k =
      effective_counter (dvv_merge t s) k"
    using assms(1,2) by (auto simp: dvv_simps effective_counter_delta max_def not_less intro: order_antisym)
qed

theorem delta_merge_complete_witness:
  "effective_counter (dvv_merge (dvv_new ''B'')
      (dvv_delta_since (dvv_event (dvv_new ''A'')) (effective_map (dvv_new ''B'')))) ''A'' = 1"
proof -
  have "dvv_inv (dvv_event (dvv_new ''A''))"
    by (rule dvv_inv_event) simp_all
  from delta_merge_complete [OF this dvv_inv_new vv.leq_refl]
  have "effective_counter (dvv_merge (dvv_new ''B'')
      (dvv_delta_since (dvv_event (dvv_new ''A'')) (effective_map (dvv_new ''B'')))) =
    effective_counter (dvv_merge (dvv_new ''B'') (dvv_event (dvv_new ''A'')))" .
  moreover have "effective_counter (dvv_merge (dvv_new ''B'') (dvv_event (dvv_new ''A''))) ''A'' = 1"
    by code_simp
  ultimately show ?thesis by simp
qed

end
