(* ===== verification/OR_Set.thy ===== *)
theory OR_Set
  imports Dotted_Version_Vector
begin

text \<open>
  The observed-remove set of \<^verbatim>\<open>src/crdt/or_set.rs\<close> and the trait \<^verbatim>\<open>DeltaCrdt\<close> of
  \<^verbatim>\<open>src/crdt/mod.rs\<close>.  An \<open>OrSet\<close> maps an element to the dots that justify it and a removed
  add-dot to the dot of the removal.  One definition per method; the wire formats
  (\<^verbatim>\<open>encode_delta\<close> and its kin) are in \<open>Wire\<close>.

  \<open>live\<close> and \<open>dead\<close> are the abstract view: the (element, dot) pairs present and the dots removed.
  The locale \<open>delta_crdt\<close> is the contract of the trait: merging acts on the view as a commutative
  and idempotent action of deltas, garbage collection keeps what a reader sees.  Its lemma
  \<open>obs_merges\<close> says that only the set of delivered deltas matters.
\<close>

named_theorems ors_simps \<open>the abstract view of the set after an operation\<close>
named_theorems ors_intros \<open>the operations keep the invariant\<close>

subsection \<open>Data\<close>

datatype 'e OrSetOp = Add 'e | Remove 'e

record 'e OrSetDelta =
  od_adds :: "('e \<times> Dot) list"
  od_tombstones :: "(Dot \<times> Dot) list"
  od_context :: CausalContext
  od_dot_node :: NodeId
  od_dot_counter :: Counter

record 'e OrSet =
  adds :: "('e, Dot hset) hmap"
  tombstones :: "(Dot, Dot) hmap"

subsection \<open>Operations\<close>

definition causal_context :: "'e OrSetDelta \<Rightarrow> CausalContext \<times> NodeId \<times> Counter" where
  "causal_context dl = (od_context dl, od_dot_node dl, od_dot_counter dl)"

definition OrSet_new :: "'e OrSet" where
  "OrSet_new = \<lparr>adds = [], tombstones = []\<rparr>"

text \<open>The test both \<^verbatim>\<open>contains\<close>, \<^verbatim>\<open>elements\<close> and \<^verbatim>\<open>len\<close> make on the dots of an entry.\<close>

definition any_live_dot :: "'e OrSet \<Rightarrow> Dot hset \<Rightarrow> bool" where
  "any_live_dot s dots = list_ex (\<lambda>d. \<not> hm_contains (tombstones s) d) dots"

definition contains :: "'e OrSet \<Rightarrow> 'e \<Rightarrow> bool" where
  "contains s e = (case hm_get (adds s) e of None \<Rightarrow> False | Some dots \<Rightarrow> any_live_dot s dots)"

definition elements :: "'e OrSet \<Rightarrow> 'e list" where
  "elements s = map fst (filter (\<lambda>(_, dots). any_live_dot s dots) (adds s))"

definition orset_len :: "'e OrSet \<Rightarrow> nat" where
  "orset_len s = length (filter (any_live_dot s) (hm_values (adds s)))"

definition orset_is_empty :: "'e OrSet \<Rightarrow> bool" where
  "orset_is_empty s \<longleftrightarrow> orset_len s = 0"

fun apply_local :: "'e OrSet \<Rightarrow> Dot \<Rightarrow> 'e OrSetOp \<Rightarrow> 'e OrSet" where
  "apply_local s d (Add e) =
     s\<lparr>adds := hm_insert e (hs_insert d (hm_or (adds s) e [])) (adds s)\<rparr>"
| "apply_local s d (Remove e) =
     (let remove_dot = d; add_dots = hm_or (adds s) e []
      in s\<lparr>adds := hm_remove e (adds s),
           tombstones := fold (\<lambda>add_dot ts. hm_insert add_dot remove_dot ts) add_dots (tombstones s)\<rparr>)"

definition merge_tombstone :: "Dot \<times> Dot \<Rightarrow> 'e OrSet \<Rightarrow> 'e OrSet" where
  "merge_tombstone = (\<lambda>(add_dot, remove_dot) s.
     s\<lparr>tombstones := hm_insert add_dot remove_dot (tombstones s),
       adds := hm_map_values (hs_remove add_dot) (adds s)\<rparr>)"

definition merge_add :: "'e \<times> Dot \<Rightarrow> 'e OrSet \<Rightarrow> 'e OrSet" where
  "merge_add = (\<lambda>(e, d) s.
     if \<not> hm_contains (tombstones s) d
     then s\<lparr>adds := hm_insert e (hs_insert d (hm_or (adds s) e [])) (adds s)\<rparr> else s)"

definition merge_delta :: "'e OrSet \<Rightarrow> 'e OrSetDelta \<Rightarrow> 'e OrSet" where
  "merge_delta s dl =
     (let s1 = fold merge_tombstone (od_tombstones dl) s;
          s2 = s1\<lparr>adds := hm_retain (\<lambda>_ dots. dots \<noteq> []) (adds s1)\<rparr>
      in fold merge_add (od_adds dl) s2)"

text \<open>\<open>display\<close> and \<open>debug\<close> are the element type's \<^verbatim>\<open>Display\<close> and \<^verbatim>\<open>Debug\<close>.\<close>

definition get_random_element :: "('e \<Rightarrow> string) \<Rightarrow> 'e OrSet \<Rightarrow> string option" where
  "get_random_element display s =
     (case elements s of [] \<Rightarrow> None | e # _ \<Rightarrow> Some (display e))"

fun join_with :: "string \<Rightarrow> string list \<Rightarrow> string" where
  "join_with sep [] = []"
| "join_with sep [x] = x"
| "join_with sep (x # y # xs) = x @ sep @ join_with sep (y # xs)"

definition orset_print_state :: "('e \<Rightarrow> string) \<Rightarrow> 'e OrSet \<Rightarrow> string" where
  "orset_print_state debug s = join_with '', '' (map debug (sort_key debug (elements s)))"

definition full_state :: "'e OrSet \<Rightarrow> DotVersionVector \<Rightarrow> 'e OrSetDelta" where
  "full_state s dvv =
     \<lparr>od_adds = concat (map (\<lambda>(e, dots). map (\<lambda>d. (e, d)) dots) (adds s)),
      od_tombstones = tombstones s,
      od_context = effective_map dvv,
      od_dot_node = node_id (dvv_dot dvv),
      od_dot_counter = counter (dvv_dot dvv)\<rparr>"

definition delta_since :: "'e OrSet \<Rightarrow> CausalContext \<Rightarrow> DotVersionVector \<Rightarrow> 'e OrSetDelta" where
  "delta_since s remote_knowledge dvv =
     \<lparr>od_adds = concat (map (\<lambda>(e, dots).
         map (\<lambda>d. (e, d)) (filter (\<lambda>d. counter d > hm_or remote_knowledge (node_id d) 0) dots))
         (adds s)),
      od_tombstones = filter (\<lambda>(_, remove_dot).
         counter remove_dot > hm_or remote_knowledge (node_id remove_dot) 0) (tombstones s),
      od_context = effective_map dvv,
      od_dot_node = node_id (dvv_dot dvv),
      od_dot_counter = counter (dvv_dot dvv)\<rparr>"

definition perform_gc :: "'e OrSet \<Rightarrow> DotVersionVector \<Rightarrow> 'e OrSet" where
  "perform_gc s frontier =
     s\<lparr>tombstones := hm_retain (\<lambda>_ remove_dot. \<not> dominates_dot frontier remove_dot) (tombstones s)\<rparr>"

subsection \<open>The abstract view and the invariant\<close>

definition live :: "'e OrSet \<Rightarrow> ('e \<times> Dot) set" where
  "live s = {(e, d). \<exists>dots. hm_get (adds s) e = Some dots \<and> d \<in> set dots}"

definition dead :: "'e OrSet \<Rightarrow> Dot set" where
  "dead s = dom (map_of (tombstones s))"

definition orset_inv :: "'e OrSet \<Rightarrow> bool" where
  "orset_inv s \<longleftrightarrow> hm_ok (adds s) \<and> hm_ok (tombstones s) \<and>
     (\<forall>(e, dots) \<in> set (adds s). dots \<noteq> [] \<and> hs_ok dots) \<and> snd ` live s \<inter> dead s = {}"

lemma mem_live_iff: "(e, d) \<in> live s \<longleftrightarrow> d \<in> set (hm_or (adds s) e [])"
  by (cases "hm_get (adds s) e") (auto simp: live_def hm_or_def)

lemma mem_dead_iff: "d \<in> dead s \<longleftrightarrow> hm_contains (tombstones s) d"
  by (simp add: dead_def dom_def hm_contains_def)


lemma orset_invD:
  assumes "orset_inv s"
  shows "hm_ok (adds s)" and "hm_ok (tombstones s)"
    and "(e, d) \<in> live s \<Longrightarrow> d \<notin> dead s"
    and "hm_get (adds s) e = Some dots \<Longrightarrow> dots \<noteq> [] \<and> hs_ok dots"
proof -
  show "hm_ok (adds s)" and "hm_ok (tombstones s)"
    using assms by (simp_all add: orset_inv_def)
  show "(e, d) \<in> live s \<Longrightarrow> d \<notin> dead s"
    using assms unfolding orset_inv_def by (metis IntI empty_iff image_eqI snd_conv)
  show "dots \<noteq> [] \<and> hs_ok dots" if "hm_get (adds s) e = Some dots"
    using map_of_SomeD [OF that] assms unfolding orset_inv_def by blast
qed

lemma orset_invI:
  assumes "hm_ok (adds s)" and "hm_ok (tombstones s)"
    and "\<And>e dots. hm_get (adds s) e = Some dots \<Longrightarrow> dots \<noteq> [] \<and> hs_ok dots"
    and "\<And>e d. (e, d) \<in> live s \<Longrightarrow> d \<notin> dead s"
  shows "orset_inv s"
proof -
  have "snd ` live s \<inter> dead s = {}" using assms(4) by auto
  moreover have "\<forall>(e, dots) \<in> set (adds s). dots \<noteq> [] \<and> hs_ok dots"
    using assms(3) map_of_is_SomeI [OF assms(1)] by auto
  ultimately show ?thesis using assms(1,2) by (simp add: orset_inv_def)
qed

lemma any_live_dot_inv:
  "orset_inv s \<Longrightarrow> hm_get (adds s) e = Some dots \<Longrightarrow> any_live_dot s dots"
  using orset_invD(3) [of s e "hd dots"] orset_invD(4) [of s e dots]
  by (cases dots) (auto simp: any_live_dot_def mem_dead_iff [symmetric] live_def)

lemma contains_iff: "orset_inv s \<Longrightarrow> contains s e \<longleftrightarrow> (\<exists>d. (e, d) \<in> live s)"
  using orset_invD(4) [of s e]
  by (cases "hm_get (adds s) e")
    (auto simp: contains_def any_live_dot_inv live_def neq_Nil_conv)

lemma set_elements: "orset_inv s \<Longrightarrow> set (elements s) = fst ` live s"
proof -
  assume inv: "orset_inv s"
  have "set (elements s) = fst ` set (adds s)"
    using inv orset_invD(1) [OF inv] by (auto simp: elements_def image_iff any_live_dot_inv)
  also have "\<dots> = fst ` live s"
  proof -
    have "x \<in> fst ` live s" if x: "x \<in> fst ` set (adds s)" for x
    proof -
      from x obtain dots where get: "hm_get (adds s) x = Some dots"
        by (metis map_of_eq_None_iff not_None_eq)
      then obtain d where "d \<in> set dots"
        using orset_invD(4) [OF inv] by (metis last_in_set)
      with get have "(x, d) \<in> live s" by (simp add: live_def)
      then show ?thesis by force
    qed
    moreover have "fst ` live s \<subseteq> fst ` set (adds s)"
      by (force simp: live_def dest: map_of_SomeD)
    ultimately show ?thesis by blast
  qed
  finally show ?thesis .
qed

lemma distinct_elements: "orset_inv s \<Longrightarrow> distinct (elements s)"
  by (simp add: elements_def distinct_map_filter orset_invD(1))

lemma orset_len_card: "orset_inv s \<Longrightarrow> orset_len s = card (fst ` live s)"
proof -
  assume inv: "orset_inv s"
  have "orset_len s = length (elements s)"
    by (simp add: orset_len_def elements_def filter_map comp_def case_prod_unfold)
  then show ?thesis
    using distinct_card [OF distinct_elements [OF inv]] set_elements [OF inv] by simp
qed

subsection \<open>The view after an update\<close>

lemma live_add [ors_simps]: "live (apply_local s d (Add e)) = insert (e, d) (live s)"
  by (auto simp: mem_live_iff split: if_splits)

lemma dead_add [ors_simps]: "dead (apply_local s d (Add e)) = dead s"
  by (simp add: dead_def)

lemma live_remove [ors_simps]: "live (apply_local s d (Remove e)) = {(x, c) \<in> live s. x \<noteq> e}"
  by (auto simp: mem_live_iff Let_def split: if_splits)

lemma map_of_tombstone_fold:
  "map_of (fold (\<lambda>a ts. hm_insert a r ts) ds m) k = (if k \<in> set ds then Some r else map_of m k)"
  by (induction ds arbitrary: m) auto

lemma hm_ok_tombstone_fold: "hm_ok m \<Longrightarrow> hm_ok (fold (\<lambda>a ts. hm_insert a r ts) ds m)"
  by (induction ds arbitrary: m) auto

lemma map_of_tombstones_remove:
  "map_of (tombstones (apply_local s d (Remove e))) c =
     (if (e, c) \<in> live s then Some d else map_of (tombstones s) c)"
  by (simp add: Let_def map_of_tombstone_fold mem_live_iff)

lemma dead_remove [ors_simps]:
  "dead (apply_local s d (Remove e)) = dead s \<union> {c. (e, c) \<in> live s}"
  by (auto simp: dead_def map_of_tombstones_remove dom_def simp del: apply_local.simps)

lemma orset_inv_new [simp, ors_intros]: "orset_inv OrSet_new"
  by (simp add: orset_inv_def OrSet_new_def live_def)

lemma live_new [simp, ors_simps]: "live OrSet_new = {}" and dead_new [simp, ors_simps]: "dead OrSet_new = {}"
  by (simp_all add: live_def dead_def OrSet_new_def)

lemma orset_inv_add [ors_intros]:
  assumes "orset_inv s" and "d \<notin> dead s"
  shows "orset_inv (apply_local s d (Add e))"
proof (rule orset_invI)
  fix x dots
  assume "hm_get (adds (apply_local s d (Add e))) x = Some dots"
  then show "dots \<noteq> [] \<and> hs_ok dots"
    using orset_invD(4) [OF assms(1), of e] orset_invD(4) [OF assms(1), of x dots]
    by (auto simp: hm_or_def List.insert_def split: if_splits option.splits)
qed (use assms orset_invD [OF assms(1)] in \<open>auto simp: ors_simps simp del: apply_local.simps, auto\<close>)

lemma orset_inv_remove [ors_intros]:
  assumes "orset_inv s"
    and unique: "\<And>e e' c. (e, c) \<in> live s \<Longrightarrow> (e', c) \<in> live s \<Longrightarrow> e = e'"
  shows "orset_inv (apply_local s d (Remove e))"
proof (rule orset_invI)
  fix x c
  assume "(x, c) \<in> live (apply_local s d (Remove e))"
  then show "c \<notin> dead (apply_local s d (Remove e))"
    using orset_invD(3) [OF assms(1), of x c] unique
    by (auto simp: ors_simps simp del: apply_local.simps)
qed (use orset_invD [OF assms(1)] in \<open>auto simp: Let_def hm_ok_tombstone_fold split: if_splits\<close>)


declare apply_local.simps [simp del]

subsection \<open>The view after a merge\<close>

text \<open>What a delta does to the view: its tombstones kill, its adds join unless they are dead.\<close>

definition merge_view ::
  "('e \<times> Dot) set \<times> Dot set \<Rightarrow> 'e OrSetDelta \<Rightarrow> ('e \<times> Dot) set \<times> Dot set" where
  "merge_view v dl =
     (let dd = snd v \<union> fst ` set (od_tombstones dl)
      in ({p \<in> fst v \<union> set (od_adds dl). snd p \<notin> dd}, dd))"

abbreviation view :: "'e OrSet \<Rightarrow> ('e \<times> Dot) set \<times> Dot set" where
  "view s \<equiv> (live s, dead s)"

definition evicted :: "'e OrSet \<Rightarrow> 'e OrSet" where
  "evicted s = s\<lparr>adds := hm_retain (\<lambda>_ dots. dots \<noteq> []) (adds s)\<rparr>"

lemma merge_delta_phases:
  "merge_delta s dl = fold merge_add (od_adds dl) (evicted (fold merge_tombstone (od_tombstones dl) s))"
  by (simp add: merge_delta_def evicted_def Let_def)

lemma merge_tombstone_fold:
  assumes "hm_ok (adds s)" and "hm_ok (tombstones s)"
  shows "hm_ok (adds (fold merge_tombstone ts s)) \<and>
    hm_ok (tombstones (fold merge_tombstone ts s)) \<and>
    live (fold merge_tombstone ts s) = {p \<in> live s. snd p \<notin> fst ` set ts} \<and>
    map_of (tombstones (fold merge_tombstone ts s)) d =
      (case map_of (rev ts) d of None \<Rightarrow> map_of (tombstones s) d | Some r \<Rightarrow> Some r) \<and>
    (\<forall>e dots. hm_get (adds (fold merge_tombstone ts s)) e = Some dots \<longrightarrow>
       (\<exists>dots'. hm_get (adds s) e = Some dots' \<and> (hs_ok dots' \<longrightarrow> hs_ok dots)))"
  using assms
proof (induction ts arbitrary: s)
  case Nil
  then show ?case by auto
next
  case (Cons t ts)
  obtain a r where t: "t = (a, r)" by (cases t)
  let ?s = "merge_tombstone t s"
  have *: "hm_ok (adds ?s)" "hm_ok (tombstones ?s)"
    "live ?s = {p \<in> live s. snd p \<noteq> a}"
    "\<And>k. map_of (tombstones ?s) k = (if a = k then Some r else map_of (tombstones s) k)"
    "\<And>e. hm_get (adds ?s) e = map_option (hs_remove a) (hm_get (adds s) e)"
    using Cons.prems by (auto simp: merge_tombstone_def t live_def)
  from Cons.IH [OF *(1,2)] show ?case
    using *(3-5) t
    by (auto simp: map_add_def split: option.splits) (metis distinct_removeAll)+
qed

lemma dead_tombstone_fold: "dead (fold merge_tombstone ts s) = dead s \<union> fst ` set ts"
proof (induction ts arbitrary: s)
  case (Cons t ts)
  have "dead (merge_tombstone t s) = insert (fst t) (dead s)"
    by (cases t) (auto simp: merge_tombstone_def dead_def dom_def)
  then show ?case using Cons.IH by auto
qed simp

lemma evicted_simps [simp]:
  assumes "hm_ok (adds s)"
  shows "hm_ok (adds (evicted s))" and "live (evicted s) = live s"
    and "tombstones (evicted s) = tombstones s" and "dead (evicted s) = dead s"
    and "hm_get (adds (evicted s)) e =
      (case hm_get (adds s) e of None \<Rightarrow> None | Some ds \<Rightarrow> if ds = [] then None else Some ds)"
  using assms by (auto simp: evicted_def live_def dead_def split: option.splits if_splits)

lemma merge_add_cases:
  "merge_add (e, d) s = (if d \<in> dead s then s else apply_local s d (Add e))"
  by (simp add: merge_add_def mem_dead_iff apply_local.simps)

lemma merge_add_fold:
  assumes "orset_inv s"
  shows "orset_inv (fold merge_add xs s) \<and>
    tombstones (fold merge_add xs s) = tombstones s \<and>
    live (fold merge_add xs s) = live s \<union> {p \<in> set xs. snd p \<notin> dead s}"
  using assms
proof (induction xs arbitrary: s)
  case Nil
  then show ?case by simp
next
  case (Cons x xs)
  obtain e d where x: "x = (e, d)" by (cases x)
  have "orset_inv (merge_add x s)"
    using Cons.prems by (simp add: x merge_add_cases orset_inv_add)
  moreover have "tombstones (merge_add x s) = tombstones s"
    by (simp add: x merge_add_cases apply_local.simps)
  moreover have "dead (merge_add x s) = dead s"
    by (simp add: x merge_add_cases ors_simps)
  moreover have "live (merge_add x s) = (if d \<in> dead s then live s else insert (e, d) (live s))"
    by (simp add: x merge_add_cases ors_simps)
  ultimately show ?case using Cons.IH [of "merge_add x s"] x by auto
qed

lemma orset_inv_evicted:
  assumes "orset_inv s"
  shows "orset_inv (evicted (fold merge_tombstone ts s))"
proof (rule orset_invI)
  note fold_facts = merge_tombstone_fold [OF orset_invD(1,2) [OF assms], of ts]
  let ?s = "fold merge_tombstone ts s"
  show "hm_ok (adds (evicted ?s))" "hm_ok (tombstones (evicted ?s))"
    using fold_facts by simp_all
  show "dots \<noteq> [] \<and> hs_ok dots" if "hm_get (adds (evicted ?s)) e = Some dots" for e dots
  proof -
    from that fold_facts have "hm_get (adds ?s) e = Some dots" and "dots \<noteq> []"
      by (auto split: option.splits if_splits simp del: map_of_eq_Some_iff)
    moreover from this fold_facts obtain dots' where
      "hm_get (adds s) e = Some dots'" "hs_ok dots' \<longrightarrow> hs_ok dots" by blast
    ultimately show ?thesis using orset_invD(4) [OF assms] by blast
  qed
  show "d \<notin> dead (evicted ?s)" if "(e, d) \<in> live (evicted ?s)" for e d
    using that fold_facts orset_invD(3) [OF assms] by (auto simp: dead_tombstone_fold)
qed

lemma orset_inv_merge [ors_intros]: "orset_inv s \<Longrightarrow> orset_inv (merge_delta s dl)"
  by (simp add: merge_delta_phases merge_add_fold orset_inv_evicted)

lemma map_of_tombstones_merge:
  assumes "orset_inv s"
  shows "map_of (tombstones (merge_delta s dl)) d =
    (case map_of (rev (od_tombstones dl)) d of None \<Rightarrow> map_of (tombstones s) d | Some r \<Rightarrow> Some r)"
  using merge_add_fold [OF orset_inv_evicted [OF assms], of "od_adds dl" "od_tombstones dl"]
    merge_tombstone_fold [OF orset_invD(1,2) [OF assms], of "od_tombstones dl" d]
  by (simp add: merge_delta_phases)

lemma dead_merge [ors_simps]:
  assumes "orset_inv s"
  shows "dead (merge_delta s dl) = dead s \<union> fst ` set (od_tombstones dl)"
  using merge_add_fold [OF orset_inv_evicted [OF assms], of "od_adds dl" "od_tombstones dl"]
    merge_tombstone_fold [OF orset_invD(1,2) [OF assms], of "od_tombstones dl"]
    dead_tombstone_fold [of "od_tombstones dl" s]
  by (simp add: merge_delta_phases dead_def)

lemma live_merge [ors_simps]:
  assumes "orset_inv s"
  shows "live (merge_delta s dl) =
    {p \<in> live s \<union> set (od_adds dl). snd p \<notin> dead s \<union> fst ` set (od_tombstones dl)}"
proof -
  let ?s = "evicted (fold merge_tombstone (od_tombstones dl) s)"
  have "live ?s = {p \<in> live s. snd p \<notin> fst ` set (od_tombstones dl)}"
    using merge_tombstone_fold [OF orset_invD(1,2) [OF assms], of "od_tombstones dl"] by simp
  moreover have "dead ?s = dead s \<union> fst ` set (od_tombstones dl)"
    using merge_tombstone_fold [OF orset_invD(1,2) [OF assms], of "od_tombstones dl"]
    by (simp add: dead_tombstone_fold)
  ultimately show ?thesis
    using merge_add_fold [OF orset_inv_evicted [OF assms], of "od_adds dl" "od_tombstones dl"]
      orset_invD(3) [OF assms]
    by (auto simp: merge_delta_phases)
qed

lemma view_merge: "orset_inv s \<Longrightarrow> view (merge_delta s dl) = merge_view (view s) dl"
  by (simp add: ors_simps merge_view_def Let_def)


subsection \<open>The contract of a delta CRDT\<close>

locale delta_crdt =
  fixes inv :: "'s \<Rightarrow> bool"
    and obs :: "'s \<Rightarrow> 'o"
    and act :: "'o \<Rightarrow> 'd \<Rightarrow> 'o"
    and read :: "'o \<Rightarrow> 'r"
    and merge :: "'s \<Rightarrow> 'd \<Rightarrow> 's"
    and gc :: "'s \<Rightarrow> 'f \<Rightarrow> 's"
  assumes inv_merge: "inv s \<Longrightarrow> inv (merge s d)"
    and inv_gc: "inv s \<Longrightarrow> inv (gc s f)"
    and obs_merge: "inv s \<Longrightarrow> obs (merge s d) = act (obs s) d"
    and act_commute: "act (act v d) d' = act (act v d') d"
    and act_idem: "act (act v d) d = act v d"
    and read_gc: "inv s \<Longrightarrow> read (obs (gc s f)) = read (obs s)"
begin

lemma obs_foldl: "inv s \<Longrightarrow> inv (foldl merge s ds) \<and> obs (foldl merge s ds) = foldl act (obs s) ds"
  by (induction ds arbitrary: s) (auto simp: inv_merge obs_merge)

lemma act_absorb: "d \<in> set ds \<Longrightarrow> foldl act (act v d) ds = foldl act v ds"
proof (induction ds arbitrary: v)
  case (Cons x ds)
  then show ?case by (cases "x = d") (auto simp: act_idem act_commute [of v d x])
qed simp

lemma act_removeAll: "foldl act (act v d) (removeAll d ds) = foldl act (act v d) ds"
proof (induction ds arbitrary: v)
  case (Cons x ds)
  then show ?case
    by (cases "x = d") (auto simp: act_idem act_commute [of v d x])
qed simp

lemma acts_set: "set ds = set ds' \<Longrightarrow> foldl act v ds = foldl act v ds'"
proof (induction ds arbitrary: v ds')
  case (Cons x ds)
  have x': "x \<in> set ds'" using Cons.prems by auto
  show ?case
  proof (cases "x \<in> set ds")
    case True
    then show ?thesis
      using Cons.IH [of ds' v] Cons.prems by (auto simp: act_absorb insert_absorb)
  next
    case False
    then have "set ds = set (removeAll x ds')" using Cons.prems by auto
    from Cons.IH [OF this] show ?thesis
      by (simp add: act_removeAll act_absorb [OF x'])
  qed
qed simp

text \<open>Deltas may arrive in any order and any number of times: only which ones arrived matters.\<close>

lemma obs_merges:
  "inv s \<Longrightarrow> set ds = set ds' \<Longrightarrow> obs (foldl merge s ds) = obs (foldl merge s ds')"
  using obs_foldl acts_set by metis

lemma read_gc_merges:
  "inv s \<Longrightarrow> read (obs (gc (foldl merge s ds) f)) = read (obs (foldl merge s ds))"
  by (simp add: read_gc obs_foldl)

end

lemma live_gc [simp, ors_simps]: "live (perform_gc s f) = live s"
  by (simp add: perform_gc_def live_def)

lemma map_of_tombstones_gc:
  "orset_inv s \<Longrightarrow> map_of (tombstones (perform_gc s f)) d =
     (case map_of (tombstones s) d of None \<Rightarrow> None
      | Some r \<Rightarrow> if dominates_dot f r then None else Some r)"
  by (auto simp: perform_gc_def orset_invD(2) split: option.splits)

lemma dead_gc_subset: "orset_inv s \<Longrightarrow> dead (perform_gc s f) \<subseteq> dead s"
  by (auto simp: dead_def dom_def map_of_tombstones_gc split: option.splits)

lemma orset_inv_gc [ors_intros]:
  assumes "orset_inv s"
  shows "orset_inv (perform_gc s f)"
proof (rule orset_invI)
  show "hm_ok (adds (perform_gc s f))" "hm_ok (tombstones (perform_gc s f))"
    using orset_invD(1,2) [OF assms] by (simp_all add: perform_gc_def)
  show "dots \<noteq> [] \<and> hs_ok dots" if "hm_get (adds (perform_gc s f)) e = Some dots" for e dots
    using that orset_invD(4) [OF assms, of e dots] by (simp add: perform_gc_def)
  show "d \<notin> dead (perform_gc s f)" if "(e, d) \<in> live (perform_gc s f)" for e d
    using that orset_invD(3) [OF assms, of e d] dead_gc_subset [OF assms] by auto
qed

lemma contains_gc: "orset_inv s \<Longrightarrow> contains (perform_gc s f) = contains s"
  by (rule ext) (simp add: contains_iff orset_inv_gc)

interpretation orset: delta_crdt orset_inv "\<lambda>s. (live s, dead s)" merge_view "\<lambda>v. fst ` fst v"
  merge_delta perform_gc
  by unfold_locales
    (auto simp: ors_intros view_merge live_gc merge_view_def Let_def)

subsection \<open>Properties of the set\<close>

text \<open>The three readers agree: \<^verbatim>\<open>elements\<close> lists, once each, exactly the elements
  \<^verbatim>\<open>contains\<close> accepts, and \<^verbatim>\<open>len\<close> counts them.\<close>

theorem readers_agree:
  assumes "orset_inv s"
  shows "set (elements s) = {e. contains s e} \<and> distinct (elements s) \<and>
    orset_len s = card {e. contains s e}"
proof -
  have "{e. contains s e} = fst ` live s"
    using contains_iff [OF assms] by force
  then show ?thesis
    using assms by (simp add: set_elements distinct_elements orset_len_card)
qed

theorem readers_agree_witness:
  "set (elements (apply_local OrSet_new (Dot_new ''A'' 1) (Add ''x''))) = {''x''}"
proof -
  have "orset_inv (apply_local OrSet_new (Dot_new ''A'' 1) (Add ''x''))"
    by (rule orset_inv_add) simp_all
  from readers_agree [OF this]
  have "set (elements (apply_local OrSet_new (Dot_new ''A'' 1) (Add ''x''))) =
    {e. contains (apply_local OrSet_new (Dot_new ''A'' 1) (Add ''x'')) e}" by blast
  also have "\<dots> = {''x''}"
    using contains_iff [OF \<open>orset_inv (apply_local OrSet_new (Dot_new ''A'' 1) (Add ''x''))\<close>]
    by (auto simp: ors_simps)
  finally show ?thesis .
qed

text \<open>A local add makes its element present and a local remove makes it absent; no other
  element changes.\<close>

theorem local_operations:
  assumes "orset_inv s" and "d \<notin> dead s"
    and unique: "\<forall>e e' c. (e, c) \<in> live s \<and> (e', c) \<in> live s \<longrightarrow> e = e'"
  shows "(contains (apply_local s d (Add e)) x \<longleftrightarrow> x = e \<or> contains s x) \<and>
    (contains (apply_local s d (Remove e)) x \<longleftrightarrow> x \<noteq> e \<and> contains s x)"
proof -
  have a: "orset_inv (apply_local s d (Add e))" using assms by (intro orset_inv_add)
  have r: "orset_inv (apply_local s d (Remove e))"
    using assms(1) unique by (intro orset_inv_remove) blast+
  show ?thesis
    unfolding contains_iff [OF a] contains_iff [OF r] contains_iff [OF assms(1)]
    by (auto simp: ors_simps)
qed

theorem local_operations_witness:
  "\<not> contains (apply_local (apply_local OrSet_new (Dot_new ''A'' 1) (Add ''x''))
     (Dot_new ''A'' 2) (Remove ''x'')) ''x''"
proof -
  let ?s = "apply_local OrSet_new (Dot_new ''A'' 1) (Add ''x'')"
  have "orset_inv ?s" by (rule orset_inv_add) simp_all
  moreover have "Dot_new ''A'' 2 \<notin> dead ?s" by (simp add: ors_simps)
  moreover have "\<forall>e e' c. (e, c) \<in> live ?s \<and> (e', c) \<in> live ?s \<longrightarrow> e = e'"
    by (auto simp: ors_simps)
  ultimately show ?thesis
    using local_operations [of ?s "Dot_new ''A'' 2" "''x''" "''x''"] by simp
qed

text \<open>C9.  Deltas may be delivered in any order and any number of times: two replicas that start
  equal and have merged the same set of deltas show the same elements and hold the same removed
  dots.\<close>

theorem delivery_order_irrelevant:
  assumes "orset_inv s" and "set ds = set ds'"
  shows "live (foldl merge_delta s ds) = live (foldl merge_delta s ds') \<and>
    dead (foldl merge_delta s ds) = dead (foldl merge_delta s ds') \<and>
    contains (foldl merge_delta s ds) = contains (foldl merge_delta s ds')"
proof -
  have inv: "orset_inv (foldl merge_delta s ds)" "orset_inv (foldl merge_delta s ds')"
    using orset.obs_foldl [OF assms(1)] by blast+
  have eq: "live (foldl merge_delta s ds) = live (foldl merge_delta s ds')"
    "dead (foldl merge_delta s ds) = dead (foldl merge_delta s ds')"
    using orset.obs_merges [OF assms] by simp_all
  have "contains (foldl merge_delta s ds) = contains (foldl merge_delta s ds')"
    by (rule ext) (simp add: contains_iff inv eq)
  with eq show ?thesis by simp
qed

theorem delivery_order_irrelevant_witness:
  "contains (foldl merge_delta OrSet_new
     [full_state (apply_local OrSet_new (Dot_new ''A'' 1) (Add ''x'')) (dvv_new ''A''),
      full_state (OrSet_new :: string OrSet) (dvv_new ''B'')]) =
   contains (foldl merge_delta OrSet_new
     [full_state OrSet_new (dvv_new ''B''),
      full_state (apply_local OrSet_new (Dot_new ''A'' 1) (Add ''x'')) (dvv_new ''A''),
      full_state OrSet_new (dvv_new ''B'')])"
  using delivery_order_irrelevant [of "OrSet_new :: string OrSet"
     "[full_state (apply_local OrSet_new (Dot_new ''A'' 1) (Add ''x'')) (dvv_new ''A''),
       full_state OrSet_new (dvv_new ''B'')]"
     "[full_state OrSet_new (dvv_new ''B''),
      full_state (apply_local OrSet_new (Dot_new ''A'' 1) (Add ''x'')) (dvv_new ''A''),
      full_state OrSet_new (dvv_new ''B'')]"]
  by auto


subsection \<open>Deltas\<close>

lemma set_od_adds_full [ors_simps]:
  "orset_inv s \<Longrightarrow> set (od_adds (full_state s dvv)) = live s"
  using map_of_is_SomeI [OF orset_invD(1), of s]
  by (force simp: full_state_def live_def dest: map_of_SomeD)

lemma set_od_adds_delta [ors_simps]:
  "orset_inv s \<Longrightarrow> set (od_adds (delta_since s r dvv)) =
     {(e, d) \<in> live s. counter d > hm_or r (node_id d) 0}"
  using map_of_is_SomeI [OF orset_invD(1), of s]
  by (force simp: delta_since_def live_def dest: map_of_SomeD)

lemma set_od_tombstones_delta [ors_simps]:
  "orset_inv s \<Longrightarrow> set (od_tombstones (delta_since s r dvv)) =
     {(a, rd). map_of (tombstones s) a = Some rd \<and> counter rd > hm_or r (node_id rd) 0}"
  using map_of_eq_Some_iff [OF orset_invD(2), of s] by (auto simp: delta_since_def)

lemma fst_set_tombstones [simp]: "fst ` set (tombstones s) = dead s"
  by (simp add: dead_def dom_map_of_conv_image_fst)

lemma od_tombstones_full [simp]: "od_tombstones (full_state s dvv) = tombstones s"
  by (simp add: full_state_def)

text \<open>The delta for a peer carries exactly the adds and the tombstones whose events the peer's
  knowledge does not cover; against empty knowledge it carries what the full state carries.\<close>

theorem delta_since_minimal:
  assumes "orset_inv s"
  shows "((e, d) \<in> set (od_adds (delta_since s r dvv)) \<longleftrightarrow>
      (e, d) \<in> live s \<and> counter d > hm_or r (node_id d) 0) \<and>
    ((a, rd) \<in> set (od_tombstones (delta_since s r dvv)) \<longleftrightarrow>
      map_of (tombstones s) a = Some rd \<and> counter rd > hm_or r (node_id rd) 0) \<and>
    ((\<forall>(x, c) \<in> live s. counter c \<noteq> 0) \<longrightarrow>
      set (od_adds (delta_since s [] dvv)) = set (od_adds (full_state s dvv)))"
  using assms by (auto simp: ors_simps word_gt_0)

theorem delta_since_minimal_witness:
  "(''y'', Dot_new ''A'' 2) \<in> set (od_adds (delta_since
      (apply_local (apply_local OrSet_new (Dot_new ''A'' 1) (Add ''x'')) (Dot_new ''A'' 2) (Add ''y''))
      [(''A'', 1)] (dvv_new ''A'')))"
proof -
  let ?s = "apply_local (apply_local OrSet_new (Dot_new ''A'' 1) (Add ''x'')) (Dot_new ''A'' 2) (Add ''y'')"
  have "orset_inv ?s" by (intro orset_inv_add) (simp_all add: ors_simps)
  from delta_since_minimal [OF this, of "''y''" "Dot_new ''A'' 2" "[(''A'', 1)]" "dvv_new ''A''"]
  show ?thesis by (simp add: ors_simps hm_or_def)
qed

lemma merge_snapshot:
  assumes "orset_inv s" "od_adds dl = od_adds (full_state s dvv)" "od_tombstones dl = tombstones s"
  shows "orset_inv (merge_delta OrSet_new dl)" "live (merge_delta OrSet_new dl) = live s"
    "map_of (tombstones (merge_delta OrSet_new dl)) = map_of (tombstones s)"
    "contains (merge_delta OrSet_new dl) = contains s"
proof -
  show inv: "orset_inv (merge_delta OrSet_new dl)" by (intro orset_inv_merge orset_inv_new)
  show live: "live (merge_delta OrSet_new dl) = live s"
    using assms(1) orset_invD(3) [OF assms(1)]
    by (auto simp: live_merge assms(2,3) set_od_adds_full)
  have "map_of (rev (tombstones s)) d = map_of (tombstones s) d" for d
    using orset_invD(2) [OF assms(1)] by (simp add: map_of_rev_distinct)
  then show "map_of (tombstones (merge_delta OrSet_new dl)) = map_of (tombstones s)"
    using map_of_tombstones_merge [OF orset_inv_new, of dl]
    by (simp add: fun_eq_iff OrSet_new_def assms(3) split: option.splits)
  show "contains (merge_delta OrSet_new dl) = contains s"
    by (rule ext) (simp add: contains_iff inv assms(1) live)
qed

text \<open>A new replica that merges the full state of another gets its elements and its
  tombstones (the epoch snapshot a joining replica starts from).\<close>

theorem full_state_transfer:
  assumes "orset_inv s"
  shows "live (merge_delta OrSet_new (full_state s dvv)) = live s \<and>
    (\<forall>d. map_of (tombstones (merge_delta OrSet_new (full_state s dvv))) d = map_of (tombstones s) d) \<and>
    contains (merge_delta OrSet_new (full_state s dvv)) = contains s"
  using merge_snapshot [OF assms, of "full_state s dvv" dvv] by simp

theorem full_state_transfer_witness:
  "live (merge_delta OrSet_new
      (full_state (apply_local OrSet_new (Dot_new ''A'' 1) (Add ''x'')) (dvv_new ''A''))) =
   {(''x'', Dot_new ''A'' 1)}"
proof -
  have "orset_inv (apply_local OrSet_new (Dot_new ''A'' 1) (Add ''x''))"
    by (rule orset_inv_add) simp_all
  from full_state_transfer [OF this] show ?thesis by (simp add: ors_simps)
qed

text \<open>C13.  Garbage collection is invisible to readers and forgets exactly the tombstones whose
  removal the frontier dominates.\<close>

theorem gc_invisible:
  assumes "orset_inv s"
  shows "contains (perform_gc s f) = contains s \<and>
    set (elements (perform_gc s f)) = set (elements s) \<and>
    dead (perform_gc s f) =
      {d. \<exists>r. map_of (tombstones s) d = Some r \<and> \<not> dominates_dot f r}"
proof -
  have inv: "orset_inv (perform_gc s f)" using assms by (rule orset_inv_gc)
  have "contains (perform_gc s f) = contains s"
    by (rule ext) (simp add: contains_iff inv assms)
  then show ?thesis
    by (auto simp: set_elements inv assms dead_def dom_def map_of_tombstones_gc split: option.splits)
qed

theorem gc_invisible_witness:
  "dead (perform_gc \<lparr>adds = [], tombstones = [(Dot_new ''A'' 1, Dot_new ''A'' 2)]\<rparr>
     (frontier_dvv ''F'' [(''A'', 2)])) = ({} :: Dot set)"
proof -
  let ?s = "\<lparr>adds = [], tombstones = [(Dot_new ''A'' 1, Dot_new ''A'' 2)]\<rparr> :: string OrSet"
  have "orset_inv ?s" by (simp add: orset_inv_def live_def)
  from gc_invisible [OF this, of "frontier_dvv ''F'' [(''A'', 2)]"]
  have "dead (perform_gc ?s (frontier_dvv ''F'' [(''A'', 2)])) = {}"
    by (simp add: dominates_dot_frontier hm_or_def)
  then show ?thesis by (simp add: perform_gc_def dead_def)
qed




text \<open>What a late delta does after a collection.  While a removed add has its tombstone, a delta
  that still carries the add is harmless; once the tombstone has been collected, because its removal is
  below the frontier, the same delta brings the removed element back: merging looks at the
  tombstones only and never at the replica's clock, which knows the add and its removal.\<close>

theorem late_delta_resurrects:
  assumes "orset_inv s" and "map_of (tombstones s) d = Some r" and "dominates_dot f r"
    and "(e, d) \<in> set (od_adds dl)" and "d \<notin> fst ` set (od_tombstones dl)"
  shows "(e, d) \<notin> live (merge_delta s dl) \<and>
    contains (merge_delta (perform_gc s f) dl) e \<and> (e, d) \<in> live (merge_delta (perform_gc s f) dl)"
proof -
  have "d \<in> dead s" using assms(2) by (simp only: dead_def dom_def) simp
  moreover have "d \<notin> dead (perform_gc s f)"
    using map_of_tombstones_gc [OF assms(1), of f d] assms(2,3)
    by (simp add: dead_def dom_def del: map_of_eq_Some_iff)
  ultimately show ?thesis
    using assms(1,4,5) orset_inv_gc [OF assms(1)]
    by (auto simp: live_merge contains_iff [OF orset_inv_merge])
qed

theorem late_delta_resurrects_witness:
  "let added = apply_local OrSet_new (Dot_new ''A'' 1) (Add ''x'');
       late = full_state added (dvv_event (dvv_new ''A''));
       removed = apply_local added (Dot_new ''B'' 1) (Remove ''x'')
   in contains (merge_delta (perform_gc removed (frontier_dvv ''B'' [(''A'', 1), (''B'', 1)])) late) ''x''"
proof -
  let ?added = "apply_local OrSet_new (Dot_new ''A'' 1) (Add ''x'')"
  let ?removed = "apply_local ?added (Dot_new ''B'' 1) (Remove ''x'')"
  have a: "orset_inv ?added" by (intro orset_inv_add) simp_all
  then have "orset_inv ?removed" by (rule orset_inv_remove) (auto simp: ors_simps)
  moreover have "map_of (tombstones ?removed) (Dot_new ''A'' 1) = Some (Dot_new ''B'' 1)"
    by (simp add: map_of_tombstones_remove ors_simps)
  moreover have "dominates_dot (frontier_dvv ''B'' [(''A'', 1), (''B'', 1)]) (Dot_new ''B'' 1)"
    by (simp add: dominates_dot_frontier hm_or_def)
  moreover have "(''x'', Dot_new ''A'' 1) \<in> set (od_adds (full_state ?added (dvv_event (dvv_new ''A''))))"
    using a by (simp add: set_od_adds_full ors_simps)
  moreover have "Dot_new ''A'' 1 \<notin> fst ` set (od_tombstones (full_state ?added (dvv_event (dvv_new ''A''))))"
    by (simp add: ors_simps)
  ultimately show ?thesis unfolding Let_def by (rule late_delta_resurrects [THEN conjunct2, THEN conjunct1])
qed

end
