(* ===== verification/Wire.thy ===== *)
theory Wire
  imports OR_Set
begin

text \<open>
  The messages of \<^verbatim>\<open>src/proto/mod.rs\<close> (and \<^verbatim>\<open>replication.proto\<close>, which it mirrors), the
  element codec of \<^verbatim>\<open>src/crdt/mod.rs\<close>, and the conversions between them and the OR-set:
  \<^verbatim>\<open>encode_delta\<close>, \<^verbatim>\<open>decode_delta\<close>, \<^verbatim>\<open>encode_op\<close> and \<^verbatim>\<open>decode_op\<close> of
  \<^verbatim>\<open>src/crdt/or_set.rs\<close>.

  The protobuf library (prost) is not part of the program: \<open>pb_enc\<close> and \<open>pb_dec\<close> are arguments, and
  a round trip assumes of them only that the message at hand decodes to an equal message, where the
  entries of a map field may come back in another order.  UTF-8 validation is the standard
  library's and is written out.
\<close>

named_theorems wire_simps \<open>decoding an encoded value\<close>

subsection \<open>Messages\<close>

record VectorClock =
  vc_entries :: "(string, u64) hmap"

record KnowledgeMatrix =
  km_entries :: "(string, VectorClock) hmap"

record Handshake =
  hs_node_id :: string
  hs_node_name :: string
  hs_version :: u32
  hs_gc_replica :: bool

record CrdtOp =
  op_crdt_id :: string
  op_payload :: bytes
  op_origin_node_id :: string
  op_requester_knowledge :: "VectorClock option"
  op_knowledge_matrix :: "KnowledgeMatrix option"

record CrdtPullRequest =
  pr_crdt_id :: string
  pr_origin_node_id :: string
  pr_knowledge :: "VectorClock option"
  pr_gc_replica :: bool

datatype Payload =
    PHandshake Handshake
  | PCrdtOp CrdtOp
  | PCrdtPullRequest CrdtPullRequest

record Envelope =
  payload :: "Payload option"

record ProtoDot =
  pd_node_id :: string
  pd_counter :: u64

record ProtoElemDot =
  ped_element :: bytes
  ped_dot :: "ProtoDot option"

record ProtoDotPair =
  pdp_add_dot :: "ProtoDot option"
  pdp_remove_dot :: "ProtoDot option"

record ProtoOrSetDelta =
  pos_adds :: "ProtoElemDot list"
  pos_tombstones :: "ProtoDotPair list"
  pos_context :: "(string, u64) hmap"
  pos_dot_node :: string
  pos_dot_counter :: u64

datatype ProtoOp = AddElement bytes | RemoveElement bytes

record ProtoOrSetOp =
  poso_op :: "ProtoOp option"

datatype Command =
    CmdAdd string
  | CmdRemove string
  | CmdPrintState bool
  | CmdPrintInternals bool
  | CmdPrintMatrix bool
  | CmdRemoveRandom bool

record ProtoClientCommand =
  command :: "Command option"

datatype wire_error = ProstDecodeError | FromUtf8Error | Message string

subsection \<open>Strings as bytes\<close>

definition as_bytes :: "string \<Rightarrow> bytes" where
  "as_bytes s = map (\<lambda>c. word_of_nat (of_char c)) s"

definition bytes_to_string :: "bytes \<Rightarrow> string" where
  "bytes_to_string bs = map (\<lambda>b. char_of (unat b)) bs"

definition utf8_cont :: "u8 \<Rightarrow> bool" where
  "utf8_cont b \<longleftrightarrow> 0x80 \<le> b \<and> b \<le> 0xBF"

definition utf8_lead3 :: "u8 \<Rightarrow> u8 \<Rightarrow> bool" where
  "utf8_lead3 a b \<longleftrightarrow>
     a = 0xE0 \<and> 0xA0 \<le> b \<and> b \<le> 0xBF \<or>
     (0xE1 \<le> a \<and> a \<le> 0xEC \<or> a = 0xEE \<or> a = 0xEF) \<and> utf8_cont b \<or>
     a = 0xED \<and> 0x80 \<le> b \<and> b \<le> 0x9F"

definition utf8_lead4 :: "u8 \<Rightarrow> u8 \<Rightarrow> bool" where
  "utf8_lead4 a b \<longleftrightarrow>
     a = 0xF0 \<and> 0x90 \<le> b \<and> b \<le> 0xBF \<or>
     0xF1 \<le> a \<and> a \<le> 0xF3 \<and> utf8_cont b \<or>
     a = 0xF4 \<and> 0x80 \<le> b \<and> b \<le> 0x8F"

fun utf8_valid :: "bytes \<Rightarrow> bool" where
  "utf8_valid [] = True"
| "utf8_valid (a # bs) =
     (if a \<le> 0x7F then utf8_valid bs
      else (case bs of
          [] \<Rightarrow> False
        | b # bs2 \<Rightarrow>
            if 0xC2 \<le> a \<and> a \<le> 0xDF then utf8_cont b \<and> utf8_valid bs2
            else (case bs2 of
                [] \<Rightarrow> False
              | c # bs3 \<Rightarrow>
                  if utf8_lead3 a b \<and> utf8_cont c then utf8_valid bs3
                  else (case bs3 of
                      [] \<Rightarrow> False
                    | d # bs4 \<Rightarrow> utf8_lead4 a b \<and> utf8_cont c \<and> utf8_cont d \<and> utf8_valid bs4))))"

text \<open>A Rust \<^verbatim>\<open>String\<close> holds valid UTF-8.\<close>

definition is_String :: "string \<Rightarrow> bool" where
  "is_String s \<longleftrightarrow> utf8_valid (as_bytes s)"

text \<open>\<^verbatim>\<open>impl ElementCodec for String\<close>.\<close>

definition encode_elem :: "string \<Rightarrow> bytes" where
  "encode_elem s = as_bytes s"

definition decode_elem :: "bytes \<Rightarrow> (wire_error, string) result" where
  "decode_elem bs = (if utf8_valid bs then Inr (bytes_to_string bs) else Inl FromUtf8Error)"

subsection \<open>Deltas and operations on the wire\<close>

text \<open>\<^verbatim>\<open>iter.map(f).collect::<Result<Vec<_>>>()\<close>: the first error wins.\<close>

fun try_map :: "('a \<Rightarrow> ('x, 'b) result) \<Rightarrow> 'a list \<Rightarrow> ('x, 'b list) result" where
  "try_map f [] = Inr []"
| "try_map f (x # xs) =
     (case f x of
        Inl e \<Rightarrow> Inl e
      | Inr y \<Rightarrow> (case try_map f xs of Inl e \<Rightarrow> Inl e | Inr ys \<Rightarrow> Inr (y # ys)))"

definition proto_dot :: "Dot \<Rightarrow> ProtoDot" where
  "proto_dot d = \<lparr>pd_node_id = node_id d, pd_counter = counter d\<rparr>"

definition delta_to_proto :: "('e \<Rightarrow> bytes) \<Rightarrow> 'e OrSetDelta \<Rightarrow> ProtoOrSetDelta" where
  "delta_to_proto enc_e delta =
     \<lparr>pos_adds = map (\<lambda>(elem, d). \<lparr>ped_element = enc_e elem, ped_dot = Some (proto_dot d)\<rparr>) (od_adds delta),
      pos_tombstones = map (\<lambda>(a, r).
         \<lparr>pdp_add_dot = Some (proto_dot a), pdp_remove_dot = Some (proto_dot r)\<rparr>) (od_tombstones delta),
      pos_context = od_context delta,
      pos_dot_node = od_dot_node delta,
      pos_dot_counter = od_dot_counter delta\<rparr>"

definition encode_delta ::
  "('e \<Rightarrow> bytes) \<Rightarrow> (ProtoOrSetDelta \<Rightarrow> bytes) \<Rightarrow> 'e OrSetDelta \<Rightarrow> bytes" where
  "encode_delta enc_e pb_enc delta = pb_enc (delta_to_proto enc_e delta)"

definition decode_add ::
  "(bytes \<Rightarrow> (wire_error, 'e) result) \<Rightarrow> ProtoElemDot \<Rightarrow> (wire_error, 'e \<times> Dot) result" where
  "decode_add dec_e ed =
     (case dec_e (ped_element ed) of
        Inl e \<Rightarrow> Inl e
      | Inr elem \<Rightarrow> (case ped_dot ed of
            None \<Rightarrow> Inl (Message ''missing dot in ProtoElemDot'')
          | Some p \<Rightarrow> Inr (elem, Dot_new (pd_node_id p) (pd_counter p))))"

definition decode_tombstone :: "ProtoDotPair \<Rightarrow> (wire_error, Dot \<times> Dot) result" where
  "decode_tombstone dp =
     (case pdp_add_dot dp of
        None \<Rightarrow> Inl (Message ''missing add_dot in ProtoDotPair'')
      | Some a \<Rightarrow> (case pdp_remove_dot dp of
            None \<Rightarrow> Inl (Message ''missing remove_dot in ProtoDotPair'')
          | Some r \<Rightarrow> Inr (Dot_new (pd_node_id a) (pd_counter a), Dot_new (pd_node_id r) (pd_counter r))))"

definition decode_delta ::
  "(bytes \<Rightarrow> (wire_error, 'e) result) \<Rightarrow> (bytes \<Rightarrow> (wire_error, ProtoOrSetDelta) result) \<Rightarrow> bytes
     \<Rightarrow> (wire_error, 'e OrSetDelta) result" where
  "decode_delta dec_e pb_dec bs =
     (case pb_dec bs of
        Inl e \<Rightarrow> Inl e
      | Inr p \<Rightarrow> (case try_map (decode_add dec_e) (pos_adds p) of
          Inl e \<Rightarrow> Inl e
        | Inr as \<Rightarrow> (case try_map decode_tombstone (pos_tombstones p) of
            Inl e \<Rightarrow> Inl e
          | Inr ts \<Rightarrow> Inr \<lparr>od_adds = as, od_tombstones = ts, od_context = pos_context p,
                od_dot_node = pos_dot_node p, od_dot_counter = pos_dot_counter p\<rparr>)))"

definition encode_op :: "('e \<Rightarrow> bytes) \<Rightarrow> (ProtoOrSetOp \<Rightarrow> bytes) \<Rightarrow> 'e OrSetOp \<Rightarrow> bytes" where
  "encode_op enc_e pb_enc op =
     pb_enc \<lparr>poso_op = Some (case op of
        Add elem \<Rightarrow> AddElement (enc_e elem)
      | Remove elem \<Rightarrow> RemoveElement (enc_e elem))\<rparr>"

definition decode_op ::
  "(bytes \<Rightarrow> (wire_error, 'e) result) \<Rightarrow> (bytes \<Rightarrow> (wire_error, ProtoOrSetOp) result) \<Rightarrow> bytes
     \<Rightarrow> (wire_error, 'e OrSetOp) result" where
  "decode_op dec_e pb_dec bs =
     (case pb_dec bs of
        Inl e \<Rightarrow> Inl e
      | Inr p \<Rightarrow> (case poso_op p of
          Some (AddElement b) \<Rightarrow> (case dec_e b of Inl e \<Rightarrow> Inl e | Inr x \<Rightarrow> Inr (Add x))
        | Some (RemoveElement b) \<Rightarrow> (case dec_e b of Inl e \<Rightarrow> Inl e | Inr x \<Rightarrow> Inr (Remove x))
        | None \<Rightarrow> Inl (Message ''empty ProtoOrSetOp'')))"

subsection \<open>The contract of an element codec\<close>

lemma try_map_Inr_iff:
  "(\<exists>ys. try_map f xs = Inr ys) \<longleftrightarrow> (\<forall>x \<in> set xs. \<exists>y. f x = Inr y)"
  by (induction xs) (auto split: sum.splits)

lemma try_map_map: "(\<And>x. x \<in> set xs \<Longrightarrow> f (g x) = Inr x) \<Longrightarrow> try_map f (map g xs) = Inr xs"
  by (induction xs) auto

lemma Dot_new_proto [simp]: "Dot_new (pd_node_id (proto_dot d)) (pd_counter (proto_dot d)) = d"
  by (simp add: proto_dot_def Dot_new_def)

text \<open>Decoded messages are compared up to the order of a map field.\<close>

definition delta_equiv :: "'e OrSetDelta \<Rightarrow> 'e OrSetDelta \<Rightarrow> bool" where
  "delta_equiv a b \<longleftrightarrow> od_adds a = od_adds b \<and> od_tombstones a = od_tombstones b \<and>
     hm_eq (od_context a) (od_context b) \<and> od_dot_node a = od_dot_node b \<and>
     od_dot_counter a = od_dot_counter b"

definition proto_equiv :: "ProtoOrSetDelta \<Rightarrow> ProtoOrSetDelta \<Rightarrow> bool" where
  "proto_equiv a b \<longleftrightarrow> pos_adds a = pos_adds b \<and> pos_tombstones a = pos_tombstones b \<and>
     hm_eq (pos_context a) (pos_context b) \<and> pos_dot_node a = pos_dot_node b \<and>
     pos_dot_counter a = pos_dot_counter b"

locale element_codec =
  fixes enc :: "'e \<Rightarrow> bytes"
    and dec :: "bytes \<Rightarrow> (wire_error, 'e) result"
    and valid :: "'e \<Rightarrow> bool"
    and accepts :: "bytes \<Rightarrow> bool"
  assumes dec_enc: "valid e \<Longrightarrow> dec (enc e) = Inr e"
    and dec_ok_iff: "(\<exists>e. dec b = Inr e) \<longleftrightarrow> accepts b"
begin

lemma decode_adds:
  assumes "\<And>e d. (e, d) \<in> set as \<Longrightarrow> valid e"
  shows "try_map (decode_add dec) (map (\<lambda>(e, d). \<lparr>ped_element = enc e, ped_dot = Some (proto_dot d)\<rparr>) as)
    = Inr as"
  by (rule try_map_map) (use assms in \<open>force simp: decode_add_def dec_enc split: prod.splits\<close>)

lemma decode_tombstones:
  "try_map decode_tombstone (map (\<lambda>(a, r).
      \<lparr>pdp_add_dot = Some (proto_dot a), pdp_remove_dot = Some (proto_dot r)\<rparr>) ts) = Inr ts"
  by (rule try_map_map) (auto simp: decode_tombstone_def)

lemma delta_roundtrip:
  assumes "\<And>e d. (e, d) \<in> set (od_adds delta) \<Longrightarrow> valid e"
    and "pb_dec (pb_enc (delta_to_proto enc delta)) = Inr p"
    and "proto_equiv p (delta_to_proto enc delta)"
  shows "\<exists>delta'. decode_delta dec pb_dec (encode_delta enc pb_enc delta) = Inr delta' \<and>
    delta_equiv delta' delta"
proof -
  have p: "pos_adds p = map (\<lambda>(e, d). \<lparr>ped_element = enc e, ped_dot = Some (proto_dot d)\<rparr>) (od_adds delta)"
    "pos_tombstones p = map (\<lambda>(a, r).
      \<lparr>pdp_add_dot = Some (proto_dot a), pdp_remove_dot = Some (proto_dot r)\<rparr>) (od_tombstones delta)"
    using assms(3) by (simp_all add: proto_equiv_def delta_to_proto_def)
  have "try_map (decode_add dec) (pos_adds p) = Inr (od_adds delta)"
    unfolding p by (rule decode_adds) (rule assms(1))
  moreover have "try_map decode_tombstone (pos_tombstones p) = Inr (od_tombstones delta)"
    unfolding p by (rule decode_tombstones)
  ultimately have "decode_delta dec pb_dec (encode_delta enc pb_enc delta) =
      Inr \<lparr>od_adds = od_adds delta, od_tombstones = od_tombstones delta, od_context = pos_context p,
        od_dot_node = pos_dot_node p, od_dot_counter = pos_dot_counter p\<rparr>"
    by (simp add: decode_delta_def encode_delta_def assms(2))
  with assms(3) show ?thesis
    by (simp add: proto_equiv_def delta_equiv_def delta_to_proto_def)
qed

lemma op_roundtrip:
  assumes "\<And>e. e \<in> set_OrSetOp op \<Longrightarrow> valid e"
    and "\<And>p. pb_dec (pb_enc p) = Inr p"
  shows "decode_op dec pb_dec (encode_op enc pb_enc op) = Inr op"
  using assms by (cases op) (auto simp: decode_op_def encode_op_def dec_enc)

lemma decode_delta_ok_iff:
  "(\<exists>d. decode_delta dec pb_dec bs = Inr d) \<longleftrightarrow>
   (\<exists>p. pb_dec bs = Inr p \<and>
      (\<forall>ed \<in> set (pos_adds p). accepts (ped_element ed) \<and> ped_dot ed \<noteq> None) \<and>
      (\<forall>dp \<in> set (pos_tombstones p). pdp_add_dot dp \<noteq> None \<and> pdp_remove_dot dp \<noteq> None))"
proof -
  have a: "(\<exists>y. decode_add dec ed = Inr y) \<longleftrightarrow> accepts (ped_element ed) \<and> ped_dot ed \<noteq> None" for ed
    unfolding dec_ok_iff [symmetric] by (auto simp: decode_add_def split: sum.splits option.splits)
  have t: "(\<exists>y. decode_tombstone dp = Inr y) \<longleftrightarrow> pdp_add_dot dp \<noteq> None \<and> pdp_remove_dot dp \<noteq> None" for dp
    by (auto simp: decode_tombstone_def split: option.splits)
  have "(\<exists>d. decode_delta dec pb_dec bs = Inr d) \<longleftrightarrow>
     (\<exists>p. pb_dec bs = Inr p \<and> (\<exists>as. try_map (decode_add dec) (pos_adds p) = Inr as) \<and>
        (\<exists>ts. try_map decode_tombstone (pos_tombstones p) = Inr ts))"
    by (auto simp: decode_delta_def split: sum.splits)
  then show ?thesis by (simp only: try_map_Inr_iff a t)
qed

end

lemma char_byte [simp]: "char_of (unat (word_of_nat (of_char c) :: u8)) = c"
  by (simp add: unsigned_of_nat take_bit_eq_mod)

lemma bytes_to_string_as_bytes [simp, wire_simps]: "bytes_to_string (as_bytes s) = s"
  by (simp add: bytes_to_string_def as_bytes_def comp_def)

interpretation string_codec: element_codec encode_elem decode_elem is_String utf8_valid
  by unfold_locales (auto simp: encode_elem_def decode_elem_def is_String_def wire_simps)


subsection \<open>Properties of the wire formats\<close>

text \<open>C34.  Encoding a delta of strings and decoding it again gives the same adds, tombstones and
  causal metadata, when the protobuf library returns an equal message.\<close>

theorem delta_wire_roundtrip:
  assumes "\<forall>(e, d) \<in> set (od_adds delta). is_String e"
    and "pb_dec (pb_enc (delta_to_proto encode_elem delta)) = Inr p"
    and "proto_equiv p (delta_to_proto encode_elem delta)"
  shows "\<exists>delta'. decode_delta decode_elem pb_dec (encode_delta encode_elem pb_enc delta) = Inr delta' \<and>
    delta_equiv delta' delta"
  using assms string_codec.delta_roundtrip [of delta pb_dec pb_enc p] by blast

theorem delta_wire_roundtrip_witness:
  "let delta = \<lparr>od_adds = [(''x'', Dot_new ''A'' 1)], od_tombstones = [],
       od_context = [(''A'', 1)], od_dot_node = ''A'', od_dot_counter = 1\<rparr>
   in \<exists>delta'. decode_delta decode_elem (\<lambda>_. Inr (delta_to_proto encode_elem delta))
        (encode_delta encode_elem (\<lambda>_. []) delta) = Inr delta' \<and> delta_equiv delta' delta"
proof -
  have "is_String ''x''" by code_simp
  then show ?thesis
    unfolding Let_def by (intro delta_wire_roundtrip) (auto simp: proto_equiv_def hm_eq_iff)
qed

text \<open>Operations round-trip over the wire as well.\<close>

theorem op_wire_roundtrip:
  assumes "\<forall>e \<in> set_OrSetOp op. is_String e" and "\<forall>p. pb_dec (pb_enc p) = Inr p"
  shows "decode_op decode_elem pb_dec (encode_op encode_elem pb_enc op) = Inr op"
  using assms by (intro string_codec.op_roundtrip) auto

theorem op_wire_roundtrip_witness:
  "decode_op decode_elem
     (\<lambda>bs. Inr \<lparr>poso_op = (case bs of [] \<Rightarrow> None
        | t # b \<Rightarrow> Some (if t = 1 then AddElement b else RemoveElement b))\<rparr>)
     (encode_op encode_elem
       (\<lambda>p. case poso_op p of None \<Rightarrow> [] | Some (AddElement b) \<Rightarrow> 1 # b
          | Some (RemoveElement b) \<Rightarrow> 2 # b) (Remove ''x'')) = Inr (Remove ''x'')"
proof (rule op_wire_roundtrip)
  show "\<forall>e \<in> set_OrSetOp (Remove ''x''). is_String e" by code_simp
  show "\<forall>p. (\<lambda>bs. Inr \<lparr>poso_op = (case bs of [] \<Rightarrow> None
        | t # b \<Rightarrow> Some (if t = 1 then AddElement b else RemoveElement b))\<rparr>)
     (case poso_op p of None \<Rightarrow> [] | Some (AddElement b) \<Rightarrow> 1 # b
          | Some (RemoveElement b) \<Rightarrow> 2 # b) = Inr p"
    by (simp split: option.splits ProtoOp.splits)
qed

text \<open>A received delta is accepted exactly when the protobuf library decodes it, every add has
  its dot and a valid UTF-8 element, and every tombstone has both its dots.\<close>

theorem decode_delta_accepts:
  "(\<exists>d. decode_delta decode_elem pb_dec bs = Inr d) \<longleftrightarrow>
   (\<exists>p. pb_dec bs = Inr p \<and>
      (\<forall>ed \<in> set (pos_adds p). utf8_valid (ped_element ed) \<and> ped_dot ed \<noteq> None) \<and>
      (\<forall>dp \<in> set (pos_tombstones p). pdp_add_dot dp \<noteq> None \<and> pdp_remove_dot dp \<noteq> None))"
  by (rule string_codec.decode_delta_ok_iff)

theorem decode_delta_accepts_witness:
  "let a1 = \<lparr>pd_node_id = ''A'', pd_counter = 1\<rparr>;
       add = \<lparr>ped_element = [97, 98], ped_dot = Some a1\<rparr>;
       good = \<lparr>pos_adds = [add], pos_tombstones = [\<lparr>pdp_add_dot = Some a1, pdp_remove_dot = Some a1\<rparr>],
         pos_context = [], pos_dot_node = ''A'', pos_dot_counter = 2\<rparr>
   in (\<exists>d. decode_delta decode_elem (\<lambda>_. Inr good) [0] = Inr d) \<and>
      \<not> (\<exists>d. decode_delta decode_elem (\<lambda>_. Inr (good\<lparr>pos_adds := [add\<lparr>ped_element := [0xC0]\<rparr>]\<rparr>)) [0] = Inr d)"
  unfolding Let_def decode_delta_accepts by simp

end
