(* ===== verification/Peers.thy ===== *)
theory Peers
  imports Wire
begin

text \<open>
  The peer table \<^verbatim>\<open>src/peers/peer_registry.rs\<close> and the outbound task table
  \<^verbatim>\<open>src/peers/peer_connector.rs\<close>.

  A \<^verbatim>\<open>PeerHandle\<close> holds the send half of a tokio channel: its type is a parameter \<open>'h\<close>, and
  \<^verbatim>\<open>try_send\<close> is an argument that either refuses the message or returns the channel with the
  message queued.  Operations on the table return the new table, the channels in it included.
  The connector's own id is an argument of its operations, and so are the two operations of the network trait it calls: what \<^verbatim>\<open>allow_bidirectional\<close> answers and what \<^verbatim>\<open>spawn_outbound\<close> returns for
  an address (the task handle, of type \<open>'j\<close>).
\<close>

named_theorems peer_simps \<open>lookups after an operation of the peer tables\<close>

subsection \<open>The registry of connected peers\<close>

type_synonym 'h PeerRegistry = "(NodeId, bool \<times> 'h) hmap"

type_synonym ('h, 'e) try_send = "'h \<Rightarrow> Envelope \<Rightarrow> ('e, 'h) result"

datatype 'e send_error = SendFailed NodeId 'e | PeerNotFound NodeId

definition registry_new :: "'h PeerRegistry" where
  "registry_new = []"

definition registry_insert :: "'h PeerRegistry \<Rightarrow> NodeId \<Rightarrow> bool \<Rightarrow> 'h \<Rightarrow> 'h PeerRegistry" where
  "registry_insert peers nid gc_replica handle = hm_insert nid (gc_replica, handle) peers"

definition registry_remove :: "'h PeerRegistry \<Rightarrow> NodeId \<Rightarrow> 'h PeerRegistry \<times> 'h option" where
  "registry_remove peers nid = (hm_remove nid peers, map_option snd (hm_get peers nid))"

definition registry_get :: "'h PeerRegistry \<Rightarrow> NodeId \<Rightarrow> (bool \<times> 'h) option" where
  "registry_get peers nid = hm_get peers nid"

definition peer_ids :: "'h PeerRegistry \<Rightarrow> NodeId list" where
  "peer_ids peers = hm_keys peers"

definition get_all_non_gc_replicas :: "'h PeerRegistry \<Rightarrow> NodeId list" where
  "get_all_non_gc_replicas peers = map fst (filter (\<lambda>(_, gc_replica, _). \<not> gc_replica) peers)"

definition send_to_peer ::
  "('h, 'e) try_send \<Rightarrow> 'h PeerRegistry \<Rightarrow> NodeId \<Rightarrow> Envelope
     \<Rightarrow> 'h PeerRegistry \<times> ('e send_error, unit) result" where
  "send_to_peer try_send peers nid envelope =
     (case hm_get peers nid of
        Some (gc_replica, tx) \<Rightarrow> (case try_send tx envelope of
            Inl e \<Rightarrow> (peers, Inl (SendFailed nid e))
          | Inr tx' \<Rightarrow> (hm_insert nid (gc_replica, tx') peers, Inr ()))
      | None \<Rightarrow> (peers, Inl (PeerNotFound nid)))"

definition broadcast :: "('h, 'e) try_send \<Rightarrow> 'h PeerRegistry \<Rightarrow> Envelope \<Rightarrow> 'h PeerRegistry" where
  "broadcast try_send peers envelope =
     map (\<lambda>(nid, gc_replica, tx).
            (nid, gc_replica, case try_send tx envelope of Inl _ \<Rightarrow> tx | Inr tx' \<Rightarrow> tx')) peers"

definition registry_len :: "'h PeerRegistry \<Rightarrow> nat" where
  "registry_len peers = length peers"

definition registry_is_empty :: "'h PeerRegistry \<Rightarrow> bool" where
  "registry_is_empty peers \<longleftrightarrow> peers = []"

subsection \<open>The outbound connections\<close>

type_synonym 'j OutboundTasks = "(NodeId, 'j) hmap"

definition add_peer ::
  "bool \<Rightarrow> (string \<Rightarrow> 'j) \<Rightarrow> NodeId \<Rightarrow> 'j OutboundTasks \<Rightarrow> NodeId \<Rightarrow> string \<Rightarrow> 'j OutboundTasks" where
  "add_peer allow_bidirectional spawn_outbound self_id tasks nid addr =
     (if \<not> allow_bidirectional \<and> self_id \<ge> nid then tasks
      else if hm_contains tasks nid then tasks
      else hm_insert nid (spawn_outbound addr) tasks)"

definition remove_peer ::
  "'j OutboundTasks \<Rightarrow> 'h PeerRegistry \<Rightarrow> NodeId \<Rightarrow> 'j OutboundTasks \<times> 'h PeerRegistry \<times> 'j option" where
  "remove_peer tasks registry nid =
     (hm_remove nid tasks, fst (registry_remove registry nid), hm_get tasks nid)"

subsection \<open>Lemmas\<close>

lemma registry_get_new [simp]: "registry_get registry_new p = None"
  by (simp add: registry_get_def registry_new_def)

lemma registry_get_insert [peer_simps]:
  "registry_get (registry_insert r n g h) p = (if p = n then Some (g, h) else registry_get r p)"
  by (simp add: registry_get_def registry_insert_def)

lemma registry_get_remove [peer_simps]:
  "registry_get (fst (registry_remove r n)) p = (if p = n then None else registry_get r p)"
  by (simp add: registry_get_def registry_remove_def)

lemma set_peer_ids: "p \<in> set (peer_ids r) \<longleftrightarrow> registry_get r p \<noteq> None"
  by (auto simp: peer_ids_def registry_get_def map_of_eq_None_iff)

lemma set_non_gc:
  "hm_ok r \<Longrightarrow> p \<in> set (get_all_non_gc_replicas r) \<longleftrightarrow> (\<exists>h. registry_get r p = Some (False, h))"
  by (force simp: get_all_non_gc_replicas_def registry_get_def)

lemma registry_get_send:
  "registry_get (fst (send_to_peer ts r n e)) p =
     (if p = n then map_option (\<lambda>(g, h). (g, case ts h e of Inl _ \<Rightarrow> h | Inr h' \<Rightarrow> h')) (registry_get r n)
      else registry_get r p)"
  by (auto simp: send_to_peer_def registry_get_def split: option.splits sum.splits)

lemma peer_ids_send [peer_simps]:
  "set (peer_ids (fst (send_to_peer ts r n e))) = set (peer_ids r)"
  by (auto simp: set_peer_ids registry_get_send split: if_splits)

lemma ok_send [hm_intros]: "hm_ok r \<Longrightarrow> hm_ok (fst (send_to_peer ts r n e))"
  by (auto simp: send_to_peer_def distinct_update split: option.splits sum.splits)

lemma registry_get_broadcast:
  "registry_get (broadcast ts r e) p =
     map_option (\<lambda>(g, h). (g, case ts h e of Inl _ \<Rightarrow> h | Inr h' \<Rightarrow> h')) (registry_get r p)"
  by (induction r) (auto simp: broadcast_def registry_get_def)

lemma gc_flag_send [peer_simps]:
  "map_option fst (registry_get (fst (send_to_peer ts r n e)) p) = map_option fst (registry_get r p)"
  by (cases "registry_get r n") (auto simp: registry_get_send)

lemma non_gc_flag:
  "hm_ok r \<Longrightarrow> p \<in> set (get_all_non_gc_replicas r) \<longleftrightarrow> map_option fst (registry_get r p) = Some False"
  by (cases "registry_get r p") (auto simp: set_non_gc)

subsection \<open>Properties\<close>

text \<open>The registry is a map from node ids to the flag and channel registered last: sending to one peer
  reaches that peer's channel only and fails exactly when the peer is unknown or its channel refuses;
  a broadcast offers the envelope to every channel exactly once and leaves a refusing one as it was;
  neither adds a peer, drops one or changes a garbage-collector flag, so the list of plain replicas is
  the same afterwards.\<close>
theorem registry_delivery:
  assumes "hm_ok r"
  shows "(snd (send_to_peer ts r n e) = Inr () \<longleftrightarrow>
            (\<exists>g h h'. registry_get r n = Some (g, h) \<and> ts h e = Inr h')) \<and>
         (\<forall>p. p \<noteq> n \<longrightarrow> registry_get (fst (send_to_peer ts r n e)) p = registry_get r p) \<and>
         (\<forall>p. registry_get (broadcast ts r e) p =
            (case registry_get r p of None \<Rightarrow> None
             | Some (g, h) \<Rightarrow> Some (g, case ts h e of Inl _ \<Rightarrow> h | Inr h' \<Rightarrow> h'))) \<and>
         set (get_all_non_gc_replicas (fst (send_to_peer ts r n e))) = set (get_all_non_gc_replicas r) \<and>
         get_all_non_gc_replicas (broadcast ts r e) = get_all_non_gc_replicas r"
proof (intro conjI allI impI)
  show "snd (send_to_peer ts r n e) = Inr () \<longleftrightarrow>
      (\<exists>g h h'. registry_get r n = Some (g, h) \<and> ts h e = Inr h')"
    by (auto simp: send_to_peer_def registry_get_def split: option.splits sum.splits)
  show "set (get_all_non_gc_replicas (fst (send_to_peer ts r n e))) = set (get_all_non_gc_replicas r)"
    using assms by (simp add: set_eq_iff non_gc_flag ok_send gc_flag_send)
  show "get_all_non_gc_replicas (broadcast ts r e) = get_all_non_gc_replicas r"
    by (induction r) (auto simp: broadcast_def get_all_non_gc_replicas_def)
qed (auto simp: registry_get_send registry_get_broadcast split: option.splits)

theorem registry_delivery_witness:
  "snd (send_to_peer (\<lambda>h _. if h < (2 :: nat) then Inr (Suc h) else Inl ()) [(''a'', True, 1), (''b'', False, 2)]
      ''b'' \<lparr>payload = None\<rparr>) = Inl (SendFailed ''b'' ()) \<and>
   snd (send_to_peer (\<lambda>h _. if h < (2 :: nat) then Inr (Suc h) else Inl ()) [(''a'', True, 1), (''b'', False, 2)]
      ''a'' \<lparr>payload = None\<rparr>) = Inr ()"
  using registry_delivery [of "[(''a'', True, 1 :: nat), (''b'', False, 2)]"
      "\<lambda>h _. if h < 2 then Inr (Suc h) else Inl ()" "''a''" "\<lparr>payload = None\<rparr>"]
  by (auto simp: send_to_peer_def registry_get_def)

text \<open>Over TCP two replicas never hold two outbound tasks for one pair: of two different nodes,
  exactly the one with the smaller id opens the connection, and a node never connects to itself; over
  the simulated network both sides open one.  An entry that exists is never replaced, so repeating the
  discovery round is idempotent.\<close>
theorem single_connection_per_pair:
  assumes "\<not> hm_contains tasks_a b" "\<not> hm_contains tasks_b a" "a \<noteq> b"
  shows "(hm_contains (add_peer False sp a tasks_a b addr_b) b \<noteq>
            hm_contains (add_peer False sp b tasks_b a addr_a) a) \<and>
         hm_contains (add_peer True sp a tasks_a b addr_b) b \<and>
         hm_contains (add_peer True sp b tasks_b a addr_a) a \<and>
         add_peer False sp a tasks_a a addr_a = tasks_a \<and>
         add_peer bi sp a (add_peer bi sp a tasks_a b addr_b) b addr_c = add_peer bi sp a tasks_a b addr_b"
  using assms by (auto simp: add_peer_def hm_contains_def)

theorem single_connection_per_pair_witness:
  "hm_contains (add_peer False id ''n1'' [] ''n2'' ''h:2'') ''n2'' \<noteq>
   hm_contains (add_peer False id ''n2'' [] ''n1'' ''h:1'') ''n1''"
  using single_connection_per_pair [of "[]" "''n2''" "[]" "''n1''" id "''h:2''" "''h:1''" False "''h:3''"]
  by (simp add: hm_contains_def)

end
