(* ===== verification/Dissemination.thy ===== *)
theory Dissemination
  imports Peers
begin

text \<open>
  The dissemination layer \<^verbatim>\<open>src/network/dissemination.rs\<close>: envelope construction and the three
  strategies behind the trait \<^verbatim>\<open>DisseminationStrategy\<close>, push, periodic pull and push-pull.

  A strategy's state is a record with the round counter (\<^verbatim>\<open>usize\<close>, 64 bits, wrapping) and the
  registry it shares with the server; the pull strategies extend it with their interval.
  The random peer of \<^verbatim>\<open>peer_ids().choose(&mut thread_rng())\<close> is taken at an index that is an
  argument (\<open>rng\<close>), so a lemma holds for every choice.  A trait object is the record \<open>strategy\<close> of
  its methods.

  The locale \<open>dissemination\<close> is the contract of the trait in terms of two flags, whether the
  strategy pushes and whether it pulls; it is interpreted on the three implementations.
\<close>

named_theorems dis_simps \<open>effect of the dissemination operations\<close>

subsection \<open>Envelopes\<close>

type_synonym Matrix = "(NodeId, CausalContext) hmap"

definition make_crdt_op_envelope ::
  "string \<Rightarrow> NodeId \<Rightarrow> bytes \<Rightarrow> Matrix option \<Rightarrow> CausalContext option \<Rightarrow> Envelope" where
  "make_crdt_op_envelope crdt_id origin_node_id data knowledge_matrix requester_knowledge =
     \<lparr>payload = Some (PCrdtOp
        \<lparr>op_crdt_id = crdt_id,
         op_payload = data,
         op_origin_node_id = origin_node_id,
         op_requester_knowledge = map_option (\<lambda>k. \<lparr>vc_entries = k\<rparr>) requester_knowledge,
         op_knowledge_matrix =
           map_option (\<lambda>m. \<lparr>km_entries =
             hm_collect (map (\<lambda>(nid, clock_map). (nid, \<lparr>vc_entries = clock_map\<rparr>)) m)\<rparr>)
             knowledge_matrix\<rparr>)\<rparr>"

definition make_pull_request_envelope ::
  "string \<Rightarrow> NodeId \<Rightarrow> bool \<Rightarrow> CausalContext \<Rightarrow> Envelope" where
  "make_pull_request_envelope crdt_id origin_node_id gc_replica knowledge =
     \<lparr>payload = Some (PCrdtPullRequest
        \<lparr>pr_crdt_id = crdt_id,
         pr_origin_node_id = origin_node_id,
         pr_knowledge = Some \<lparr>vc_entries = knowledge\<rparr>,
         pr_gc_replica = gc_replica\<rparr>)\<rparr>"

subsection \<open>Strategy states\<close>

record 'h PushDissemination =
  dissemination_round :: u64
  peer_registry :: "'h PeerRegistry"

record 'h PullPeriodic = "'h PushDissemination" +
  interval :: nat

type_synonym 'h PushPull = "'h PullPeriodic"

definition push_new :: "'h PeerRegistry \<Rightarrow> 'h PushDissemination" where
  "push_new reg = \<lparr>dissemination_round = 0, peer_registry = reg\<rparr>"

definition pull_new :: "'h PeerRegistry \<Rightarrow> nat \<Rightarrow> 'h PullPeriodic" where
  "pull_new reg iv = \<lparr>dissemination_round = 0, peer_registry = reg, interval = iv\<rparr>"

definition push_pull_new :: "'h PeerRegistry \<Rightarrow> nat \<Rightarrow> 'h PushPull" where
  "push_pull_new reg iv = \<lparr>dissemination_round = 0, peer_registry = reg, interval = iv\<rparr>"

subsection \<open>Sending\<close>

definition choose_peer :: "nat \<Rightarrow> 'a list \<Rightarrow> 'a option" where
  "choose_peer rng xs = (if xs = [] then None else Some (xs ! (rng mod length xs)))"

definition next_round :: "('h, 'z) PushDissemination_scheme \<Rightarrow> ('h, 'z) PushDissemination_scheme" where
  "next_round st = st\<lparr>dissemination_round := dissemination_round st + 1\<rparr>"

definition send_envelope ::
  "('h, 'e) try_send \<Rightarrow> NodeId \<Rightarrow> Envelope \<Rightarrow> ('h, 'z) PushDissemination_scheme
     \<Rightarrow> ('h, 'z) PushDissemination_scheme" where
  "send_envelope try_send to_node envelope st =
     st\<lparr>peer_registry := fst (send_to_peer try_send (peer_registry st) to_node envelope)\<rparr>"

definition gossip ::
  "('h, 'e) try_send \<Rightarrow> nat \<Rightarrow> ('h, 'z) PushDissemination_scheme \<Rightarrow> NodeId \<Rightarrow> string \<Rightarrow> bool
     \<Rightarrow> CausalContext \<Rightarrow> ('h, 'z) PushDissemination_scheme" where
  "gossip try_send rng st origin_node_id crdt_id gc_replica knowledge =
     (let envelope = make_pull_request_envelope crdt_id origin_node_id gc_replica knowledge in
      case choose_peer rng (peer_ids (peer_registry st)) of
        Some random_peer_id \<Rightarrow> send_envelope try_send random_peer_id envelope (next_round st)
      | None \<Rightarrow> st)"

subsection \<open>Push\<close>

definition push_push_version_vector ::
  "('h, 'e) try_send \<Rightarrow> nat \<Rightarrow> 'h PushDissemination \<Rightarrow> NodeId \<Rightarrow> string \<Rightarrow> bool
     \<Rightarrow> CausalContext \<Rightarrow> 'h PushDissemination" where
  "push_push_version_vector try_send rng st origin_node_id crdt_id gc_replica knowledge =
     gossip try_send rng st origin_node_id crdt_id gc_replica knowledge"

definition push_on_post_merge ::
  "('h, 'e) try_send \<Rightarrow> nat \<Rightarrow> 'h PushDissemination \<Rightarrow> NodeId \<Rightarrow> string \<Rightarrow> bool
     \<Rightarrow> CausalContext \<Rightarrow> 'h PushDissemination" where
  "push_on_post_merge try_send rng st origin_node_id crdt_id gc_replica knowledge =
     push_push_version_vector try_send rng st origin_node_id crdt_id gc_replica knowledge"

definition push_respond_to_pull_request ::
  "('h, 'e) try_send \<Rightarrow> 'h PushDissemination \<Rightarrow> NodeId \<Rightarrow> string \<Rightarrow> NodeId \<Rightarrow> bytes option \<Rightarrow> bool
     \<Rightarrow> Matrix option \<Rightarrow> CausalContext option \<Rightarrow> 'h PushDissemination" where
  "push_respond_to_pull_request try_send st from_node crdt_id origin_node_id delta_payload
       gc_replica knowledge_matrix our_knowledge =
     (case (delta_payload, our_knowledge) of
        (Some data, Some knowledge) \<Rightarrow>
          send_envelope try_send from_node
            (make_crdt_op_envelope crdt_id origin_node_id data knowledge_matrix (Some knowledge))
            (next_round st)
      | (Some data, None) \<Rightarrow>
          send_envelope try_send from_node
            (make_crdt_op_envelope crdt_id origin_node_id data knowledge_matrix None) st
      | (None, Some knowledge) \<Rightarrow>
          send_envelope try_send from_node
            (make_pull_request_envelope crdt_id origin_node_id gc_replica knowledge)
            (next_round st)
      | (None, None) \<Rightarrow> st)"

text \<open>The trait's default \<^verbatim>\<open>do_pull_round\<close> and \<^verbatim>\<open>start_pull_loop\<close>, which the push strategy keeps.\<close>

definition default_do_pull_round ::
  "'d \<Rightarrow> NodeId \<Rightarrow> string \<Rightarrow> bool \<Rightarrow> CausalContext \<Rightarrow> 'd" where
  "default_do_pull_round st nid crdt_id gc_replica knowledge = st"

definition default_start_pull_loop :: "'d \<Rightarrow> nat option" where
  "default_start_pull_loop st = None"

subsection \<open>Periodic pull\<close>

definition pull_push_version_vector ::
  "'h PullPeriodic \<Rightarrow> NodeId \<Rightarrow> string \<Rightarrow> bool \<Rightarrow> CausalContext \<Rightarrow> 'h PullPeriodic" where
  "pull_push_version_vector st origin_node_id crdt_id gc_replica knowledge = st"

definition default_on_post_merge ::
  "'d \<Rightarrow> NodeId \<Rightarrow> string \<Rightarrow> bool \<Rightarrow> CausalContext \<Rightarrow> 'd" where
  "default_on_post_merge st origin_node_id crdt_id gc_replica knowledge = st"

definition pull_respond_to_pull_request ::
  "('h, 'e) try_send \<Rightarrow> 'h PullPeriodic \<Rightarrow> NodeId \<Rightarrow> string \<Rightarrow> NodeId \<Rightarrow> bytes option \<Rightarrow> bool
     \<Rightarrow> Matrix option \<Rightarrow> CausalContext option \<Rightarrow> 'h PullPeriodic" where
  "pull_respond_to_pull_request try_send st from_node crdt_id origin_node_id delta_payload
       gc_replica knowledge_matrix our_knowledge =
     (case delta_payload of
        Some data \<Rightarrow>
          send_envelope try_send from_node
            (make_crdt_op_envelope crdt_id origin_node_id data knowledge_matrix None) st
      | None \<Rightarrow> st)"

definition pull_do_pull_round ::
  "('h, 'e) try_send \<Rightarrow> nat \<Rightarrow> 'h PullPeriodic \<Rightarrow> NodeId \<Rightarrow> string \<Rightarrow> bool
     \<Rightarrow> CausalContext \<Rightarrow> 'h PullPeriodic" where
  "pull_do_pull_round try_send rng st nid crdt_id gc_replica knowledge =
     gossip try_send rng st nid crdt_id gc_replica knowledge"

definition pull_start_pull_loop :: "'h PullPeriodic \<Rightarrow> nat option" where
  "pull_start_pull_loop st = Some (interval st)"

subsection \<open>Push and pull\<close>

definition push_pull_push_version_vector ::
  "('h, 'e) try_send \<Rightarrow> nat \<Rightarrow> 'h PushPull \<Rightarrow> NodeId \<Rightarrow> string \<Rightarrow> bool
     \<Rightarrow> CausalContext \<Rightarrow> 'h PushPull" where
  "push_pull_push_version_vector try_send rng st origin_node_id crdt_id gc_replica knowledge =
     gossip try_send rng st origin_node_id crdt_id gc_replica knowledge"

definition push_pull_on_post_merge ::
  "('h, 'e) try_send \<Rightarrow> nat \<Rightarrow> 'h PushPull \<Rightarrow> NodeId \<Rightarrow> string \<Rightarrow> bool
     \<Rightarrow> CausalContext \<Rightarrow> 'h PushPull" where
  "push_pull_on_post_merge try_send rng st origin_node_id crdt_id gc_replica knowledge =
     push_pull_push_version_vector try_send rng st origin_node_id crdt_id gc_replica knowledge"

definition push_pull_respond_to_pull_request ::
  "('h, 'e) try_send \<Rightarrow> 'h PushPull \<Rightarrow> NodeId \<Rightarrow> string \<Rightarrow> NodeId \<Rightarrow> bytes option \<Rightarrow> bool
     \<Rightarrow> Matrix option \<Rightarrow> CausalContext option \<Rightarrow> 'h PushPull" where
  "push_pull_respond_to_pull_request try_send st from_node crdt_id origin_node_id delta_payload
       gc_replica knowledge_matrix our_knowledge =
     (case (delta_payload, our_knowledge) of
        (Some data, Some knowledge) \<Rightarrow>
          send_envelope try_send from_node
            (make_crdt_op_envelope crdt_id origin_node_id data knowledge_matrix (Some knowledge))
            (next_round st)
      | (Some data, None) \<Rightarrow>
          send_envelope try_send from_node
            (make_crdt_op_envelope crdt_id origin_node_id data knowledge_matrix None) st
      | (None, Some knowledge) \<Rightarrow>
          send_envelope try_send from_node
            (make_pull_request_envelope crdt_id origin_node_id gc_replica knowledge)
            (next_round st)
      | (None, None) \<Rightarrow> st)"

definition push_pull_do_pull_round ::
  "('h, 'e) try_send \<Rightarrow> nat \<Rightarrow> 'h PushPull \<Rightarrow> NodeId \<Rightarrow> string \<Rightarrow> bool
     \<Rightarrow> CausalContext \<Rightarrow> 'h PushPull" where
  "push_pull_do_pull_round try_send rng st nid crdt_id gc_replica knowledge =
     gossip try_send rng st nid crdt_id gc_replica knowledge"

definition push_pull_start_pull_loop :: "'h PushPull \<Rightarrow> nat option" where
  "push_pull_start_pull_loop st = Some (interval st)"

subsection \<open>The trait object\<close>

record 'd strategy =
  push_version_vector :: "nat \<Rightarrow> 'd \<Rightarrow> NodeId \<Rightarrow> string \<Rightarrow> bool \<Rightarrow> CausalContext \<Rightarrow> 'd"
  on_post_merge :: "nat \<Rightarrow> 'd \<Rightarrow> NodeId \<Rightarrow> string \<Rightarrow> bool \<Rightarrow> CausalContext \<Rightarrow> 'd"
  respond_to_pull_request :: "'d \<Rightarrow> NodeId \<Rightarrow> string \<Rightarrow> NodeId \<Rightarrow> bytes option \<Rightarrow> bool
    \<Rightarrow> Matrix option \<Rightarrow> CausalContext option \<Rightarrow> 'd"
  do_pull_round :: "nat \<Rightarrow> 'd \<Rightarrow> NodeId \<Rightarrow> string \<Rightarrow> bool \<Rightarrow> CausalContext \<Rightarrow> 'd"
  start_pull_loop :: "'d \<Rightarrow> nat option"
  get_dissemination_round :: "'d \<Rightarrow> u64"

definition push_strategy :: "('h, 'e) try_send \<Rightarrow> 'h PushDissemination strategy" where
  "push_strategy ts =
     \<lparr>push_version_vector = push_push_version_vector ts,
      on_post_merge = push_on_post_merge ts,
      respond_to_pull_request = push_respond_to_pull_request ts,
      do_pull_round = (\<lambda>_. default_do_pull_round),
      start_pull_loop = default_start_pull_loop,
      get_dissemination_round = dissemination_round\<rparr>"

definition pull_strategy :: "('h, 'e) try_send \<Rightarrow> 'h PullPeriodic strategy" where
  "pull_strategy ts =
     \<lparr>push_version_vector = (\<lambda>_. pull_push_version_vector),
      on_post_merge = (\<lambda>_. default_on_post_merge),
      respond_to_pull_request = pull_respond_to_pull_request ts,
      do_pull_round = pull_do_pull_round ts,
      start_pull_loop = pull_start_pull_loop,
      get_dissemination_round = dissemination_round\<rparr>"

definition push_pull_strategy :: "('h, 'e) try_send \<Rightarrow> 'h PushPull strategy" where
  "push_pull_strategy ts =
     \<lparr>push_version_vector = push_pull_push_version_vector ts,
      on_post_merge = push_pull_on_post_merge ts,
      respond_to_pull_request = push_pull_respond_to_pull_request ts,
      do_pull_round = push_pull_do_pull_round ts,
      start_pull_loop = push_pull_start_pull_loop,
      get_dissemination_round = dissemination_round\<rparr>"

subsection \<open>The contract of a strategy\<close>

text \<open>What a strategy sends is a list of addressed envelopes: \<open>advertise\<close> is one pull request to a
  random peer, \<open>reply\<close> is the answer to a pull request, carrying our own request only if the strategy
  pushes.\<close>

definition deliver :: "('h, 'e) try_send \<Rightarrow> (NodeId \<times> Envelope) list \<Rightarrow> 'h PeerRegistry \<Rightarrow> 'h PeerRegistry" where
  "deliver ts msgs reg = fold (\<lambda>(p, e) r. fst (send_to_peer ts r p e)) msgs reg"

definition advertise :: "nat \<Rightarrow> 'h PeerRegistry \<Rightarrow> Envelope \<Rightarrow> (NodeId \<times> Envelope) list" where
  "advertise rng reg e = (case choose_peer rng (peer_ids reg) of None \<Rightarrow> [] | Some p \<Rightarrow> [(p, e)])"

definition reply ::
  "bool \<Rightarrow> NodeId \<Rightarrow> string \<Rightarrow> NodeId \<Rightarrow> bytes option \<Rightarrow> bool \<Rightarrow> Matrix option
     \<Rightarrow> CausalContext option \<Rightarrow> (NodeId \<times> Envelope) list" where
  "reply pushes from_node c orig delta g km ours =
     (case (delta, if pushes then ours else None) of
        (Some data, vv) \<Rightarrow> [(from_node, make_crdt_op_envelope c orig data km vv)]
      | (None, Some k) \<Rightarrow> [(from_node, make_pull_request_envelope c orig g k)]
      | (None, None) \<Rightarrow> [])"

text \<open>At most one peer's channel differs, and no peer appears, disappears or changes its flag.\<close>

definition at_most_one_peer :: "'h PeerRegistry \<Rightarrow> 'h PeerRegistry \<Rightarrow> bool" where
  "at_most_one_peer r r' \<longleftrightarrow>
     (\<exists>p. \<forall>q. (q \<noteq> p \<longrightarrow> registry_get r' q = registry_get r q) \<and>
        map_option fst (registry_get r' q) = map_option fst (registry_get r q))"

lemma at_most_one_peer_deliver:
  assumes "length msgs \<le> 1"
  shows "at_most_one_peer r (deliver ts msgs r)"
proof (cases msgs)
  case (Cons m ms)
  then obtain p e where "msgs = [(p, e)]" using assms by (cases m) auto
  then show ?thesis
    unfolding at_most_one_peer_def
    by (intro exI [of _ p]) (simp add: deliver_def gc_flag_send, simp add: registry_get_send)
qed (simp add: at_most_one_peer_def deliver_def)

lemma length_advertise: "length (advertise rng r e) \<le> 1"
  by (simp add: advertise_def split: option.splits)

locale dissemination =
  fixes ts :: "('h, 'e) try_send"
    and S :: "'d strategy"
    and reg :: "'d \<Rightarrow> 'h PeerRegistry"
    and pushes pulls :: bool
  assumes reg_push: "reg (push_version_vector S rng d orig c g k) =
      deliver ts (if pushes then advertise rng (reg d) (make_pull_request_envelope c orig g k) else []) (reg d)"
    and reg_merged: "reg (on_post_merge S rng d orig c g k) =
      deliver ts (if pushes then advertise rng (reg d) (make_pull_request_envelope c orig g k) else []) (reg d)"
    and reg_pull: "reg (do_pull_round S rng d orig c g k) =
      deliver ts (if pulls then advertise rng (reg d) (make_pull_request_envelope c orig g k) else []) (reg d)"
    and reg_respond: "reg (respond_to_pull_request S d n c orig delta g km ours) =
      deliver ts (reply pushes n c orig delta g km ours) (reg d)"
    and round_push: "get_dissemination_round S (push_version_vector S rng d orig c g k) =
      get_dissemination_round S d + of_bool (pushes \<and> peer_ids (reg d) \<noteq> [])"
    and round_merged: "get_dissemination_round S (on_post_merge S rng d orig c g k) =
      get_dissemination_round S d + of_bool (pushes \<and> peer_ids (reg d) \<noteq> [])"
    and round_pull: "get_dissemination_round S (do_pull_round S rng d orig c g k) =
      get_dissemination_round S d + of_bool (pulls \<and> peer_ids (reg d) \<noteq> [])"
    and round_respond: "get_dissemination_round S (respond_to_pull_request S d n c orig delta g km ours) =
      get_dissemination_round S d + of_bool (pushes \<and> ours \<noteq> None)"
    and ticker: "start_pull_loop S d \<noteq> None \<longleftrightarrow> pulls"
begin

lemma length_reply: "length (reply pushes n c orig delta g km ours) \<le> 1"
  by (simp add: reply_def split: option.splits)

lemma peers_of_reply: "(p, e) \<in> set (reply pushes n c orig delta g km ours) \<Longrightarrow> p = n"
  by (auto simp: reply_def split: option.splits if_splits)

lemma data_always_answered:
  "(n, make_crdt_op_envelope c orig data km (if pushes then ours else None))
     \<in> set (reply pushes n c orig (Some data) g km ours)"
  by (simp add: reply_def)

lemma same_flags_push:
  "map_option fst (registry_get (deliver ts msgs r) p) = map_option fst (registry_get r p)"
  by (induction msgs arbitrary: r) (auto simp: deliver_def gc_flag_send)

lemma fanout:
  "at_most_one_peer (reg d) (reg (push_version_vector S rng d orig c g k))"
  "at_most_one_peer (reg d) (reg (on_post_merge S rng d orig c g k))"
  "at_most_one_peer (reg d) (reg (do_pull_round S rng d orig c g k))"
  "at_most_one_peer (reg d) (reg (respond_to_pull_request S d n c orig delta g km ours))"
  unfolding reg_push reg_merged reg_pull reg_respond
  by (intro at_most_one_peer_deliver; simp add: length_advertise length_reply del: One_nat_def)+

lemma gc_flags_kept:
  "map_option fst (registry_get (reg (push_version_vector S rng d orig c g k)) p)
     = map_option fst (registry_get (reg d) p)"
  "map_option fst (registry_get (reg (on_post_merge S rng d orig c g k)) p)
     = map_option fst (registry_get (reg d) p)"
  "map_option fst (registry_get (reg (do_pull_round S rng d orig c g k)) p)
     = map_option fst (registry_get (reg d) p)"
  "map_option fst (registry_get (reg (respond_to_pull_request S d n c orig delta g km ours)) p)
     = map_option fst (registry_get (reg d) p)"
  by (simp_all add: reg_push reg_merged reg_pull reg_respond same_flags_push)

end

lemma set_advertise:
  "(p, e') \<in> set (advertise rng r e) \<Longrightarrow> e' = e \<and> p \<in> set (peer_ids r)"
  by (auto simp: advertise_def choose_peer_def split: option.splits if_splits)

lemma advertise_nonempty: "advertise rng r e \<noteq> [] \<longleftrightarrow> peer_ids r \<noteq> []"
  by (auto simp: advertise_def choose_peer_def split: option.splits)

lemma deliver_simps [simp]:
  "deliver ts [] r = r" "deliver ts ((p, e) # ms) r = deliver ts ms (fst (send_to_peer ts r p e))"
  by (simp_all add: deliver_def)

lemma next_round_simps [simp]:
  "dissemination_round (next_round st) = dissemination_round st + 1"
  "peer_registry (next_round st) = peer_registry st"
  by (simp_all add: next_round_def)

lemma send_envelope_simps [simp]:
  "dissemination_round (send_envelope ts n e st) = dissemination_round st"
  "peer_registry (send_envelope ts n e st) = fst (send_to_peer ts (peer_registry st) n e)"
  by (simp_all add: send_envelope_def)

lemma gossip_simps [simp]:
  "peer_registry (gossip ts rng st orig c g k) =
     deliver ts (advertise rng (peer_registry st) (make_pull_request_envelope c orig g k)) (peer_registry st)"
  "dissemination_round (gossip ts rng st orig c g k) =
     dissemination_round st + of_bool (peer_ids (peer_registry st) \<noteq> [])"
  by (auto simp: gossip_def advertise_def choose_peer_def Let_def)

lemmas push_defs = push_strategy_def push_push_version_vector_def push_on_post_merge_def
  push_respond_to_pull_request_def default_do_pull_round_def default_start_pull_loop_def

lemmas pull_defs = pull_strategy_def pull_push_version_vector_def default_on_post_merge_def
  pull_respond_to_pull_request_def pull_do_pull_round_def pull_start_pull_loop_def

lemmas push_pull_defs = push_pull_strategy_def push_pull_push_version_vector_def
  push_pull_on_post_merge_def push_pull_respond_to_pull_request_def push_pull_do_pull_round_def
  push_pull_start_pull_loop_def

interpretation push: dissemination ts "push_strategy ts" peer_registry True False
  for ts :: "('h, 'e) try_send"
  by unfold_locales (auto simp: push_defs reply_def split: option.splits)

interpretation pull: dissemination ts "pull_strategy ts" peer_registry False True
  for ts :: "('h, 'e) try_send"
  by unfold_locales (auto simp: pull_defs reply_def split: option.splits)

interpretation push_pull: dissemination ts "push_pull_strategy ts" peer_registry True True
  for ts :: "('h, 'e) try_send"
  by unfold_locales (auto simp: push_pull_defs reply_def split: option.splits)

lemma choose_peer_reaches: "x \<in> set xs \<Longrightarrow> \<exists>rng. choose_peer rng xs = Some x"
  by (metis choose_peer_def in_set_conv_nth length_pos_if_in_set list.size(3) mod_less not_less_zero)

subsection \<open>Properties\<close>

text \<open>Fan-out: under every strategy a local write, a merge, a periodic round and an answer each touch the
  channel of at most one peer and never change who is connected or who collects garbage.  The
  advertisement of a push or push-pull replica is a pull request with its whole knowledge, sent to one
  connected peer, and every connected peer is the target for some random choice.\<close>
theorem gossip_fanout:
  "at_most_one_peer (peer_registry d) (peer_registry (push_version_vector (push_strategy ts) rng d orig c g k)) \<and>
   at_most_one_peer (peer_registry d) (peer_registry (on_post_merge (push_strategy ts) rng d orig c g k)) \<and>
   at_most_one_peer (peer_registry d) (peer_registry (respond_to_pull_request (push_strategy ts) d n c orig delta g km ours)) \<and>
   at_most_one_peer (peer_registry d') (peer_registry (do_pull_round (pull_strategy ts) rng d' orig c g k)) \<and>
   at_most_one_peer (peer_registry d') (peer_registry (respond_to_pull_request (pull_strategy ts) d' n c orig delta g km ours)) \<and>
   at_most_one_peer (peer_registry d') (peer_registry (push_version_vector (push_pull_strategy ts) rng d' orig c g k)) \<and>
   at_most_one_peer (peer_registry d') (peer_registry (on_post_merge (push_pull_strategy ts) rng d' orig c g k)) \<and>
   at_most_one_peer (peer_registry d') (peer_registry (do_pull_round (push_pull_strategy ts) rng d' orig c g k)) \<and>
   at_most_one_peer (peer_registry d') (peer_registry (respond_to_pull_request (push_pull_strategy ts) d' n c orig delta g km ours)) \<and>
   {peer_registry (push_version_vector (push_pull_strategy ts) rng d' orig c g k) | rng. True} =
     (if peer_ids (peer_registry d') = [] then {peer_registry d'}
      else {fst (send_to_peer ts (peer_registry d') p (make_pull_request_envelope c orig g k)) | p.
              p \<in> set (peer_ids (peer_registry d'))})"
proof -
  have "{deliver ts (advertise rng r e) r | rng. True} =
      (if peer_ids r = [] then {r} else {fst (send_to_peer ts r p e) | p. p \<in> set (peer_ids r)})"
    (is "?L = ?R") for r e
  proof (cases "peer_ids r = []")
    case False
    have "\<exists>rng. advertise rng r e = [(p, e)]" if "p \<in> set (peer_ids r)" for p
      using choose_peer_reaches [OF that] by (metis advertise_def option.simps(5))
    then have "\<exists>rng. deliver ts (advertise rng r e) r = fst (send_to_peer ts r p e)"
      if "p \<in> set (peer_ids r)" for p
      using that by (metis deliver_simps)
    moreover have "\<exists>p \<in> set (peer_ids r). advertise rng r e = [(p, e)]" for rng
      using False by (auto simp: advertise_def choose_peer_def)
    then have "\<exists>p \<in> set (peer_ids r). deliver ts (advertise rng r e) r = fst (send_to_peer ts r p e)" for rng
      by (metis deliver_simps)
    ultimately show ?thesis using False by (auto, metis+)
  qed (simp add: advertise_def choose_peer_def)
  then show ?thesis
    by (intro conjI push.fanout pull.fanout push_pull.fanout) (simp add: push_pull.reg_push)
qed

text \<open>Answers: a requester that is connected is sent the delta whenever there is one, by every
  strategy; the push and push-pull strategies add their own request to it, or send the request
  alone when there is no delta; the pull-only strategy never asks back; with nothing to say nothing
  is sent.  The round counter moves exactly when a request goes out.\<close>
theorem answer_to_pull_request:
  assumes "registry_get (peer_registry d) n = Some (g', h)" "registry_get (peer_registry d') n = Some (g', h)"
  shows "registry_get (peer_registry (respond_to_pull_request (push_pull_strategy ts) d n c orig (Some data) g km ours)) n
           = Some (g', case ts h (make_crdt_op_envelope c orig data km ours) of Inl _ \<Rightarrow> h | Inr h' \<Rightarrow> h') \<and>
         registry_get (peer_registry (respond_to_pull_request (push_strategy ts) d' n c orig (Some data) g km ours)) n
           = Some (g', case ts h (make_crdt_op_envelope c orig data km ours) of Inl _ \<Rightarrow> h | Inr h' \<Rightarrow> h') \<and>
         registry_get (peer_registry (respond_to_pull_request (pull_strategy ts) d n c orig (Some data) g km ours)) n
           = Some (g', case ts h (make_crdt_op_envelope c orig data km None) of Inl _ \<Rightarrow> h | Inr h' \<Rightarrow> h') \<and>
         registry_get (peer_registry (respond_to_pull_request (push_pull_strategy ts) d n c orig None g km (Some k))) n
           = Some (g', case ts h (make_pull_request_envelope c orig g k) of Inl _ \<Rightarrow> h | Inr h' \<Rightarrow> h') \<and>
         respond_to_pull_request (push_pull_strategy ts) d n c orig None g km None = d \<and>
         respond_to_pull_request (pull_strategy ts) d n c orig None g km ours = d \<and>
         dissemination_round (respond_to_pull_request (push_pull_strategy ts) d n c orig delta g km ours)
           = dissemination_round d + of_bool (ours \<noteq> None)"
proof (intro conjI)
  show "dissemination_round (respond_to_pull_request (push_pull_strategy ts) d n c orig delta g km ours)
      = dissemination_round d + of_bool (ours \<noteq> None)"
    using push_pull.round_respond [of ts d n c orig delta g km ours]
    by (simp add: push_pull_strategy_def)
qed (use assms in \<open>simp_all add: push.reg_respond pull.reg_respond push_pull.reg_respond reply_def
      registry_get_send\<close>, simp_all add: push_pull_defs pull_defs)

theorem answer_to_pull_request_witness:
  "registry_get (peer_registry (respond_to_pull_request
      (push_pull_strategy (\<lambda>h e. if length h < 2 then Inr (h @ [e]) else Inl ()))
      (push_pull_new [(''b'', False, [])] 1) ''b'' ''c'' ''a'' (Some [1]) True None (Some [(''a'', 1)]))) ''b''
     = Some (False, [make_crdt_op_envelope ''c'' ''a'' [1] None (Some [(''a'', 1)])])"
  using answer_to_pull_request [of "push_pull_new [(''b'', False, [])] 1" "''b''" False "[]"
      "push_new [(''b'', False, [])]" "\<lambda>h e. if length h < 2 then Inr (h @ [e]) else Inl ()"
      "''c''" "''a''" "[1]" True None "Some [(''a'', 1)]" "[]" "None"]
  by (simp add: push_pull_new_def push_new_def registry_get_def)

end
