(* ===== verification/Codec_Models.thy ===== *)
theory Codec_Models
  imports GC_Storage Wire
begin

text \<open>
  A concrete codec for the protobuf messages the properties encode.  The protobuf library is an
  argument of the model; this codec keeps its contract, so the hypotheses about it can hold.
\<close>

definition dot_to_nats :: "ProtoDot \<Rightarrow> nat list \<times> nat" where
  "dot_to_nats d = (text_to_nats (pd_node_id d), unat (pd_counter d))"

definition nats_to_dot :: "nat list \<times> nat \<Rightarrow> ProtoDot" where
  "nats_to_dot x = \<lparr>pd_node_id = nats_to_text (fst x), pd_counter = word_of_nat (snd x)\<rparr>"

lemma nats_to_dot_inverse [simp]: "nats_to_dot (dot_to_nats d) = d"
  by (simp add: dot_to_nats_def nats_to_dot_def)

definition mem_pb_enc :: "ProtoOrSetDelta \<Rightarrow> bytes" where
  "mem_pb_enc m = replicate (to_nat
     (map (\<lambda>a. (map unat (ped_element a), map_option dot_to_nats (ped_dot a))) (pos_adds m),
      map (\<lambda>t. (map_option dot_to_nats (pdp_add_dot t), map_option dot_to_nats (pdp_remove_dot t)))
        (pos_tombstones m),
      map (\<lambda>(k, v). (text_to_nats k, unat v)) (pos_context m),
      text_to_nats (pos_dot_node m), unat (pos_dot_counter m))) 0"

definition mem_pb_dec :: "bytes \<Rightarrow> (wire_error, ProtoOrSetDelta) result" where
  "mem_pb_dec b = (case from_nat (length b) of (as, ts, ctx, n, c) \<Rightarrow>
     Inr \<lparr>pos_adds = map (\<lambda>(e, d). \<lparr>ped_element = map word_of_nat e, ped_dot = map_option nats_to_dot d\<rparr>) as,
          pos_tombstones = map (\<lambda>(a, r). \<lparr>pdp_add_dot = map_option nats_to_dot a,
                                          pdp_remove_dot = map_option nats_to_dot r\<rparr>) ts,
          pos_context = map (\<lambda>(k, v). (nats_to_text k, word_of_nat v)) ctx,
          pos_dot_node = nats_to_text n, pos_dot_counter = word_of_nat c\<rparr>)"

lemma mem_pb_roundtrip [simp]: "mem_pb_dec (mem_pb_enc m) = Inr m"
proof -
  have bytes: "map word_of_nat (map unat ws) = ws" for ws :: bytes
    by (simp add: comp_def)
  have dots: "map_option nats_to_dot (map_option dot_to_nats d) = d" for d
    by (cases d) simp_all
  have pairs: "map (\<lambda>(k, v). (nats_to_text k, word_of_nat v)) (map (\<lambda>(k, v). (text_to_nats k, unat v)) ctx) = ctx"
    for ctx :: "(string \<times> u64) list"
    by (induction ctx) auto
  have adds: "map (\<lambda>(e, d). \<lparr>ped_element = map word_of_nat e, ped_dot = map_option nats_to_dot d\<rparr>)
      (map (\<lambda>a. (map unat (ped_element a), map_option dot_to_nats (ped_dot a))) as) = as" for as
    by (induction as) (auto simp del: map_map option.map_comp simp: bytes dots)
  have tombs: "map (\<lambda>(a, r). \<lparr>pdp_add_dot = map_option nats_to_dot a, pdp_remove_dot = map_option nats_to_dot r\<rparr>)
      (map (\<lambda>t. (map_option dot_to_nats (pdp_add_dot t), map_option dot_to_nats (pdp_remove_dot t))) ts) = ts" for ts
    by (induction ts) (auto simp: dots simp del: option.map_comp)
  show ?thesis
    unfolding mem_pb_dec_def mem_pb_enc_def
    by (simp only: length_replicate from_nat_to_nat prod.case adds tombs pairs) simp
qed

lemma proto_equiv_refl [simp]: "proto_equiv m m"
  by (simp add: proto_equiv_def hm_eq_iff)

lemma mem_pb_documented: "\<exists>p. mem_pb_dec (mem_pb_enc m) = Inr p \<and> proto_equiv p m"
  by simp

end
