(* ===== verification/GC_Coordinator.thy ===== *)
theory GC_Coordinator
  imports GC_Storage Dissemination Codec_Models
begin

text \<open>
  The garbage-collection coordinator \<^verbatim>\<open>src/gc/coordinator.rs\<close>: the matrix clock, the stable
  timestamp, initiating a collection, observing an epoch change, and bootstrapping a new replica;
  and the trait \<^verbatim>\<open>DeltaCrdt\<close> of \<^verbatim>\<open>src/crdt/mod.rs\<close> it is generic in.

  The storage is the record \<open>G\<close> of the trait's methods and the membership the call \<open>members_now\<close>; both are
  arguments.  The registry is shared with the rest of the server and passed where it is read.  A
  handler returns its result, the state it leaves behind (an error does not undo what was done
  before it) and the new state of the world.  \<^verbatim>\<open>unwrap()\<close> on the matrix clock is \<^const>\<open>the\<close>; it is
  only reached in garbage-collecting replicas, where \<open>coordinator_inv\<close> says there is one.

  The two polling loops of the bootstrap take fuel; \<open>None\<close> means still polling.
\<close>

named_theorems gc_simps \<open>effect of the coordinator's operations\<close>

subsection \<open>The trait DeltaCrdt\<close>

record ('c, 'op, 'dl) DeltaCrdt =
  crdt_apply_local :: "'c \<Rightarrow> Dot \<Rightarrow> 'op \<Rightarrow> 'c"
  crdt_merge_delta :: "'c \<Rightarrow> 'dl \<Rightarrow> 'c"
  crdt_full_state :: "'c \<Rightarrow> DotVersionVector \<Rightarrow> 'dl"
  crdt_delta_since :: "'c \<Rightarrow> CausalContext \<Rightarrow> DotVersionVector \<Rightarrow> 'dl"
  crdt_perform_gc :: "'c \<Rightarrow> DotVersionVector \<Rightarrow> 'c"
  crdt_print_state :: "'c \<Rightarrow> string"
  crdt_print_internals :: "'c \<Rightarrow> string"
  crdt_get_random_element :: "'c \<Rightarrow> string option"
  crdt_encode_delta :: "'dl \<Rightarrow> bytes"
  crdt_decode_delta :: "bytes \<Rightarrow> (wire_error, 'dl) result"
  crdt_causal_context :: "'dl \<Rightarrow> CausalContext \<times> NodeId \<times> Counter"

text \<open>The derived \<^verbatim>\<open>Debug\<close> text of a dot, and those of the standard library's collections; the order of the
  entries is that of the iteration.\<close>

definition dot_debug :: "Dot \<Rightarrow> string" where
  "dot_debug d =
     ''Dot { node_id: '' @ string_debug (node_id d) @ '', counter: '' @ show_nat (unat (counter d)) @ '' }''"

definition set_debug :: "('a \<Rightarrow> string) \<Rightarrow> 'a list \<Rightarrow> string" where
  "set_debug debug xs = ''{'' @ join_with '', '' (map debug xs) @ ''}''"

definition map_debug :: "('k \<Rightarrow> string) \<Rightarrow> ('v \<Rightarrow> string) \<Rightarrow> ('k, 'v) hmap \<Rightarrow> string" where
  "map_debug debug_key debug_val m = set_debug (\<lambda>(k, v). debug_key k @ '': '' @ debug_val v) m"

definition pair_debug :: "('a \<Rightarrow> string) \<Rightarrow> ('b \<Rightarrow> string) \<Rightarrow> 'a \<times> 'b \<Rightarrow> string" where
  "pair_debug debug_fst debug_snd = (\<lambda>(a, b). ''('' @ debug_fst a @ '', '' @ debug_snd b @ '')'')"

definition orset_print_internals :: "('e \<Rightarrow> string) \<Rightarrow> 'e OrSet \<Rightarrow> string" where
  "orset_print_internals debug s =
     (let adds_text = join_with '', '' (map (pair_debug debug (set_debug dot_debug)) (adds s));
          tombstones_text = join_with '', '' (map (pair_debug dot_debug dot_debug) (tombstones s))
      in ''adds: ['' @ adds_text @ ''] | tombstones: ['' @ tombstones_text @ '']'')"

text \<open>\<^verbatim>\<open>impl DeltaCrdt for OrSet<String>\<close>; the protobuf codec is an argument.\<close>

definition or_set_crdt ::
  "(ProtoOrSetDelta \<Rightarrow> bytes) \<Rightarrow> (bytes \<Rightarrow> (wire_error, ProtoOrSetDelta) result)
     \<Rightarrow> (string OrSet, string OrSetOp, string OrSetDelta) DeltaCrdt" where
  "or_set_crdt pb_enc pb_dec =
     \<lparr>crdt_apply_local = apply_local,
      crdt_merge_delta = merge_delta,
      crdt_full_state = full_state,
      crdt_delta_since = delta_since,
      crdt_perform_gc = perform_gc,
      crdt_print_state = orset_print_state string_debug,
      crdt_print_internals = orset_print_internals string_debug,
      crdt_get_random_element = get_random_element id,
      crdt_encode_delta = encode_delta encode_elem pb_enc,
      crdt_decode_delta = decode_delta decode_elem pb_dec,
      crdt_causal_context = causal_context\<rparr>"

subsection \<open>State\<close>

datatype GcInitiationAbortReason = MembershipChange | NoProgress | ConcurrentInitiator

record GcCoordinator =
  gc_epoch :: u64
  gc_config :: GcConfig
  matrix_clock :: "Matrix option"

definition new_member_exists :: "NodeId list \<Rightarrow> NodeId list \<Rightarrow> bool" where
  "new_member_exists old new =
     (let old_set = hs_collect old in list_ex (\<lambda>n. n \<notin> set old_set) new)"

definition coordinator_new :: "GcConfig \<Rightarrow> GcCoordinator" where
  "coordinator_new config =
     \<lparr>gc_epoch = 0, gc_config = config, matrix_clock = (if gc_replica config then Some [] else None)\<rparr>"

definition coordinator_initiate_interval :: "GcCoordinator \<Rightarrow> nat option" where
  "coordinator_initiate_interval self = map_option initiate_interval (gc_replica_config (gc_config self))"

definition coordinator_observe_interval :: "GcCoordinator \<Rightarrow> nat" where
  "coordinator_observe_interval self = observe_interval (gc_config self)"

subsection \<open>The matrix clock\<close>

definition get_knowledge_matrix :: "GcCoordinator \<Rightarrow> 'h PeerRegistry \<Rightarrow> Matrix option" where
  "get_knowledge_matrix self registry =
     (if \<not> gc_replica (gc_config self) then None
      else (case matrix_clock self of
        None \<Rightarrow> None
      | Some mc \<Rightarrow>
          Some (fold (\<lambda>n km. case hm_get mc n of Some ctx \<Rightarrow> hm_insert n ctx km | None \<Rightarrow> km)
                 (get_all_non_gc_replicas registry) [])))"

definition matrix_debug :: "Matrix \<Rightarrow> string" where
  "matrix_debug = map_debug string_debug (map_debug string_debug (show_nat \<circ> unat))"

definition print_matrix_clock :: "GcCoordinator \<Rightarrow> string" where
  "print_matrix_clock self =
     (if \<not> gc_replica (gc_config self) then ''Matrix Clock: GC replica disabled''
      else ''Matrix Clock: '' @ matrix_debug (the (matrix_clock self)))"

definition update_row :: "NodeId \<times> CausalContext \<Rightarrow> Matrix \<Rightarrow> Matrix" where
  "update_row = (\<lambda>(n, incoming_context) mc.
     case hm_get mc n of
       Some current \<Rightarrow> hm_insert n (vv_join incoming_context current) mc
     | None \<Rightarrow> hm_insert n incoming_context mc)"

definition update_matrix_clock :: "GcCoordinator \<Rightarrow> Matrix \<Rightarrow> GcCoordinator" where
  "update_matrix_clock self knowledge_matrix =
     (if \<not> gc_replica (gc_config self) then self
      else self\<lparr>matrix_clock := Some (fold update_row knowledge_matrix (the (matrix_clock self)))\<rparr>)"

definition remove_matrix_clock_row :: "GcCoordinator \<Rightarrow> NodeId \<Rightarrow> GcCoordinator" where
  "remove_matrix_clock_row self nid =
     (if \<not> gc_replica (gc_config self) then self
      else self\<lparr>matrix_clock := Some (hm_remove nid (the (matrix_clock self)))\<rparr>)"

definition remove_matrix_clock_column :: "GcCoordinator \<Rightarrow> NodeId \<Rightarrow> GcCoordinator" where
  "remove_matrix_clock_column self nid =
     (if \<not> gc_replica (gc_config self) then self
      else self\<lparr>matrix_clock := Some (hm_map_values (hm_remove nid) (the (matrix_clock self)))\<rparr>)"

subsection \<open>The stable timestamp\<close>

text \<open>The loop over the members, with its early return: the running meet and the running join (which
  the code computes and does not use).\<close>

fun meet_members ::
  "Matrix \<Rightarrow> NodeId \<Rightarrow> CausalContext \<Rightarrow> NodeId list \<Rightarrow> CausalContext option \<Rightarrow> CausalContext option
     \<Rightarrow> (CausalContext option \<times> CausalContext option) option" where
  "meet_members mc self_id self_clock [] v_live v_merge = Some (v_live, v_merge)"
| "meet_members mc self_id self_clock (p # ps) v_live v_merge =
     (case (if p = self_id then Some self_clock else hm_get mc p) of
        None \<Rightarrow> None
      | Some ctx \<Rightarrow>
          meet_members mc self_id self_clock ps
            (Some (case v_live of None \<Rightarrow> ctx | Some acc \<Rightarrow> vv_meet acc ctx))
            (Some (case v_merge of None \<Rightarrow> ctx | Some acc \<Rightarrow> vv_join acc ctx)))"

definition compute_stable_timestamp ::
  "GcCoordinator \<Rightarrow> NodeId \<Rightarrow> NodeId list \<Rightarrow> (NodeId, Counter) hmap \<Rightarrow> CausalContext
     \<Rightarrow> CausalContext \<times> NodeId hset" where
  "compute_stable_timestamp self self_id members final_dots self_clock =
     (case matrix_clock self of
        None \<Rightarrow> ([], [])
      | Some mc \<Rightarrow>
     (case meet_members mc self_id self_clock members None None of
        None \<Rightarrow> ([], [])
      | Some (v_live0, v_merge) \<Rightarrow>
          let v_live = unwrap_or v_live0 [];
              non_members = hs_collect (filter (\<lambda>p. p \<notin> set (hs_collect members)) (hm_keys mc @ hm_keys v_live));
              obsolete = filter (\<lambda>p. hm_get final_dots p = hm_get v_live p) non_members;
              pending = filter (\<lambda>p. hm_get final_dots p \<noteq> hm_get v_live p) non_members
          in (fold (\<lambda>p v. case hm_get mc p of Some ctx \<Rightarrow> vv_meet v ctx | None \<Rightarrow> v) pending v_live,
              obsolete)))"

subsection \<open>Observing an epoch change\<close>

type_synonym 'c gc_state = "GcCoordinator \<times> 'c \<times> DotVersionVector"

definition forget_observed ::
  "NodeId \<Rightarrow> GcCoordinator \<times> DotVersionVector \<Rightarrow> GcCoordinator \<times> DotVersionVector" where
  "forget_observed = (\<lambda>p (self, dvv).
     (if gc_replica (gc_config self) then remove_matrix_clock_column (remove_matrix_clock_row self p) p else self,
      dvv_remove p dvv))"

definition observe_epoch_change ::
  "('c, 'op, 'dl) DeltaCrdt \<Rightarrow> 's GcStorage \<Rightarrow> NodeId \<Rightarrow> 'c gc_state \<Rightarrow> 's
     \<Rightarrow> (anyhow, bool) result \<times> 'c gc_state \<times> 's" where
  "observe_epoch_change C G self_id st s =
     (let (self, crdt, dvv) = st in
      case read_epoch_metadata G s of
        (Inl e, s1) \<Rightarrow> (Inl e, st, s1)
      | (Inr md, s1) \<Rightarrow>
          if em_epoch md \<le> gc_epoch self then (Inr False, st, s1)
          else
            let frontier = frontier_dvv self_id (em_v_stable md);
                crdt' = crdt_perform_gc C crdt frontier;
                (self', dvv') = fold forget_observed (em_obsolete_dots md)
                                  (self\<lparr>gc_epoch := em_epoch md\<rparr>, dvv)
            in (Inr True, (self', crdt', dvv'), s1))"

subsection \<open>Initiating a collection\<close>

definition forget_obsolete ::
  "NodeId \<Rightarrow> GcCoordinator \<times> DotVersionVector \<times> CausalContext
     \<Rightarrow> GcCoordinator \<times> DotVersionVector \<times> CausalContext" where
  "forget_obsolete = (\<lambda>p (self, dvv, v_stable).
     (remove_matrix_clock_column (remove_matrix_clock_row self p) p, dvv_remove p dvv, hm_remove p v_stable))"

definition gc_commit ::
  "('c, 'op, 'dl) DeltaCrdt \<Rightarrow> 's GcStorage \<Rightarrow> NodeId \<Rightarrow> u64 \<Rightarrow> CausalContext \<Rightarrow> NodeId hset \<Rightarrow> 'c gc_state \<Rightarrow> 's
     \<Rightarrow> (anyhow, GcInitiationAbortReason option) result \<times> 'c gc_state \<times> 's" where
  "gc_commit C G self_id n v_stable0 obsolete st s =
     (let (self, crdt, dvv) = st;
          (self', dvv', v_stable) = fold forget_obsolete obsolete (self, dvv, v_stable0);
          frontier = frontier_dvv self_id v_stable;
          crdt' = crdt_perform_gc C crdt frontier;
          gc_state_payload = crdt_encode_delta C (crdt_full_state C crdt' dvv');
          epoch_metadata = \<lparr>em_epoch = n, em_v_stable = v_stable, em_obsolete_dots = obsolete\<rparr>;
          epoch_state = \<lparr>es_epoch = n, es_initiator_clock = effective_map dvv', es_state_payload = gc_state_payload\<rparr>
      in case write_epoch_state G epoch_state s of
           (Inl e, s1) \<Rightarrow> (Inl e, (self', crdt', dvv'), s1)
         | (Inr _, s1) \<Rightarrow> (case write_epoch_metadata G epoch_metadata s1 of
             (Inl e, s2) \<Rightarrow> (Inl e, (self', crdt', dvv'), s2)
           | (Inr _, s2) \<Rightarrow>
               (Inr None, (self'\<lparr>gc_epoch := n\<rparr>, crdt', dvv'), ignore_err (release_gc_intent G n) s2)))"

definition initiate_gc ::
  "('c, 'op, 'dl) DeltaCrdt \<Rightarrow> 's GcStorage \<Rightarrow> ('s, anyhow, NodeId list) call \<Rightarrow> NodeId \<Rightarrow> 'c gc_state \<Rightarrow> 's
     \<Rightarrow> (anyhow, GcInitiationAbortReason option) result \<times> 'c gc_state \<times> 's" where
  "initiate_gc C G members_now self_id st s =
     (case read_epoch_metadata G s of
        (Inl e, s1) \<Rightarrow> (Inl e, st, s1)
      | (Inr md, s1) \<Rightarrow>
     let n = em_epoch md + 1 in
     (case members_now s1 of
        (Inl e, s2) \<Rightarrow> (Inl e, st, s2)
      | (Inr m0, s2) \<Rightarrow>
     (case claim_gc_intent G n self_id s2 of
        (Inl e, s3) \<Rightarrow> (Inl e, st, s3)
      | (Inr claimed, s3) \<Rightarrow>
     if \<not> claimed then (Inr (Some ConcurrentInitiator), st, s3)
     else
     (case members_now s3 of
        (Inl e, s4) \<Rightarrow> (Inl e, st, s4)
      | (Inr m1, s4) \<Rightarrow>
     if new_member_exists m0 m1
     then (Inr (Some MembershipChange), st, ignore_err (release_gc_intent G n) s4)
     else
     (case read_final_dots G s4 of
        (Inl e, s5) \<Rightarrow> (Inl e, st, s5)
      | (Inr final_dots, s5) \<Rightarrow>
     let (self, crdt, dvv) = st;
         (v_stable, obsolete) = compute_stable_timestamp self self_id m1 final_dots (effective_map dvv)
     in if vv_leq v_stable (em_v_stable md)
        then (Inr (Some NoProgress), st, ignore_err (release_gc_intent G n) s5)
        else gc_commit C G self_id n v_stable obsolete st s5)))))"

subsection \<open>Bootstrapping a new replica\<close>

fun await_intent ::
  "nat \<Rightarrow> 's GcStorage \<Rightarrow> u64 \<Rightarrow> u64 \<Rightarrow> 's \<Rightarrow> ((anyhow, u64) result \<times> 's) option" where
  "await_intent 0 G current_epoch next_epoch s = None"
| "await_intent (Suc fuel) G current_epoch next_epoch s =
     (case read_epoch_metadata G s of
        (Inl e, s1) \<Rightarrow> Some (Inl e, s1)
      | (Inr md, s1) \<Rightarrow> (case read_gc_intent G next_epoch s1 of
          (Inl e, s2) \<Rightarrow> Some (Inl e, s2)
        | (Inr intent, s2) \<Rightarrow>
            if em_epoch md > current_epoch \<or> intent = None then Some (Inr (em_epoch md), s2)
            else await_intent fuel G current_epoch next_epoch s2))"

fun await_state ::
  "nat \<Rightarrow> 's GcStorage \<Rightarrow> u64 \<Rightarrow> 's \<Rightarrow> ((anyhow, EpochState) result \<times> 's) option" where
  "await_state 0 G current_epoch s = None"
| "await_state (Suc fuel) G current_epoch s =
     (case read_epoch_state G s of
        (Inl e, s1) \<Rightarrow> Some (Inl e, s1)
      | (Inr es, s1) \<Rightarrow> if es_epoch es = current_epoch then Some (Inr es, s1)
                      else await_state fuel G current_epoch s1)"

definition install_snapshot ::
  "('c, 'op, 'dl) DeltaCrdt \<Rightarrow> NodeId \<Rightarrow> u64 \<Rightarrow> EpochState \<Rightarrow> 'c gc_state
     \<Rightarrow> (anyhow, unit) result \<times> 'c gc_state" where
  "install_snapshot C self_id current_epoch es st =
     (let (self, crdt, dvv) = st; frontier = frontier_dvv self_id (es_initiator_clock es) in
      case crdt_decode_delta C (es_state_payload es) of
        Inl _ \<Rightarrow> (Inl DeltaDecodeFailed, st)
      | Inr delta \<Rightarrow>
          (Inr (), (self\<lparr>gc_epoch := current_epoch\<rparr>, crdt_merge_delta C crdt delta, dvv_merge dvv frontier)))"

definition new_replica_bootstrap ::
  "nat \<Rightarrow> ('c, 'op, 'dl) DeltaCrdt \<Rightarrow> 's GcStorage \<Rightarrow> NodeId \<Rightarrow> 'c gc_state \<Rightarrow> 's
     \<Rightarrow> ((anyhow, unit) result \<times> 'c gc_state \<times> 's) option" where
  "new_replica_bootstrap fuel C G self_id st s =
     (case read_epoch_metadata G s of
        (Inl e, s1) \<Rightarrow> Some (Inl e, st, s1)
      | (Inr md, s1) \<Rightarrow>
     let next_epoch = em_epoch md + 1 in
     (case read_gc_intent G next_epoch s1 of
        (Inl e, s2) \<Rightarrow> Some (Inl e, st, s2)
      | (Inr intent, s2) \<Rightarrow>
     (case (if intent \<noteq> None then await_intent fuel G (em_epoch md) next_epoch s2
            else Some (Inr (em_epoch md), s2)) of
        None \<Rightarrow> None
      | Some (Inl e, s3) \<Rightarrow> Some (Inl e, st, s3)
      | Some (Inr current_epoch, s3) \<Rightarrow>
     (case await_state fuel G current_epoch s3 of
        None \<Rightarrow> None
      | Some (Inl e, s4) \<Rightarrow> Some (Inl e, st, s4)
      | Some (Inr es, s4) \<Rightarrow>
          (case install_snapshot C self_id current_epoch es st of
             (r, st') \<Rightarrow> Some (r, st', s4))))))"

subsection \<open>The matrix clock invariant\<close>

definition matrix_ok :: "Matrix \<Rightarrow> bool" where
  "matrix_ok mc \<longleftrightarrow> hm_ok mc \<and> (\<forall>p ctx. map_of mc p = Some ctx \<longrightarrow> hm_ok ctx)"

definition coordinator_inv :: "GcCoordinator \<Rightarrow> bool" where
  "coordinator_inv self \<longleftrightarrow>
     (gc_replica (gc_config self) \<longleftrightarrow> matrix_clock self \<noteq> None) \<and>
     (\<forall>mc. matrix_clock self = Some mc \<longrightarrow> matrix_ok mc)"

text \<open>The row of a node, if there is one.\<close>

definition row :: "GcCoordinator \<Rightarrow> NodeId \<Rightarrow> CausalContext option" where
  "row self p = (case matrix_clock self of None \<Rightarrow> None | Some mc \<Rightarrow> hm_get mc p)"

lemma coordinator_inv_new [simp]: "coordinator_inv (coordinator_new config)"
  by (simp add: coordinator_inv_def coordinator_new_def matrix_ok_def)

lemma coordinator_inv_row: "coordinator_inv self \<Longrightarrow> row self p = Some ctx \<Longrightarrow> hm_ok ctx"
  by (auto simp: coordinator_inv_def row_def matrix_ok_def simp del: map_of_eq_Some_iff split: option.splits)

lemma matrix_ok_insert: "matrix_ok mc \<Longrightarrow> hm_ok ctx \<Longrightarrow> matrix_ok (hm_insert n ctx mc)"
  by (auto simp: matrix_ok_def distinct_update simp del: map_of_eq_Some_iff split: if_splits)

lemma matrix_ok_update_row:
  assumes "matrix_ok mc" "hm_ok (snd e)"
  shows "matrix_ok (update_row e mc)"
proof -
  have "hm_ok (vv_join (snd e) cur)" for cur
    using assms(2) by (rule hm_ok_vv_join)
  with assms show ?thesis
    by (auto simp: update_row_def matrix_ok_insert split: prod.splits option.splits)
qed

lemma matrix_ok_update_rows: "matrix_ok mc \<Longrightarrow> matrix_ok km \<Longrightarrow> matrix_ok (fold update_row km mc)"
proof -
  assume "matrix_ok km"
  then have "\<forall>e \<in> set km. hm_ok (snd e)" by (auto simp: matrix_ok_def)
  then show "matrix_ok mc \<Longrightarrow> matrix_ok (fold update_row km mc)"
    by (induction km arbitrary: mc) (simp_all add: matrix_ok_update_row)
qed

lemma matrix_ok_remove: "matrix_ok mc \<Longrightarrow> matrix_ok (hm_remove p mc)"
  by (auto simp: matrix_ok_def AList.distinct_delete simp del: map_of_eq_Some_iff split: if_splits)

lemma matrix_ok_remove_column: "matrix_ok mc \<Longrightarrow> matrix_ok (hm_map_values (hm_remove p) mc)"
  unfolding matrix_ok_def map_of_map_values
  by (auto simp: hm_map_values_def comp_def split_def AList.distinct_delete simp del: map_of_eq_Some_iff)

lemma coordinator_inv_update:
  "coordinator_inv self \<Longrightarrow> matrix_ok km \<Longrightarrow> coordinator_inv (update_matrix_clock self km)"
  using matrix_ok_update_rows by (auto simp: coordinator_inv_def update_matrix_clock_def)

lemma coordinator_inv_remove_row [simp]:
  "coordinator_inv self \<Longrightarrow> coordinator_inv (remove_matrix_clock_row self p)"
  by (auto simp: coordinator_inv_def remove_matrix_clock_row_def matrix_ok_remove)

lemma coordinator_inv_remove_column [simp]:
  "coordinator_inv self \<Longrightarrow> coordinator_inv (remove_matrix_clock_column self p)"
  by (auto simp: coordinator_inv_def remove_matrix_clock_column_def matrix_ok_remove_column)

lemma row_remove_row [gc_simps]:
  "coordinator_inv self \<Longrightarrow> row (remove_matrix_clock_row self p) q = (if q = p then None else row self q)"
  by (auto simp: row_def remove_matrix_clock_row_def coordinator_inv_def split: option.splits)

lemma row_remove_column [gc_simps]:
  "coordinator_inv self \<Longrightarrow> row (remove_matrix_clock_column self p) q = map_option (hm_remove p) (row self q)"
  by (auto simp: row_def remove_matrix_clock_column_def coordinator_inv_def map_of_map_values split: option.splits)

lemma map_of_update_rows:
  assumes "hm_ok km" "hm_ok mc"
  shows "map_of (fold update_row km mc) p =
    (case map_of km p of None \<Rightarrow> map_of mc p
     | Some inc \<Rightarrow> Some (case map_of mc p of None \<Rightarrow> inc | Some cur \<Rightarrow> vv_join inc cur))"
  using assms
proof (induction km arbitrary: mc)
  case (Cons e km)
  have "hm_ok (update_row e mc)"
    using Cons.prems by (auto simp: update_row_def distinct_update split: option.splits prod.splits)
  moreover have "map_of km (fst e) = None" "hm_ok km"
    using Cons.prems by (simp_all add: map_of_eq_None_iff)
  ultimately show ?case
    using Cons.IH by (cases e) (auto simp: update_row_def simp del: map_of_eq_Some_iff split: option.split)
qed simp

lemma row_update [gc_simps]:
  assumes "coordinator_inv self" "gc_replica (gc_config self)" "hm_ok km"
  shows "row (update_matrix_clock self km) p =
    (case map_of km p of None \<Rightarrow> row self p
     | Some inc \<Rightarrow> Some (case row self p of None \<Rightarrow> inc | Some cur \<Rightarrow> vv_join inc cur))"
proof -
  from assms obtain mc where "matrix_clock self = Some mc" "hm_ok mc"
    by (auto simp: coordinator_inv_def matrix_ok_def)
  moreover from this have r: "row self p = hm_get mc p" by (simp add: row_def)
  ultimately show ?thesis
    using assms map_of_update_rows [OF assms(3)] unfolding r
    by (simp add: row_def update_matrix_clock_def del: map_of_eq_Some_iff)
qed

lemma update_matrix_clock_config [simp]:
  "gc_config (update_matrix_clock self km) = gc_config self" "gc_epoch (update_matrix_clock self km) = gc_epoch self"
  "gc_config (remove_matrix_clock_row self p) = gc_config self" "gc_epoch (remove_matrix_clock_row self p) = gc_epoch self"
  "gc_config (remove_matrix_clock_column self p) = gc_config self"
  "gc_epoch (remove_matrix_clock_column self p) = gc_epoch self"
  by (simp_all add: update_matrix_clock_def remove_matrix_clock_row_def remove_matrix_clock_column_def)

subsection \<open>The stable timestamp is a greatest lower bound\<close>

text \<open>What a member is known to have seen: the node's own clock, or its row in the matrix.\<close>

definition member_row :: "GcCoordinator \<Rightarrow> NodeId \<Rightarrow> CausalContext \<Rightarrow> NodeId \<Rightarrow> CausalContext option" where
  "member_row self self_id self_clock p = (if p = self_id then Some self_clock else row self p)"

lemma vv_leq_meet_iff: "vv_leq c (vv_meet a b) \<longleftrightarrow> vv_leq c a \<and> vv_leq c b"
  by (auto simp: vv_leq_iff hm_or_vv_meet)

lemma vv_leq_single: "vv_leq [(p, n)] v \<longleftrightarrow> n \<le> hm_or v p 0"
  by (auto simp: vv_leq_iff hm_or_def)

lemma meet_members_None_iff:
  "meet_members mc sid sc ps vl vm = None \<longleftrightarrow> (\<exists>p \<in> set ps. p \<noteq> sid \<and> hm_get mc p = None)"
  by (induction ps arbitrary: vl vm) (auto split: option.split)

lemma meet_members_SomeD:
  "meet_members mc sid sc ps vl vm = Some (vl', vm') \<Longrightarrow>
   (vl' = None \<longleftrightarrow> vl = None \<and> ps = []) \<and>
   (\<forall>v' c. vl' = Some v' \<longrightarrow> vv_leq c v' \<longleftrightarrow>
      (\<forall>v. vl = Some v \<longrightarrow> vv_leq c v) \<and>
      (\<forall>p \<in> set ps. \<forall>ctx. (if p = sid then Some sc else hm_get mc p) = Some ctx \<longrightarrow> vv_leq c ctx))"
proof (induction ps arbitrary: vl vm)
  case (Cons p ps)
  from Cons.prems obtain ctx where ctx: "(if p = sid then Some sc else hm_get mc p) = Some ctx"
    and rest: "meet_members mc sid sc ps (Some (case vl of None \<Rightarrow> ctx | Some acc \<Rightarrow> vv_meet acc ctx))
        (Some (case vm of None \<Rightarrow> ctx | Some acc \<Rightarrow> vv_join acc ctx)) = Some (vl', vm')"
    by (simp del: map_of_eq_Some_iff split: option.splits if_splits)
  from Cons.IH [OF rest] ctx show ?case
    by (cases vl) (auto simp: vv_leq_meet_iff simp del: map_of_eq_Some_iff)
qed simp

lemma fold_pending:
  "vv_leq c (fold (\<lambda>p v. case hm_get mc p of Some ctx \<Rightarrow> vv_meet v ctx | None \<Rightarrow> v) ps v) \<longleftrightarrow>
     vv_leq c v \<and> (\<forall>p \<in> set ps. \<forall>ctx. hm_get mc p = Some ctx \<longrightarrow> vv_leq c ctx)"
  by (induction ps arbitrary: v) (auto simp: vv_leq_meet_iff simp del: map_of_eq_Some_iff split: option.splits)

text \<open>The result of the loop over the members, before the non-members are considered.\<close>

definition live_meet :: "GcCoordinator \<Rightarrow> NodeId \<Rightarrow> CausalContext \<Rightarrow> NodeId list \<Rightarrow> CausalContext" where
  "live_meet self sid sc members =
     unwrap_or (case meet_members (the (matrix_clock self)) sid sc members None None of
                  Some (v, _) \<Rightarrow> v | None \<Rightarrow> None) []"

lemma leq_live_meet:
  assumes "matrix_clock self = Some mc" "members \<noteq> []"
    and "\<forall>p \<in> set members. member_row self sid sc p \<noteq> None"
  shows "vv_leq c (live_meet self sid sc members) \<longleftrightarrow>
    (\<forall>p \<in> set members. vv_leq c (the (member_row self sid sc p)))"
proof -
  have mr: "member_row self sid sc p = (if p = sid then Some sc else hm_get mc p)" for p
    using assms(1) by (simp add: member_row_def row_def)
  obtain vl vm where m: "meet_members mc sid sc members None None = Some (vl, vm)"
    using meet_members_None_iff [of mc sid sc members None None] assms(1,3)
    by (force simp: member_row_def row_def)
  note D = meet_members_SomeD [OF m]
  obtain v where vl: "vl = Some v" using D assms(2) by blast
  have "live_meet self sid sc members = v" using assms(1) m vl by (simp add: live_meet_def)
  moreover have "vv_leq c v \<longleftrightarrow> (\<forall>p \<in> set members. \<forall>ctx. member_row self sid sc p = Some ctx \<longrightarrow> vv_leq c ctx)"
    unfolding mr using D vl by blast
  ultimately show ?thesis using assms(3) by (metis option.collapse option.sel)
qed

lemma compute_stable_timestamp_eq:
  assumes "matrix_clock self = Some mc" "\<forall>p \<in> set members. member_row self sid sc p \<noteq> None"
  shows "\<exists>v obs. compute_stable_timestamp self sid members fd sc = (v, obs) \<and>
    (\<forall>c. vv_leq c v \<longleftrightarrow> vv_leq c (live_meet self sid sc members) \<and>
       (\<forall>p ctx. p \<notin> set members \<and> p \<notin> set obs \<and> row self p = Some ctx \<longrightarrow> vv_leq c ctx)) \<and>
    (\<forall>p. p \<in> set obs \<longleftrightarrow> p \<notin> set members \<and>
       (row self p \<noteq> None \<or> hm_get (live_meet self sid sc members) p \<noteq> None) \<and>
       hm_get fd p = hm_get (live_meet self sid sc members) p)"
proof -
  obtain vl vm where m: "meet_members mc sid sc members None None = Some (vl, vm)"
    using meet_members_None_iff [of mc sid sc members None None] assms
    by (force simp: member_row_def row_def)
  then have lm: "live_meet self sid sc members = unwrap_or vl []"
    using assms(1) by (simp add: live_meet_def)
  have known: "p \<in> set (hm_keys mc) \<longleftrightarrow> row self p \<noteq> None"
    "p \<in> set (hm_keys (unwrap_or vl [])) \<longleftrightarrow> hm_get (unwrap_or vl []) p \<noteq> None" for p
    using assms(1) by (auto simp: row_def map_of_eq_None_iff)
  show ?thesis
    unfolding lm compute_stable_timestamp_def assms(1) option.case m prod.case Let_def
    by (intro exI conjI allI, rule refl)
      (unfold fold_pending set_filter set_hs_collect set_append, use known assms(1) in \<open>auto simp: row_def\<close>)
qed

lemma compute_stable_timestampD:
  assumes "matrix_clock self = Some mc" "\<forall>p \<in> set members. member_row self sid sc p \<noteq> None"
    and "compute_stable_timestamp self sid members fd sc = (v, obs)"
  shows "vv_leq c v \<longleftrightarrow> vv_leq c (live_meet self sid sc members) \<and>
       (\<forall>p ctx. p \<notin> set members \<and> p \<notin> set obs \<and> row self p = Some ctx \<longrightarrow> vv_leq c ctx)"
    and "p \<in> set obs \<longleftrightarrow> p \<notin> set members \<and>
       (row self p \<noteq> None \<or> hm_get (live_meet self sid sc members) p \<noteq> None) \<and>
       hm_get fd p = hm_get (live_meet self sid sc members) p"
proof -
  obtain v' obs' where e: "compute_stable_timestamp self sid members fd sc = (v', obs')"
    and leq: "\<forall>c. vv_leq c v' \<longleftrightarrow> vv_leq c (live_meet self sid sc members) \<and>
       (\<forall>p ctx. p \<notin> set members \<and> p \<notin> set obs' \<and> row self p = Some ctx \<longrightarrow> vv_leq c ctx)"
    and obs: "\<forall>p. p \<in> set obs' \<longleftrightarrow> p \<notin> set members \<and>
       (row self p \<noteq> None \<or> hm_get (live_meet self sid sc members) p \<noteq> None) \<and>
       hm_get fd p = hm_get (live_meet self sid sc members) p"
    using compute_stable_timestamp_eq [OF assms(1,2), of fd] by (elim exE conjE)
  from e assms(3) have [simp]: "v' = v" "obs' = obs" by simp_all
  show "vv_leq c v \<longleftrightarrow> vv_leq c (live_meet self sid sc members) \<and>
       (\<forall>p ctx. p \<notin> set members \<and> p \<notin> set obs \<and> row self p = Some ctx \<longrightarrow> vv_leq c ctx)"
    using leq unfolding \<open>v' = v\<close> \<open>obs' = obs\<close> by (rule spec)
  show "p \<in> set obs \<longleftrightarrow> p \<notin> set members \<and>
       (row self p \<noteq> None \<or> hm_get (live_meet self sid sc members) p \<noteq> None) \<and>
       hm_get fd p = hm_get (live_meet self sid sc members) p"
    using obs unfolding \<open>v' = v\<close> \<open>obs' = obs\<close> by (rule spec)
qed

subsection \<open>What a collection forgets\<close>

lemma fold_forget_obsolete_stable:
  "fold forget_obsolete ps (self, dvv, v) = (self', dvv', v') \<Longrightarrow>
   hm_get v' k = (if k \<in> set ps then None else hm_get v k)"
  by (induction ps arbitrary: self dvv v) (auto simp: forget_obsolete_def simp del: map_of_eq_Some_iff)

lemma fold_forget_obsolete_config [simp]:
  "fold forget_obsolete ps (self, dvv, v) = (self', dvv', v') \<Longrightarrow>
   gc_config self' = gc_config self \<and> gc_epoch self' = gc_epoch self \<and>
   node_id (dvv_dot dvv') = node_id (dvv_dot dvv)"
  by (induction ps arbitrary: self dvv v) (auto simp: forget_obsolete_def dvv_remove_def)

lemma fold_forget_obsolete_inv:
  "fold forget_obsolete ps (self, dvv, v) = (self', dvv', v') \<Longrightarrow> coordinator_inv self \<Longrightarrow> dvv_inv dvv \<Longrightarrow>
   coordinator_inv self' \<and> dvv_inv dvv'"
  by (induction ps arbitrary: self dvv v) (auto simp: forget_obsolete_def)

lemma fold_forget_obsolete_dvv:
  "fold forget_obsolete ps (self, dvv, v) = (self', dvv', v') \<Longrightarrow> dvv_inv dvv \<longrightarrow> dvv_inv dvv'"
  by (induction ps arbitrary: self dvv v) (auto simp: forget_obsolete_def)

text \<open>The branch structure of \<open>initiate_gc\<close>: either nothing local changed, or the commit ran on the
  stable timestamp of the second membership list.\<close>

lemma initiate_gc_cases:
  assumes "initiate_gc C G members_now sid (self, crdt, dvv) s = (r, st', s')"
  shows "st' = (self, crdt, dvv) \<or>
    (\<exists>md m1 fd v obs t t1 t2 t3. read_epoch_metadata G s = (Inr md, t) \<and> members_now t1 = (Inr m1, t2) \<and>
       read_final_dots G t2 = (Inr fd, t3) \<and>
       compute_stable_timestamp self sid m1 fd (effective_map dvv) = (v, obs) \<and>
       \<not> vv_leq v (em_v_stable md) \<and>
       gc_commit C G sid (em_epoch md + 1) v obs (self, crdt, dvv) t3 = (r, st', s'))"
proof -
  consider (err) e s1 where "read_epoch_metadata G s = (Inl e, s1)"
    | (ok) md s1 where "read_epoch_metadata G s = (Inr md, s1)"
    by (metis obj_sumE surj_pair)
  then show ?thesis
  proof cases
    case err
    then show ?thesis using assms by (simp add: initiate_gc_def)
  next
    case (ok md s1)
    show ?thesis
    proof (rule disjCI)
      assume *: "\<not> (\<exists>md m1 fd v obs t t1 t2 t3. read_epoch_metadata G s = (Inr md, t) \<and> members_now t1 = (Inr m1, t2) \<and>
         read_final_dots G t2 = (Inr fd, t3) \<and>
         compute_stable_timestamp self sid m1 fd (effective_map dvv) = (v, obs) \<and>
         \<not> vv_leq v (em_v_stable md) \<and>
         gc_commit C G sid (em_epoch md + 1) v obs (self, crdt, dvv) t3 = (r, st', s'))"
      with assms ok show "st' = (self, crdt, dvv)"
        by (fastforce simp: initiate_gc_def Let_def split: sum.splits prod.splits if_splits)
    qed
  qed
qed

lemma vv_leq_trans: "vv_leq a b \<Longrightarrow> vv_leq b c \<Longrightarrow> vv_leq a c"
  by (rule vv.leq_trans)

lemma vv_leq_refl [simp]: "vv_leq a a"
  by (simp add: vv_leq_iff)

lemma vv_leq_Nil [simp]: "vv_leq [] a"
  by (simp add: vv_leq_iff hm_or_def)

lemma compute_missing_row:
  assumes "\<exists>p \<in> set members. member_row self sid sc p = None"
  shows "compute_stable_timestamp self sid members fd sc = ([], [])"
proof (cases "matrix_clock self")
  case (Some mc)
  then have "meet_members mc sid sc members None None = None"
    using assms by (auto simp: meet_members_None_iff member_row_def row_def split: if_splits)
  with Some show ?thesis by (simp add: compute_stable_timestamp_def)
qed (simp add: compute_stable_timestamp_def)

lemma compute_progress:
  assumes "compute_stable_timestamp self sid members fd sc = (v, obs)" "\<not> vv_leq v w"
  shows "matrix_clock self \<noteq> None \<and> members \<noteq> [] \<and>
    (\<forall>p \<in> set members. \<exists>ctx. member_row self sid sc p = Some ctx \<and> vv_leq v ctx) \<and>
    (\<forall>p ctx. p \<notin> set members \<and> p \<notin> set obs \<and> row self p = Some ctx \<longrightarrow> vv_leq v ctx)"
proof -
  have "v \<noteq> []" using assms(2) by auto
  with assms(1) have rows: "\<forall>p \<in> set members. member_row self sid sc p \<noteq> None"
    using compute_missing_row [of members self sid sc fd] by fastforce
  from \<open>v \<noteq> []\<close> assms(1) obtain mc where mc: "matrix_clock self = Some mc"
    by (cases "matrix_clock self") (auto simp: compute_stable_timestamp_def)
  have below: "vv_leq v (live_meet self sid sc members)"
    "\<forall>p ctx. p \<notin> set members \<and> p \<notin> set obs \<and> row self p = Some ctx \<longrightarrow> vv_leq v ctx"
    using compute_stable_timestampD(1) [OF mc rows assms(1), of v] by simp_all
  have "members \<noteq> []"
  proof
    assume "members = []"
    then have "live_meet self sid sc members = []" by (simp add: live_meet_def)
    with below(1) assms(2) vv_leq_trans [of v "[]" w] show False by simp
  qed
  with below(1) leq_live_meet [OF mc _ rows] rows have "\<forall>p \<in> set members. vv_leq v (the (member_row self sid sc p))"
    by blast
  then have "\<forall>p \<in> set members. \<exists>ctx. member_row self sid sc p = Some ctx \<and> vv_leq v ctx"
    using rows by (metis option.exhaust_sel)
  with \<open>members \<noteq> []\<close> mc below(2) show ?thesis by auto
qed

lemma gc_commit_crdt:
  assumes "gc_commit C G sid n v obs (self, crdt, dvv) s = (r, (self', crdt', dvv'), s')"
  obtains v' where "crdt' = crdt_perform_gc C crdt (frontier_dvv sid v')" "vv_leq v' v"
proof -
  obtain self1 dvv1 v1 where f: "fold forget_obsolete obs (self, dvv, v) = (self1, dvv1, v1)"
    by (metis prod_cases3)
  have "vv_leq v1 v"
    using fold_forget_obsolete_stable [OF f] by (simp add: vv_leq_iff hm_or_def del: map_of_eq_Some_iff)
  moreover have "crdt' = crdt_perform_gc C crdt (frontier_dvv sid v1)"
    using assms f by (auto simp: gc_commit_def Let_def split: prod.splits sum.splits)
  ultimately show ?thesis using that by blast
qed

subsection \<open>On a storage that keeps its contract\<close>

context gc_storage
begin

lemma commit:
  assumes "ok s" "fold forget_obsolete obs (self, dvv, v) = (self', dvv', v')"
  shows "\<exists>s' md' es'. gc_commit C G sid n v obs (self, crdt, dvv) s
      = (Inr None, (self'\<lparr>gc_epoch := n\<rparr>, crdt_perform_gc C crdt (frontier_dvv sid v'), dvv'), s') \<and> ok s' \<and>
    view s' = (view s)\<lparr>gv_metadata := md', gv_state := es', gv_intent := (gv_intent (view s))(n := None)\<rparr> \<and>
    metadata_equiv \<lparr>em_epoch = n, em_v_stable = v', em_obsolete_dots = obs\<rparr> md' \<and>
    state_equiv \<lparr>es_epoch = n, es_initiator_clock = effective_map dvv',
      es_state_payload = crdt_encode_delta C (crdt_full_state C (crdt_perform_gc C crdt (frontier_dvv sid v')) dvv')\<rparr> es'"
    (is "\<exists>s' md' es'. _ \<and> _ \<and> _ \<and> metadata_equiv ?md md' \<and> state_equiv ?es es'")
proof -
  obtain s1 es' where s1: "write_epoch_state G ?es s = (Inr (), s1)" "ok s1"
    "view s1 = (view s)\<lparr>gv_state := es'\<rparr>" "state_equiv ?es es'"
    using write_state [OF assms(1)] by blast
  obtain s2 md' where s2: "write_epoch_metadata G ?md s1 = (Inr (), s2)" "ok s2"
    "view s2 = (view s1)\<lparr>gv_metadata := md'\<rparr>" "metadata_equiv ?md md'"
    using write_metadata [OF s1(2)] by blast
  obtain s3 where s3: "release_gc_intent G n s2 = (Inr (), s3)" "ok s3"
    "view s3 = (view s2)\<lparr>gv_intent := (gv_intent (view s2))(n := None)\<rparr>"
    using release [OF s2(2)] by blast
  show ?thesis
    by (intro exI [of _ s3] exI [of _ md'] exI [of _ es'])
      (simp add: gc_commit_def Let_def assms(2) s1 s2 s3 ignore_err_def)
qed

lemma initiate_taken:
  assumes "ok s" "gv_intent (view s) (em_epoch (gv_metadata (view s)) + 1) \<noteq> None" "members_now s = (Inr ms, s)"
  shows "initiate_gc C G members_now sid st s = (Inr (Some ConcurrentInitiator), st, s)"
  using assms claim_taken [OF assms(1,2)]
  by (simp add: initiate_gc_def read_metadata Let_def)

lemma initiate_free:
  assumes "ok s" "gv_intent (view s) n = None" "n = em_epoch (gv_metadata (view s)) + 1"
    and "\<And>t. members_now t = (Inr ms, t)"
    and v: "compute_stable_timestamp self sid ms (gv_final_dots (view s)) (effective_map dvv) = (v, obs)"
  shows "\<exists>s1. ok s1 \<and>
      view s1 = (view s)\<lparr>gv_intent := (gv_intent (view s))(n \<mapsto> \<lparr>gi_epoch = n, gi_initiator = sid\<rparr>)\<rparr> \<and>
      initiate_gc C G members_now sid (self, crdt, dvv) s =
        (if vv_leq v (em_v_stable (gv_metadata (view s)))
         then (Inr (Some NoProgress), (self, crdt, dvv), ignore_err (release_gc_intent G n) s1)
         else gc_commit C G sid n v obs (self, crdt, dvv) s1)"
proof -
  obtain s1 where s1: "claim_gc_intent G n sid s = (Inr True, s1)" "ok s1"
    "view s1 = (view s)\<lparr>gv_intent := (gv_intent (view s))(n \<mapsto> \<lparr>gi_epoch = n, gi_initiator = sid\<rparr>)\<rparr>"
    using claim_free [OF assms(1,2)] by blast
  have "\<not> new_member_exists ms ms" by (simp add: new_member_exists_def list_ex_iff)
  then show ?thesis
    using s1 assms by (intro exI [of _ s1]) (simp add: initiate_gc_def read_metadata read_final Let_def)
qed

lemma initiate_success:
  assumes "ok s" "\<And>t. members_now t = (Inr ms, t)"
    and "initiate_gc C G members_now sid (self, crdt, dvv) s = (Inr None, (self', crdt', dvv'), s')"
  shows "\<exists>v' es'. ok s' \<and> gc_epoch self' = em_epoch (gv_metadata (view s)) + 1 \<and>
    em_epoch (gv_metadata (view s')) = gc_epoch self' \<and> gv_intent (view s') = gv_intent (view s) \<and>
    crdt' = crdt_perform_gc C crdt (frontier_dvv sid v') \<and> (dvv_inv dvv \<longrightarrow> dvv_inv dvv') \<and>
    gv_state (view s') = es' \<and>
    state_equiv \<lparr>es_epoch = gc_epoch self', es_initiator_clock = effective_map dvv',
      es_state_payload = crdt_encode_delta C (crdt_full_state C crdt' dvv')\<rparr> es'"
proof -
  define n where "n = em_epoch (gv_metadata (view s)) + 1"
  have free: "gv_intent (view s) n = None"
    using initiate_taken [of s members_now ms C sid "(self, crdt, dvv)"] assms
    by (cases "gv_intent (view s) n") (auto simp: n_def)
  obtain v obs where v: "compute_stable_timestamp self sid ms (gv_final_dots (view s)) (effective_map dvv) = (v, obs)"
    by fastforce
  obtain s1 where s1: "ok s1"
    "view s1 = (view s)\<lparr>gv_intent := (gv_intent (view s))(n \<mapsto> \<lparr>gi_epoch = n, gi_initiator = sid\<rparr>)\<rparr>"
    "initiate_gc C G members_now sid (self, crdt, dvv) s =
        (if vv_leq v (em_v_stable (gv_metadata (view s)))
         then (Inr (Some NoProgress), (self, crdt, dvv), ignore_err (release_gc_intent G n) s1)
         else gc_commit C G sid n v obs (self, crdt, dvv) s1)"
    using initiate_free [where members_now = members_now and sid = sid and C = C and crdt = crdt,
        OF assms(1) free n_def assms(2) v] by (elim exE conjE)
  then have run: "gc_commit C G sid n v obs (self, crdt, dvv) s1 = (Inr None, (self', crdt', dvv'), s')"
    using assms(3) by (auto split: if_splits)
  obtain self1 dvv1 v1 where f: "fold forget_obsolete obs (self, dvv, v) = (self1, dvv1, v1)"
    by (metis prod_cases3)
  from commit [OF s1(1) f, of C sid n crdt] run s1(2) free obtain md' where
    "crdt' = crdt_perform_gc C crdt (frontier_dvv sid v1)" "dvv' = dvv1" "gc_epoch self' = n" "ok s'"
    "metadata_equiv \<lparr>em_epoch = n, em_v_stable = v1, em_obsolete_dots = obs\<rparr> md'"
    "gv_metadata (view s') = md'" "gv_intent (view s') = gv_intent (view s)"
    "state_equiv \<lparr>es_epoch = n, es_initiator_clock = effective_map dvv',
      es_state_payload = crdt_encode_delta C (crdt_full_state C crdt' dvv')\<rparr> (gv_state (view s'))"
    by (auto simp: fun_upd_idem)
  moreover have "dvv_inv dvv \<longrightarrow> dvv_inv dvv1"
    using f by (rule fold_forget_obsolete_dvv)
  ultimately show ?thesis by (auto simp: n_def metadata_equiv_def)
qed

lemma await_intent_held:
  assumes "ok s" "gv_intent (view s) n \<noteq> None" "em_epoch (gv_metadata (view s)) \<le> e"
  shows "await_intent fuel G e n s = None"
  using assms by (induction fuel) (simp_all add: read_metadata read_intent)

lemma await_state_eq:
  assumes "ok s"
  shows "await_state fuel G e s =
    (if fuel \<noteq> 0 \<and> es_epoch (gv_state (view s)) = e then Some (Inr (gv_state (view s)), s) else None)"
  using assms by (induction fuel) (auto simp: read_state)

lemma bootstrap_eq:
  assumes "ok s"
  shows "new_replica_bootstrap fuel C G sid st s =
    (if fuel \<noteq> 0 \<and> gv_intent (view s) (em_epoch (gv_metadata (view s)) + 1) = None \<and>
        es_epoch (gv_state (view s)) = em_epoch (gv_metadata (view s))
     then (case install_snapshot C sid (em_epoch (gv_metadata (view s))) (gv_state (view s)) st of
             (r, st') \<Rightarrow> Some (r, st', s))
     else None)"
proof (cases "gv_intent (view s) (em_epoch (gv_metadata (view s)) + 1)")
  case None
  then show ?thesis
    using assms by (simp add: new_replica_bootstrap_def read_metadata read_intent Let_def await_state_eq)
next
  case (Some i)
  then show ?thesis
    using assms await_intent_held [of s "em_epoch (gv_metadata (view s)) + 1" "em_epoch (gv_metadata (view s))" fuel]
    by (simp add: new_replica_bootstrap_def read_metadata read_intent Let_def)
qed

end

subsection \<open>Properties\<close>




text \<open>A storage without state that grants every claim, for the witnesses.\<close>

definition idle_storage :: "EpochMetadata \<Rightarrow> EpochState \<Rightarrow> unit GcStorage" where
  "idle_storage md es =
     \<lparr>read_epoch_metadata = return_ok md, read_epoch_state = return_ok es,
      write_epoch_metadata = (\<lambda>_. return_ok ()), write_epoch_state = (\<lambda>_. return_ok ()),
      read_final_dots = return_ok [], claim_gc_intent = (\<lambda>_ _. return_ok True),
      read_gc_intent = (\<lambda>_. return_ok None), release_gc_intent = (\<lambda>_. return_ok ())\<rparr>"

definition demo_coordinator :: "(NodeId, CausalContext) hmap \<Rightarrow> GcCoordinator" where
  "demo_coordinator mc =
     \<lparr>gc_epoch = 0, gc_config = \<lparr>gc_replica = True, observe_interval = 1,
        storage_config = \<lparr>bucket = ''b'', key_prefix = ''gc''\<rparr>, gc_replica_config = None\<rparr>,
      matrix_clock = Some mc\<rparr>"


lemma fold_forget_observed:
  assumes "fold forget_observed ps (self, dvv) = (self', dvv')" "coordinator_inv self"
  shows "coordinator_inv self' \<and> gc_epoch self' = gc_epoch self \<and>
    (\<forall>p \<in> set ps. row self' p = None) \<and> (\<forall>p. row self p = None \<longrightarrow> row self' p = None) \<and>
    node_id (dvv_dot dvv') = node_id (dvv_dot dvv) \<and>
    (\<forall>p. hm_get (dvv_context dvv') p = (if p \<in> set ps then None else hm_get (dvv_context dvv) p))"
  using assms
proof (induction ps arbitrary: self dvv)
  case (Cons p ps)
  define self1 where "self1 = (if gc_replica (gc_config self)
    then remove_matrix_clock_column (remove_matrix_clock_row self p) p else self)"
  have inv: "coordinator_inv self1" "gc_epoch self1 = gc_epoch self" using Cons.prems(2) by (simp_all add: self1_def)
  have row: "row self1 p = None" "row self q = None \<Longrightarrow> row self1 q = None" for q
    using Cons.prems(2) by (auto simp: self1_def gc_simps) (simp add: row_def coordinator_inv_def)
  have "fold forget_observed ps (self1, dvv_remove p dvv) = (self', dvv')"
    using Cons.prems(1) by (simp add: forget_observed_def self1_def)
  from Cons.IH [OF this inv(1)] inv(2) row show ?case
    by (auto simp: dvv_remove_def simp del: map_of_eq_Some_iff)
qed simp




lemma mem_view_fresh:
  "s3_view mem_json map_of c [] = \<lparr>gv_metadata = default_epoch_metadata, gv_state = default_epoch_state,
     gv_intent = (\<lambda>_. None), gv_final_dots = []\<rparr>"
  by (simp add: s3_view_def final_dot_keys_def hm_collect_def List.map_filter_def)




text \<open>C21.  When a bootstrap returns.  On a quiet store it returns, after one poll of each kind, exactly when no
  intent is held for the next epoch and the epoch of the state is the epoch of the metadata.  The state
  of a commit is written before its metadata, so a commit that dies between the two writes (its claim
  released or expired by hand) leaves a store on which every bootstrap polls for ever, although the
  comment in the code expects the state to be the one that catches up.\<close>
theorem bootstrap_returns_iff:
  assumes "s3_gc_ok fuel js s3 objs c s"
  shows "(new_replica_bootstrap polls C (s3_gc_storage fuel js s3 c) sid st s \<noteq> None \<longleftrightarrow>
      polls \<noteq> 0 \<and> gv_intent (s3_view js objs c s) (em_epoch (gv_metadata (s3_view js objs c s)) + 1) = None \<and>
      es_epoch (gv_state (s3_view js objs c s)) = em_epoch (gv_metadata (s3_view js objs c s))) \<and>
    (es_epoch es \<noteq> em_epoch (gv_metadata (s3_view js objs c s)) \<longrightarrow>
      (\<exists>s'. write_epoch_state (s3_gc_storage fuel js s3 c) es s = (Inr (), s') \<and>
        (\<forall>polls'. new_replica_bootstrap polls' C (s3_gc_storage fuel js s3 c) sid st s' = None)))"
proof (intro conjI impI)
  show "new_replica_bootstrap polls C (s3_gc_storage fuel js s3 c) sid st s \<noteq> None \<longleftrightarrow>
      polls \<noteq> 0 \<and> gv_intent (s3_view js objs c s) (em_epoch (gv_metadata (s3_view js objs c s)) + 1) = None \<and>
      es_epoch (gv_state (s3_view js objs c s)) = em_epoch (gv_metadata (s3_view js objs c s))"
    unfolding s3gc.bootstrap_eq [OF assms] by (auto split: prod.split)
  assume ahead: "es_epoch es \<noteq> em_epoch (gv_metadata (s3_view js objs c s))"
  obtain s' es' where s': "write_epoch_state (s3_gc_storage fuel js s3 c) es s = (Inr (), s')" "s3_gc_ok fuel js s3 objs c s'"
    "s3_view js objs c s' = (s3_view js objs c s)\<lparr>gv_state := es'\<rparr>" "state_equiv es es'"
    using s3gc.write_state [OF assms] by blast
  moreover have "new_replica_bootstrap polls' C (s3_gc_storage fuel js s3 c) sid st s' = None" for polls'
    unfolding s3gc.bootstrap_eq [OF s'(2)] using ahead s'(3,4) by (simp add: state_equiv_def)
  ultimately show "\<exists>s'. write_epoch_state (s3_gc_storage fuel js s3 c) es s = (Inr (), s') \<and>
      (\<forall>polls'. new_replica_bootstrap polls' C (s3_gc_storage fuel js s3 c) sid st s' = None)"
    by blast
qed

theorem bootstrap_returns_iff_witness:
  "new_replica_bootstrap 1 (or_set_crdt (\<lambda>_. []) (\<lambda>_. Inl ProstDecodeError))
     (s3_gc_storage 1 mem_json mem_s3 \<lparr>bucket = ''b'', key_prefix = ''gc''\<rparr>) ''B''
     (demo_coordinator [], OrSet_new, dvv_new ''B'') [] \<noteq> None"
  using bootstrap_returns_iff [OF mem_gc_ok [of "\<lparr>bucket = ''b'', key_prefix = ''gc''\<rparr>"], of 1
      "or_set_crdt (\<lambda>_. []) (\<lambda>_. Inl ProstDecodeError)" "''B''" "(demo_coordinator [], OrSet_new, dvv_new ''B'')"]
  unfolding mem_view_fresh by (simp add: default_epoch_state_def default_epoch_metadata_def)

lemma install_or_set:
  assumes "orset_inv crdt" "\<And>e d. (e, d) \<in> live crdt \<Longrightarrow> is_String e"
    and "\<And>m. \<exists>p. dec (enc m) = Inr p \<and> proto_equiv p m"
    and "state_equiv \<lparr>es_epoch = n, es_initiator_clock = clk,
      es_state_payload = encode_delta encode_elem enc (full_state crdt dvv)\<rparr> es"
  shows "\<exists>delta. install_snapshot (or_set_crdt enc dec) b n es (self, OrSet_new, dvv0) =
      (Inr (), (self\<lparr>gc_epoch := n\<rparr>, merge_delta OrSet_new delta,
        dvv_merge dvv0 (frontier_dvv b (es_initiator_clock es)))) \<and>
    od_adds delta = od_adds (full_state crdt dvv) \<and> od_tombstones delta = tombstones crdt"
proof -
  obtain p where p: "dec (enc (delta_to_proto encode_elem (full_state crdt dvv))) = Inr p"
    "proto_equiv p (delta_to_proto encode_elem (full_state crdt dvv))"
    using assms(3) by blast
  have "is_String e" if "(e, d) \<in> set (od_adds (full_state crdt dvv))" for e d
    using that assms(1,2) by (simp add: set_od_adds_full)
  then have "\<exists>delta. decode_delta decode_elem dec (encode_delta encode_elem enc (full_state crdt dvv)) = Inr delta \<and>
      delta_equiv delta (full_state crdt dvv)"
    using p by (intro string_codec.delta_roundtrip) blast+
  then obtain delta where
    "decode_delta decode_elem dec (encode_delta encode_elem enc (full_state crdt dvv)) = Inr delta"
    "delta_equiv delta (full_state crdt dvv)" by blast
  with assms(4) show ?thesis
    by (intro exI [of _ delta])
      (simp add: install_snapshot_def or_set_crdt_def Let_def state_equiv_def delta_equiv_def)
qed

lemma snapshot_clock:
  assumes "map_of clk = map_of (effective_map dvv)" "hm_ok clk" "dvv_inv dvv"
  shows "effective_counter (dvv_merge (dvv_new b) (frontier_dvv b clk)) = effective_counter dvv"
proof
  fix k
  have "hm_or clk k 0 = hm_or (effective_map dvv) k 0" using assms(1) by (simp add: hm_or_def)
  moreover have "hm_ok (dvv_context (frontier_dvv b clk))" using assms(2) by (simp add: frontier_dvv_def Let_def)
  ultimately show "effective_counter (dvv_merge (dvv_new b) (frontier_dvv b clk)) k = effective_counter dvv k"
    by (simp add: effective_counter_merge max_def)
qed



end
