(* ===== verification/Engine.thy ===== *)
theory Engine
  imports GC_Coordinator
begin

text \<open>
  The replication engine \<^verbatim>\<open>src/engine/crdt_engine.rs\<close>: the task that owns the CRDT, its clock and the
  garbage-collection coordinator, and serves the requests of the server one after the other.

  The engine's fields are a record; the channel it reads from is the list of requests \<open>serve\<close> works
  off.  What it is given by others is the record \<open>engine_env\<close>: the CRDT and the strategy
  behind their traits, the storage, the membership service, and the registry it shares with the
  strategy (read out of the strategy's state).  The random choice of a request is an argument.
  A \<^verbatim>\<open>oneshot\<close> sender in a request is the response of the handler.  Metrics and log lines are
  left out; \<^verbatim>\<open>log_metrics\<close> changes no state.
\<close>

named_theorems eng_simps \<open>effect of the engine's handlers\<close>

subsection \<open>State and requests\<close>

datatype 'op CrdtEngineRequest =
    DoPullRound
  | ClientOperation 'op
  | PrintState
  | PrintInternals
  | PrintMatrix
  | GetRandomElement
  | DeltaRequest NodeId string CausalContext
  | DeltaResponse NodeId string bytes "Matrix option"
  | DeregistrationState
  | InitiateGc
  | ObserveEpochChange
  | LogCrdtMetrics

datatype response = Text string | FinalState Counter bytes

record ('c, 'd) CrdtEngine =
  eng_node_id :: NodeId
  eng_crdt_id :: string
  eng_gc :: GcCoordinator
  eng_dissemination :: 'd
  eng_crdt :: 'c
  eng_dvv :: DotVersionVector

record ('c, 'op, 'dl, 'h, 'd, 's) engine_env =
  env_crdt :: "('c, 'op, 'dl) DeltaCrdt"
  env_strategy :: "'d strategy"
  env_registry :: "'d \<Rightarrow> 'h PeerRegistry"
  env_storage :: "'s GcStorage"
  env_members :: "('s, anyhow, NodeId list) call"

definition engine_new :: "NodeId \<Rightarrow> string \<Rightarrow> 'c \<Rightarrow> 'd \<Rightarrow> GcConfig \<Rightarrow> ('c, 'd) CrdtEngine" where
  "engine_new nid cid crdt diss config =
     \<lparr>eng_node_id = nid, eng_crdt_id = cid, eng_gc = coordinator_new config,
      eng_dissemination = diss, eng_crdt = crdt, eng_dvv = dvv_new nid\<rparr>"

definition engine_registry ::
  "('c, 'op, 'dl, 'h, 'd, 's) engine_env \<Rightarrow> ('c, 'd) CrdtEngine \<Rightarrow> 'h PeerRegistry" where
  "engine_registry E eng = env_registry E (eng_dissemination eng)"

text \<open>\<^verbatim>\<open>self.gc.config.gc_replica\<close>.\<close>

definition engine_gc_replica :: "('c, 'd) CrdtEngine \<Rightarrow> bool" where
  "engine_gc_replica eng = gc_replica (gc_config (eng_gc eng))"

subsection \<open>Handlers\<close>

definition do_pull :: "('c, 'op, 'dl, 'h, 'd, 's) engine_env \<Rightarrow> nat \<Rightarrow> ('c, 'd) CrdtEngine \<Rightarrow> ('c, 'd) CrdtEngine" where
  "do_pull E rng eng =
     eng\<lparr>eng_dissemination := do_pull_round (env_strategy E) rng (eng_dissemination eng)
           (eng_node_id eng) (eng_crdt_id eng) (engine_gc_replica eng) (effective_map (eng_dvv eng))\<rparr>"

definition client_operation ::
  "('c, 'op, 'dl, 'h, 'd, 's) engine_env \<Rightarrow> nat \<Rightarrow> 'op \<Rightarrow> ('c, 'd) CrdtEngine \<Rightarrow> ('c, 'd) CrdtEngine" where
  "client_operation E rng op eng =
     (let dvv = dvv_event (eng_dvv eng);
          d = Dot_new (node_id (dvv_dot dvv)) (counter (dvv_dot dvv));
          crdt = crdt_apply_local (env_crdt E) (eng_crdt eng) d op
      in eng\<lparr>eng_dvv := dvv, eng_crdt := crdt,
             eng_dissemination := push_version_vector (env_strategy E) rng (eng_dissemination eng)
               (eng_node_id eng) (eng_crdt_id eng) (engine_gc_replica eng) (effective_map dvv)\<rparr>)"

definition server_delta ::
  "('c, 'op, 'dl, 'h, 'd, 's) engine_env \<Rightarrow> nat \<Rightarrow> string \<Rightarrow> bytes \<Rightarrow> Matrix option \<Rightarrow> ('c, 'd) CrdtEngine
     \<Rightarrow> ('c, 'd) CrdtEngine" where
  "server_delta E rng cid data knowledge_matrix eng =
     (if cid \<noteq> eng_crdt_id eng then eng
      else (case crdt_decode_delta (env_crdt E) data of
        Inl _ \<Rightarrow> eng
      | Inr delta \<Rightarrow>
          let gc = (case knowledge_matrix of Some m \<Rightarrow> update_matrix_clock (eng_gc eng) m | None \<Rightarrow> eng_gc eng);
              crdt = crdt_merge_delta (env_crdt E) (eng_crdt eng) delta;
              (ctx, node, ctr) = crdt_causal_context (env_crdt E) delta;
              remote_dvv = \<lparr>dvv_dot = Dot_new node ctr, dvv_context = ctx\<rparr>;
              dvv = dvv_merge (eng_dvv eng) remote_dvv
          in eng\<lparr>eng_gc := gc, eng_crdt := crdt, eng_dvv := dvv,
                 eng_dissemination := on_post_merge (env_strategy E) rng (eng_dissemination eng)
                   (eng_node_id eng) (eng_crdt_id eng) (engine_gc_replica eng) (effective_map dvv)\<rparr>))"

text \<open>\<^verbatim>\<open>registry.get(&from_node).map(|(gc_replica, _)| gc_replica).unwrap_or(false)\<close>\<close>

definition requester_collects :: "'h PeerRegistry \<Rightarrow> NodeId \<Rightarrow> bool" where
  "requester_collects reg from_node = unwrap_or (map_option fst (registry_get reg from_node)) False"

definition server_pull_request ::
  "('c, 'op, 'dl, 'h, 'd, 's) engine_env \<Rightarrow> NodeId \<Rightarrow> string \<Rightarrow> CausalContext \<Rightarrow> ('c, 'd) CrdtEngine
     \<Rightarrow> ('c, 'd) CrdtEngine" where
  "server_pull_request E from_node cid remote_knowledge eng =
     (if cid \<noteq> eng_crdt_id eng then eng
      else
        let gc = update_matrix_clock (eng_gc eng) [(from_node, remote_knowledge)];
            our_knowledge = effective_map (eng_dvv eng);
            communication_between_gc_replicas =
              (engine_gc_replica eng \<and> requester_collects (engine_registry E eng) from_node);
            dvv_delta = dvv_delta_since (eng_dvv eng) remote_knowledge;
            delta_payload =
              (if communication_between_gc_replicas \<or> counter (dvv_dot dvv_delta) \<noteq> 0 \<or> dvv_context dvv_delta \<noteq> []
               then Some (crdt_encode_delta (env_crdt E)
                      (crdt_delta_since (env_crdt E) (eng_crdt eng) remote_knowledge (eng_dvv eng)))
               else None);
            we_are_fully_ahead =
              list_all (\<lambda>(node, remote_ctr). remote_ctr \<le> hm_or our_knowledge node 0) remote_knowledge;
            our_knowledge_request = (if \<not> we_are_fully_ahead then Some our_knowledge else None);
            knowledge_matrix =
              (if requester_collects (engine_registry E eng) from_node
               then get_knowledge_matrix gc (engine_registry E eng) else None)
        in eng\<lparr>eng_gc := gc,
               eng_dissemination := respond_to_pull_request (env_strategy E) (eng_dissemination eng) from_node
                 (eng_crdt_id eng) (eng_node_id eng) delta_payload (engine_gc_replica eng)
                 knowledge_matrix our_knowledge_request\<rparr>)"

definition get_final_state_for_deregistration ::
  "('c, 'op, 'dl, 'h, 'd, 's) engine_env \<Rightarrow> ('c, 'd) CrdtEngine \<Rightarrow> Counter \<times> bytes" where
  "get_final_state_for_deregistration E eng =
     (let final_state_delta = crdt_full_state (env_crdt E) (eng_crdt eng) (eng_dvv eng);
          (_, _, final_dot) = crdt_causal_context (env_crdt E) final_state_delta
      in (final_dot, crdt_encode_delta (env_crdt E) final_state_delta))"

text \<open>The three wrappers around the coordinator lend it the engine's CRDT and clock.\<close>

definition gc_fields :: "('c, 'd) CrdtEngine \<Rightarrow> 'c gc_state" where
  "gc_fields eng = (eng_gc eng, eng_crdt eng, eng_dvv eng)"

definition set_gc_fields :: "('c, 'd) CrdtEngine \<Rightarrow> 'c gc_state \<Rightarrow> ('c, 'd) CrdtEngine" where
  "set_gc_fields eng = (\<lambda>(gc, crdt, dvv). eng\<lparr>eng_gc := gc, eng_crdt := crdt, eng_dvv := dvv\<rparr>)"

definition engine_observe_epoch_change ::
  "('c, 'op, 'dl, 'h, 'd, 's) engine_env \<Rightarrow> ('c, 'd) CrdtEngine \<Rightarrow> 's
     \<Rightarrow> (anyhow, bool) result \<times> ('c, 'd) CrdtEngine \<times> 's" where
  "engine_observe_epoch_change E eng s =
     (case observe_epoch_change (env_crdt E) (env_storage E) (eng_node_id eng) (gc_fields eng) s of
        (r, st, s1) \<Rightarrow> (r, set_gc_fields eng st, s1))"

definition engine_initiate_gc ::
  "('c, 'op, 'dl, 'h, 'd, 's) engine_env \<Rightarrow> ('c, 'd) CrdtEngine \<Rightarrow> 's
     \<Rightarrow> (anyhow, GcInitiationAbortReason option) result \<times> ('c, 'd) CrdtEngine \<times> 's" where
  "engine_initiate_gc E eng s =
     (case initiate_gc (env_crdt E) (env_storage E) (env_members E) (eng_node_id eng) (gc_fields eng) s of
        (r, st, s1) \<Rightarrow> (r, set_gc_fields eng st, s1))"

definition engine_bootstrap ::
  "nat \<Rightarrow> ('c, 'op, 'dl, 'h, 'd, 's) engine_env \<Rightarrow> ('c, 'd) CrdtEngine \<Rightarrow> 's
     \<Rightarrow> ((anyhow, unit) result \<times> ('c, 'd) CrdtEngine \<times> 's) option" where
  "engine_bootstrap fuel E eng s =
     map_option (\<lambda>(r, st, s1). (r, set_gc_fields eng st, s1))
       (new_replica_bootstrap fuel (env_crdt E) (env_storage E) (eng_node_id eng) (gc_fields eng) s)"

subsection \<open>The loop\<close>

text \<open>The arms of the \<^verbatim>\<open>match\<close>: the response, if the request carries a sender, and the new state.\<close>

fun handle_request ::
  "('c, 'op, 'dl, 'h, 'd, 's) engine_env \<Rightarrow> nat \<Rightarrow> 'op CrdtEngineRequest \<Rightarrow> ('c, 'd) CrdtEngine \<times> 's
     \<Rightarrow> response option \<times> ('c, 'd) CrdtEngine \<times> 's" where
  "handle_request E rng DoPullRound (eng, s) = (None, do_pull E rng eng, s)"
| "handle_request E rng (ClientOperation op) (eng, s) = (None, client_operation E rng op eng, s)"
| "handle_request E rng GetRandomElement (eng, s) =
     (Some (Text (unwrap_or (crdt_get_random_element (env_crdt E) (eng_crdt eng)) ''error: empty crdt'')), eng, s)"
| "handle_request E rng PrintState (eng, s) =
     (Some (Text (crdt_print_state (env_crdt E) (eng_crdt eng))), eng, s)"
| "handle_request E rng PrintInternals (eng, s) =
     (Some (Text (crdt_print_internals (env_crdt E) (eng_crdt eng))), eng, s)"
| "handle_request E rng PrintMatrix (eng, s) =
     (Some (Text (print_matrix_clock (eng_gc eng))), eng, s)"
| "handle_request E rng (DeltaRequest from_node cid knowledge) (eng, s) =
     (None, server_pull_request E from_node cid knowledge eng, s)"
| "handle_request E rng (DeltaResponse from_node cid data knowledge_matrix) (eng, s) =
     (None, server_delta E rng cid data knowledge_matrix eng, s)"
| "handle_request E rng DeregistrationState (eng, s) =
     (Some (case get_final_state_for_deregistration E eng of (d, b) \<Rightarrow> FinalState d b), eng, s)"
| "handle_request E rng InitiateGc (eng, s) =
     (case engine_initiate_gc E eng s of (_, eng', s') \<Rightarrow> (None, eng', s'))"
| "handle_request E rng ObserveEpochChange (eng, s) =
     (case engine_observe_epoch_change E eng s of (_, eng', s') \<Rightarrow> (None, eng', s'))"
| "handle_request E rng LogCrdtMetrics (eng, s) = (None, eng, s)"

fun serve ::
  "('c, 'op, 'dl, 'h, 'd, 's) engine_env \<Rightarrow> (nat \<times> 'op CrdtEngineRequest) list \<Rightarrow> ('c, 'd) CrdtEngine \<times> 's
     \<Rightarrow> response option list \<times> ('c, 'd) CrdtEngine \<times> 's" where
  "serve E [] st = ([], st)"
| "serve E ((rng, rq) # rest) st =
     (case handle_request E rng rq st of
        (r, st1) \<Rightarrow> (case serve E rest st1 of (rs, st2) \<Rightarrow> (r # rs, st2)))"

text \<open>\<^verbatim>\<open>run\<close>: the bootstrap, whose result is ignored, then the loop until the channel closes.\<close>

definition engine_run ::
  "nat \<Rightarrow> ('c, 'op, 'dl, 'h, 'd, 's) engine_env \<Rightarrow> (nat \<times> 'op CrdtEngineRequest) list
     \<Rightarrow> ('c, 'd) CrdtEngine \<Rightarrow> 's \<Rightarrow> (response option list \<times> ('c, 'd) CrdtEngine \<times> 's) option" where
  "engine_run fuel E requests eng s =
     (case engine_bootstrap fuel E eng s of
        None \<Rightarrow> None
      | Some (_, st) \<Rightarrow> Some (serve E requests st))"

subsection \<open>The collection loops\<close>

text \<open>\<^verbatim>\<open>start_gc_loops\<close> sends \<^verbatim>\<open>InitiateGc\<close> after a jittered sleep, only in garbage-collecting
  replicas, and \<^verbatim>\<open>ObserveEpochChange\<close> at a fixed interval.  Durations are in nanoseconds; the
  cast of the range to 64 signed bits truncates.\<close>

definition jitter_range :: "nat \<Rightarrow> int" where
  "jitter_range iv = signed_take_bit 63 (int (iv div 20))"

definition sleep_duration :: "nat \<Rightarrow> int \<Rightarrow> nat" where
  "sleep_duration iv jitter_nanos =
     (if jitter_nanos \<ge> 0 then iv + nat jitter_nanos else iv - nat (- jitter_nanos))"

definition start_gc_loops :: "('c, 'd) CrdtEngine \<Rightarrow> nat option \<times> nat" where
  "start_gc_loops eng =
     (coordinator_initiate_interval (eng_gc eng), coordinator_observe_interval (eng_gc eng))"

subsection \<open>Facts about the handlers\<close>

lemma engine_new_simps [simp, eng_simps]:
  "eng_node_id (engine_new n c x d cfg) = n" "eng_crdt_id (engine_new n c x d cfg) = c"
  "eng_gc (engine_new n c x d cfg) = coordinator_new cfg" "eng_dissemination (engine_new n c x d cfg) = d"
  "eng_crdt (engine_new n c x d cfg) = x" "eng_dvv (engine_new n c x d cfg) = dvv_new n"
  by (simp_all add: engine_new_def)

lemma gc_fields_simps [simp]:
  "set_gc_fields eng (gc_fields eng) = eng"
  "eng_node_id (set_gc_fields eng st) = eng_node_id eng"
  "eng_crdt_id (set_gc_fields eng st) = eng_crdt_id eng"
  "eng_dissemination (set_gc_fields eng st) = eng_dissemination eng"
  by (simp_all add: gc_fields_def set_gc_fields_def split: prod.splits)

lemma do_pull_simps [simp, eng_simps]:
  "eng_node_id (do_pull E rng eng) = eng_node_id eng" "eng_crdt_id (do_pull E rng eng) = eng_crdt_id eng"
  "eng_gc (do_pull E rng eng) = eng_gc eng" "eng_crdt (do_pull E rng eng) = eng_crdt eng"
  "eng_dvv (do_pull E rng eng) = eng_dvv eng"
  by (simp_all add: do_pull_def)

lemma client_operation_simps [simp, eng_simps]:
  "eng_node_id (client_operation E rng op eng) = eng_node_id eng"
  "eng_crdt_id (client_operation E rng op eng) = eng_crdt_id eng"
  "eng_gc (client_operation E rng op eng) = eng_gc eng"
  "eng_dvv (client_operation E rng op eng) = dvv_event (eng_dvv eng)"
  "eng_crdt (client_operation E rng op eng) = crdt_apply_local (env_crdt E) (eng_crdt eng)
     (Dot_new (node_id (dvv_dot (eng_dvv eng))) (counter (dvv_dot (eng_dvv eng)) + 1)) op"
  by (simp_all add: client_operation_def Let_def)

lemma server_pull_request_simps [simp, eng_simps]:
  "eng_node_id (server_pull_request E n c k eng) = eng_node_id eng"
  "eng_crdt_id (server_pull_request E n c k eng) = eng_crdt_id eng"
  "eng_crdt (server_pull_request E n c k eng) = eng_crdt eng"
  "eng_dvv (server_pull_request E n c k eng) = eng_dvv eng"
  by (simp_all add: server_pull_request_def Let_def)

lemma server_delta_simps [simp, eng_simps]:
  "eng_node_id (server_delta E rng c b km eng) = eng_node_id eng"
  "eng_crdt_id (server_delta E rng c b km eng) = eng_crdt_id eng"
  by (auto simp: server_delta_def Let_def split: sum.splits prod.splits)

text \<open>A delta for another CRDT or one that does not decode changes nothing.\<close>

lemma server_delta_ignored:
  "c \<noteq> eng_crdt_id eng \<or> (\<exists>e. crdt_decode_delta (env_crdt E) b = Inl e) \<Longrightarrow> server_delta E rng c b km eng = eng"
  by (auto simp: server_delta_def)

lemma server_delta_merged:
  assumes "c = eng_crdt_id eng" "crdt_decode_delta (env_crdt E) b = Inr dl"
    and "crdt_causal_context (env_crdt E) dl = (ctx, n, ctr)"
  shows "eng_crdt (server_delta E rng c b km eng) = crdt_merge_delta (env_crdt E) (eng_crdt eng) dl"
    and "eng_dvv (server_delta E rng c b km eng) =
      dvv_merge (eng_dvv eng) \<lparr>dvv_dot = Dot_new n ctr, dvv_context = ctx\<rparr>"
    and "eng_gc (server_delta E rng c b km eng) =
      (case km of Some m \<Rightarrow> update_matrix_clock (eng_gc eng) m | None \<Rightarrow> eng_gc eng)"
    and "eng_dissemination (server_delta E rng c b km eng) =
      on_post_merge (env_strategy E) rng (eng_dissemination eng) (eng_node_id eng) (eng_crdt_id eng)
        (engine_gc_replica eng)
        (effective_map (dvv_merge (eng_dvv eng) \<lparr>dvv_dot = Dot_new n ctr, dvv_context = ctx\<rparr>))"
  using assms by (simp_all add: server_delta_def Let_def)

text \<open>The rows a coordinator shares are rows of its matrix.\<close>

lemma knowledge_matrix_rows:
  assumes "coordinator_inv gc" "get_knowledge_matrix gc reg = Some km"
  shows "matrix_ok km" "map_of km p = Some ctx \<Longrightarrow> row gc p = Some ctx"
proof -
  obtain mc where mc: "matrix_clock gc = Some mc"
    and km: "km = fold (\<lambda>n km. case hm_get mc n of Some ctx \<Rightarrow> hm_insert n ctx km | None \<Rightarrow> km)
      (get_all_non_gc_replicas reg) []"
    using assms(2) by (auto simp: get_knowledge_matrix_def split: if_splits option.splits)
  have "matrix_ok mc" using assms(1) mc by (simp add: coordinator_inv_def)
  then have rows_ok: "hm_ok ctx" if "hm_get mc n = Some ctx" for n ctx
    using that by (auto simp: matrix_ok_def simp del: map_of_eq_Some_iff)
  let ?P = "\<lambda>m. matrix_ok m \<and> (\<forall>p ctx. map_of m p = Some ctx \<longrightarrow> hm_get mc p = Some ctx)"
  have "?P m \<Longrightarrow> ?P (fold (\<lambda>n km. case hm_get mc n of Some ctx \<Rightarrow> hm_insert n ctx km | None \<Rightarrow> km) ns m)"
    for ns m
  proof (induction ns arbitrary: m)
    case (Cons n ns)
    have "?P (case hm_get mc n of Some ctx \<Rightarrow> hm_insert n ctx m | None \<Rightarrow> m)"
    proof (cases "hm_get mc n")
      case None
      then show ?thesis using Cons.prems by (simp del: map_of_eq_Some_iff)
    next
      case (Some ctx)
      then show ?thesis
        using Cons.prems matrix_ok_insert [OF _ rows_ok [OF Some], of m]
        by (simp del: map_of_eq_Some_iff)
    qed
    then show ?case unfolding fold_simps by (rule Cons.IH)
  next
    case Nil
    then show ?case unfolding fold_simps .
  qed
  moreover have "?P []" by (simp add: matrix_ok_def)
  ultimately have P: "?P km" unfolding km by blast
  then show "matrix_ok km" by (rule conjunct1)
  show "row gc p = Some ctx" if "map_of km p = Some ctx"
  proof -
    have "hm_get mc p = Some ctx" using P that by blast
    then show ?thesis unfolding row_def mc option.case .
  qed
qed

subsection \<open>The answer to a pull request\<close>

lemma map_of_delta_context:
  assumes "dvv_inv s"
  shows "map_of (dvv_context (dvv_delta_since s r)) n =
    (case map_of (effective_map s) n of None \<Rightarrow> None
     | Some c \<Rightarrow> if c > hm_or r n 0 \<and> n \<noteq> node_id (dvv_dot s) then Some c else None)"
  using assms delta_ctx_fold [of "effective_map s" "[]" r "node_id (dvv_dot s)" n, unfolded Let_def]
  unfolding dvv_delta_since_def Let_def by (auto split: option.splits)

text \<open>The clock delta is empty exactly when the peer knows everything.\<close>

lemma delta_nonempty_iff:
  assumes "dvv_inv s"
  shows "counter (dvv_dot (dvv_delta_since s r)) \<noteq> 0 \<or> dvv_context (dvv_delta_since s r) \<noteq> [] \<longleftrightarrow>
    (\<exists>n. hm_or r n 0 < effective_counter s n)"
proof
  assume "\<exists>n. hm_or r n 0 < effective_counter s n"
  then obtain n where n: "hm_or r n 0 < effective_counter s n" ..
  then have "effective_counter (dvv_delta_since s r) n \<noteq> 0"
    using assms by (auto simp: effective_counter_delta)
  then show "counter (dvv_dot (dvv_delta_since s r)) \<noteq> 0 \<or> dvv_context (dvv_delta_since s r) \<noteq> []"
    by (auto simp: effective_counter_def Let_def split: if_splits)
next
  assume *: "counter (dvv_dot (dvv_delta_since s r)) \<noteq> 0 \<or> dvv_context (dvv_delta_since s r) \<noteq> []"
  show "\<exists>n. hm_or r n 0 < effective_counter s n"
  proof (cases "counter (dvv_dot (dvv_delta_since s r)) = 0")
    case False
    then have "hm_or r (node_id (dvv_dot s)) 0 < counter (dvv_dot s)"
      unfolding dvv_delta_since_dot by argo
    then show ?thesis unfolding effective_counter_own [OF assms, symmetric] ..
  next
    case True
    with * obtain n c xs where "dvv_context (dvv_delta_since s r) = (n, c) # xs"
      by (metis list.exhaust surj_pair)
    then have "map_of (dvv_context (dvv_delta_since s r)) n = Some c" by simp
    then have "(case map_of (effective_map s) n of None \<Rightarrow> None
        | Some c' \<Rightarrow> if c' > hm_or r n 0 \<and> n \<noteq> node_id (dvv_dot s) then Some c' else None) = Some c"
      by (simp only: map_of_delta_context [OF assms])
    then have eff: "map_of (effective_map s) n = Some c" and less: "hm_or r n 0 < c"
      by (simp_all only: split: option.splits if_splits) simp_all
    have "effective_counter s n = c"
      using hm_or_Some [OF eff, of 0] by (simp only: hm_or_effective_map)
    then show ?thesis using less by blast
  qed
qed

lemma fully_ahead_iff:
  assumes "hm_ok k"
  shows "list_all (\<lambda>(node, remote_ctr). remote_ctr \<le> f node) k \<longleftrightarrow> (\<forall>n. hm_or k n (0 :: Counter) \<le> f n)"
proof
  assume l: "list_all (\<lambda>(node, remote_ctr). remote_ctr \<le> f node) k"
  show "\<forall>n. hm_or k n 0 \<le> f n"
  proof
    fix n
    show "hm_or k n 0 \<le> f n"
      using l by (cases "map_of k n") (auto simp: hm_or_def list_all_iff simp del: map_of_eq_Some_iff dest: map_of_SomeD)
  qed
next
  assume a: "\<forall>n. hm_or k n 0 \<le> f n"
  have "c \<le> f n" if "(n, c) \<in> set k" for n c
    using a [rule_format, of n] hm_or_Some [OF map_of_is_SomeI [OF assms that]] by simp
  then show "list_all (\<lambda>(node, remote_ctr). remote_ctr \<le> f node) k" by (auto simp: list_all_iff)
qed

lemma server_pull_request_answer:
  assumes "cid = eng_crdt_id eng" "dvv_inv (eng_dvv eng)" "hm_ok k"
  shows "eng_dissemination (server_pull_request E from_node cid k eng) =
    respond_to_pull_request (env_strategy E) (eng_dissemination eng) from_node cid (eng_node_id eng)
      (if engine_gc_replica eng \<and> requester_collects (engine_registry E eng) from_node \<or>
          (\<exists>n. hm_or k n 0 < effective_counter (eng_dvv eng) n)
       then Some (crdt_encode_delta (env_crdt E) (crdt_delta_since (env_crdt E) (eng_crdt eng) k (eng_dvv eng)))
       else None)
      (engine_gc_replica eng)
      (if requester_collects (engine_registry E eng) from_node
       then get_knowledge_matrix (update_matrix_clock (eng_gc eng) [(from_node, k)]) (engine_registry E eng)
       else None)
      (if \<exists>n. effective_counter (eng_dvv eng) n < hm_or k n 0 then Some (effective_map (eng_dvv eng)) else None)"
    and "eng_gc (server_pull_request E from_node cid k eng) = update_matrix_clock (eng_gc eng) [(from_node, k)]"
  using assms(1)
  by (simp_all only: server_pull_request_def Let_def if_not_P not_not delta_nonempty_iff [OF assms(2)]
      fully_ahead_iff [OF assms(3)] hm_or_effective_map not_all not_le simp_thms if_False) simp_all

subsection \<open>The types of the state\<close>

text \<open>What the types of the source promise of an engine and of a request, and the documented form of the
  clock: maps have one entry per key, the clock and the engine carry the same id, and a matrix is there
  exactly in a collecting replica.\<close>

definition engine_inv :: "('c, 'd) CrdtEngine \<Rightarrow> bool" where
  "engine_inv eng \<longleftrightarrow> dvv_inv (eng_dvv eng) \<and> node_id (dvv_dot (eng_dvv eng)) = eng_node_id eng \<and>
     coordinator_inv (eng_gc eng)"

definition request_typed ::
  "('c, 'op, 'dl, 'h, 'd, 's) engine_env \<Rightarrow> ('c, 'd) CrdtEngine \<Rightarrow> 'op CrdtEngineRequest \<Rightarrow> bool" where
  "request_typed E eng rq = (case rq of
     ClientOperation _ \<Rightarrow> counter (dvv_dot (eng_dvv eng)) \<noteq> - 1
   | DeltaRequest _ _ k \<Rightarrow> hm_ok k
   | DeltaResponse _ _ b km \<Rightarrow> (case km of None \<Rightarrow> True | Some m \<Rightarrow> matrix_ok m) \<and>
       (\<forall>dl. crdt_decode_delta (env_crdt E) b = Inr dl \<longrightarrow> hm_ok (fst (crdt_causal_context (env_crdt E) dl)))
   | _ \<Rightarrow> True)"

lemma fold_forget_observed_keeps:
  "fold forget_observed ps (self, dvv) = (self', dvv') \<Longrightarrow> coordinator_inv self \<Longrightarrow> dvv_inv dvv \<Longrightarrow>
   coordinator_inv self' \<and> dvv_inv dvv' \<and> node_id (dvv_dot dvv') = node_id (dvv_dot dvv)"
proof (induction ps arbitrary: self dvv)
  case (Cons p ps)
  have "node_id (dvv_dot (dvv_remove p dvv)) = node_id (dvv_dot dvv)" by (simp add: dvv_remove_def)
  then show ?case using Cons by (auto simp: forget_observed_def split: if_splits)
qed simp

lemma coordinator_inv_epoch [simp]: "coordinator_inv (self\<lparr>gc_epoch := n\<rparr>) = coordinator_inv self"
  by (simp add: coordinator_inv_def)

lemma observe_keeps:
  assumes "engine_inv eng" "engine_observe_epoch_change E eng s = (r, eng', s')"
  shows "engine_inv eng' \<and> eng_node_id eng' = eng_node_id eng \<and> eng_crdt_id eng' = eng_crdt_id eng"
proof -
  obtain gc' crdt' dvv' where o: "observe_epoch_change (env_crdt E) (env_storage E) (eng_node_id eng) (gc_fields eng) s
      = (r, (gc', crdt', dvv'), s')" and e: "eng' = set_gc_fields eng (gc', crdt', dvv')"
    using assms(2) by (auto simp: engine_observe_epoch_change_def split: prod.splits)
  have "coordinator_inv gc' \<and> dvv_inv dvv' \<and> node_id (dvv_dot dvv') = eng_node_id eng"
    using o assms(1)
    by (auto simp: observe_epoch_change_def gc_fields_def engine_inv_def Let_def
        split: prod.splits sum.splits if_splits dest: fold_forget_observed_keeps)
  then show ?thesis by (simp add: e engine_inv_def set_gc_fields_def)
qed

lemma gc_commit_keeps:
  assumes "gc_commit C G sid n v obs (self, crdt, dvv) s = (r, (self', crdt', dvv'), s')"
    and "coordinator_inv self" "dvv_inv dvv"
  shows "coordinator_inv self' \<and> dvv_inv dvv' \<and> node_id (dvv_dot dvv') = node_id (dvv_dot dvv)"
proof -
  obtain self1 dvv1 v1 where f: "fold forget_obsolete obs (self, dvv, v) = (self1, dvv1, v1)"
    by (metis prod_cases3)
  then have "coordinator_inv self1 \<and> dvv_inv dvv1 \<and> node_id (dvv_dot dvv1) = node_id (dvv_dot dvv)"
    using fold_forget_obsolete_inv [OF f assms(2,3)] fold_forget_obsolete_config [OF f] by simp
  then show ?thesis
    using assms(1) f by (auto simp: gc_commit_def Let_def split: prod.splits sum.splits)
qed

lemma initiate_keeps:
  assumes "engine_inv eng" "engine_initiate_gc E eng s = (r, eng', s')"
  shows "engine_inv eng' \<and> eng_node_id eng' = eng_node_id eng \<and> eng_crdt_id eng' = eng_crdt_id eng"
proof -
  obtain gc' crdt' dvv' where i: "initiate_gc (env_crdt E) (env_storage E) (env_members E) (eng_node_id eng)
      (eng_gc eng, eng_crdt eng, eng_dvv eng) s = (r, (gc', crdt', dvv'), s')"
    and e: "eng' = set_gc_fields eng (gc', crdt', dvv')"
    using assms(2) by (auto simp: engine_initiate_gc_def gc_fields_def split: prod.splits)
  from initiate_gc_cases [OF i] gc_commit_keeps assms(1)
  have "coordinator_inv gc' \<and> dvv_inv dvv' \<and> node_id (dvv_dot dvv') = eng_node_id eng"
    unfolding engine_inv_def by (metis prod.inject)
  then show ?thesis by (simp add: e engine_inv_def set_gc_fields_def)
qed

lemma delta_keeps:
  assumes "engine_inv eng" "request_typed E eng (DeltaResponse n cid b km)"
  shows "engine_inv (server_delta E rng cid b km eng)"
proof (cases "cid = eng_crdt_id eng \<and> (\<exists>dl. crdt_decode_delta (env_crdt E) b = Inr dl)")
  case True
  then obtain dl where dl: "cid = eng_crdt_id eng" "crdt_decode_delta (env_crdt E) b = Inr dl" by blast
  obtain ctx nid ctr where c: "crdt_causal_context (env_crdt E) dl = (ctx, nid, ctr)" by (metis prod_cases3)
  have "hm_ok ctx" using assms(2) dl(2) c by (auto simp: request_typed_def)
  then show ?thesis
    using assms
    by (auto simp: engine_inv_def server_delta_merged [OF dl c] dvv_inv_merge request_typed_def
        coordinator_inv_update split: option.splits)
next
  case False
  then have "server_delta E rng cid b km eng = eng"
    by (intro server_delta_ignored) (metis obj_sumE)
  then show ?thesis using assms(1) by simp
qed

lemma pull_request_keeps:
  assumes "engine_inv eng" "hm_ok k"
  shows "engine_inv (server_pull_request E n cid k eng)"
proof -
  have "matrix_ok [(n, k)]" using assms(2) by (simp add: matrix_ok_def)
  then have "coordinator_inv (update_matrix_clock (eng_gc eng) [(n, k)])"
    using assms(1) by (intro coordinator_inv_update) (simp_all add: engine_inv_def)
  then show ?thesis using assms(1) by (auto simp: engine_inv_def server_pull_request_def Let_def)
qed

text \<open>C10.  Every request leaves the engine's state well-formed, whatever CRDT, strategy, storage and
  membership service it works with and on every error path of the collector: the clock keeps its
  documented form and its node, the engine its identity, and a matrix exists exactly in a collecting
  replica, so the \<^verbatim>\<open>unwrap()\<close> calls on it never panic.  A new engine is well-formed.\<close>

theorem engine_well_formed:
  assumes "engine_inv eng" "request_typed E eng rq"
  shows "engine_inv (fst (snd (handle_request E rng rq (eng, s)))) \<and>
    eng_node_id (fst (snd (handle_request E rng rq (eng, s)))) = eng_node_id eng \<and>
    eng_crdt_id (fst (snd (handle_request E rng rq (eng, s)))) = eng_crdt_id eng \<and>
    engine_inv (engine_new n c x d cfg)"
proof -
  have new: "engine_inv (engine_new n c x d cfg)" by (simp add: engine_inv_def)
  show ?thesis
  proof (cases rq)
    case (ClientOperation op)
    then show ?thesis
      using assms new by (auto simp: engine_inv_def request_typed_def dvv_inv_event)
  next
    case (DeltaRequest n c k)
    then show ?thesis using assms new pull_request_keeps by (auto simp: request_typed_def)
  next
    case (DeltaResponse n c b km)
    then show ?thesis using assms new delta_keeps by auto
  next
    case InitiateGc
    obtain r eng' s' where "engine_initiate_gc E eng s = (r, eng', s')" by (metis prod_cases3)
    with initiate_keeps [OF assms(1) this] show ?thesis using new by (simp add: InitiateGc)
  next
    case ObserveEpochChange
    obtain r eng' s' where "engine_observe_epoch_change E eng s = (r, eng', s')" by (metis prod_cases3)
    with observe_keeps [OF assms(1) this] show ?thesis using new by (simp add: ObserveEpochChange)
  qed (use assms(1) new in \<open>auto simp: engine_inv_def\<close>)
qed

theorem engine_well_formed_witness:
  "engine_inv (fst (snd (handle_request
     \<lparr>env_crdt = or_set_crdt (\<lambda>_. []) (\<lambda>_. Inl ProstDecodeError), env_strategy = pull_strategy (\<lambda>(_ :: unit) _. Inl ()),
      env_registry = peer_registry, env_storage = idle_storage default_epoch_metadata default_epoch_state,
      env_members = (\<lambda>s. (Inr [], s))\<rparr> 0 (ClientOperation (Add ''x''))
     (engine_new ''A'' ''c'' OrSet_new (pull_new registry_new 1) (gc_config (demo_coordinator [])), ()))))"
proof -
  have inv: "engine_inv (engine_new ''A'' ''c'' OrSet_new (pull_new registry_new 1) (gc_config (demo_coordinator [])))"
    by (simp add: engine_inv_def)
  show ?thesis
    by (rule conjunct1, rule engine_well_formed [OF inv]) (simp add: request_typed_def dvv_new_def)
qed

end
