(* ===== verification/Peer_Messages.thy ===== *)
theory Peer_Messages
  imports Engine
begin

text \<open>
  Routing of received envelopes to the engine, \<^verbatim>\<open>src/server/peer_message_handler.rs\<close>.  The engine's
  channel is an argument: a state \<open>q\<close> and a function that puts a request into it or fails.  With a
  channel that never fails an envelope is the list of requests \<open>envelope_requests\<close>.
\<close>

type_synonym ('op, 'e, 'q) engine_send = "'q \<Rightarrow> 'op CrdtEngineRequest \<Rightarrow> ('e, 'q) result"

text \<open>The two conversions of message fields.\<close>

definition matrix_of_proto :: "KnowledgeMatrix \<Rightarrow> Matrix" where
  "matrix_of_proto km = hm_collect (map (\<lambda>(nid, vc). (nid, vc_entries vc)) (km_entries km))"

definition knowledge_of_proto :: "VectorClock option \<Rightarrow> CausalContext" where
  "knowledge_of_proto vc = unwrap_or (map_option vc_entries vc) []"

definition handle_received_envelope ::
  "('op, 'e, 'q) engine_send \<Rightarrow> Envelope \<Rightarrow> 'q \<Rightarrow> 'q" where
  "handle_received_envelope send envelope q =
     (case payload envelope of
        Some (PCrdtOp crdt_op) \<Rightarrow>
          let origin_id = op_origin_node_id crdt_op;
              cid = op_crdt_id crdt_op;
              requester_knowledge = op_requester_knowledge crdt_op
          in (case send q (DeltaResponse origin_id cid (op_payload crdt_op)
                     (map_option matrix_of_proto (op_knowledge_matrix crdt_op))) of
                Inl _ \<Rightarrow> q
              | Inr q1 \<Rightarrow> (case requester_knowledge of
                    Some vc \<Rightarrow>
                      if vc_entries vc \<noteq> []
                      then (case send q1 (DeltaRequest origin_id cid (vc_entries vc)) of
                              Inl _ \<Rightarrow> q1
                            | Inr q2 \<Rightarrow> q2)
                      else q1
                  | None \<Rightarrow> q1))
      | Some (PCrdtPullRequest req) \<Rightarrow>
          (case send q (DeltaRequest (pr_origin_node_id req) (pr_crdt_id req) (knowledge_of_proto (pr_knowledge req))) of
             Inl _ \<Rightarrow> q
           | Inr q1 \<Rightarrow> q1)
      | _ \<Rightarrow> q)"

definition envelope_requests :: "Envelope \<Rightarrow> 'op CrdtEngineRequest list" where
  "envelope_requests envelope =
     handle_received_envelope (\<lambda>q rq. (Inr (q @ [rq]) :: unit + 'op CrdtEngineRequest list)) envelope []"

subsection \<open>What is routed\<close>

lemma matrix_of_proto_matrix [simp]:
  "hm_ok m \<Longrightarrow> matrix_of_proto \<lparr>km_entries = hm_collect (map (\<lambda>(nid, k). (nid, \<lparr>vc_entries = k\<rparr>)) m)\<rparr> = m"
proof -
  assume ok: "hm_ok m"
  have keys: "map fst (map (\<lambda>(nid, k). (nid, f k)) xs) = map fst xs" for f xs
    by (induction xs) auto
  have "hm_collect (map (\<lambda>(nid, k). (nid, \<lparr>vc_entries = k\<rparr>)) m) = map (\<lambda>(nid, k). (nid, \<lparr>vc_entries = k\<rparr>)) m"
    using ok by (intro hm_collect_distinct) (simp only: keys)
  moreover have "map (\<lambda>(nid, vc). (nid, vc_entries vc)) (map (\<lambda>(nid, k). (nid, \<lparr>vc_entries = k\<rparr>)) m) = m"
    by (induction m) auto
  ultimately show ?thesis
    using ok by (simp only: matrix_of_proto_def KnowledgeMatrix.simps hm_collect_distinct)
qed

lemma envelope_requests_pull [simp]:
  "envelope_requests (make_pull_request_envelope cid orig g k) = [DeltaRequest orig cid k]"
  by (simp add: envelope_requests_def handle_received_envelope_def make_pull_request_envelope_def
      knowledge_of_proto_def unwrap_or_def)

lemma envelope_requests_op [simp]:
  assumes "\<And>m. km = Some m \<Longrightarrow> hm_ok m"
  shows "envelope_requests (make_crdt_op_envelope cid orig data km vv) =
     DeltaResponse orig cid data km #
       (case vv of Some k \<Rightarrow> if k \<noteq> [] then [DeltaRequest orig cid k] else [] | None \<Rightarrow> [])"
  using assms
  by (cases km) (auto simp: envelope_requests_def handle_received_envelope_def make_crdt_op_envelope_def
      split: option.splits)

text \<open>A channel that accepts everything turns an envelope into its requests, in order.\<close>

lemma handle_received_open:
  "handle_received_envelope (\<lambda>q rq. Inr (q @ [rq])) env q = q @ envelope_requests env"
  by (auto simp: envelope_requests_def handle_received_envelope_def Let_def
      split: option.splits Payload.splits)

lemma handle_received_quiet:
  "handle_received_envelope send \<lparr>payload = Some (PHandshake hs)\<rparr> w = w"
  "handle_received_envelope send \<lparr>payload = None\<rparr> w = w"
  by (simp_all add: handle_received_envelope_def)

lemma handle_received_refused:
  assumes "\<And>m. km = Some m \<Longrightarrow> hm_ok m" and "send w (DeltaResponse orig cid data km) = Inl e"
  shows "handle_received_envelope send (make_crdt_op_envelope cid orig data km vv) w = w"
  using assms by (cases km) (simp_all add: handle_received_envelope_def make_crdt_op_envelope_def)

text \<open>C26.  Routing of envelopes.  A pull request becomes one request with its sender's knowledge; a
  delta becomes a merge and, if it carries a piggybacked knowledge that is not empty, a pull request
  of its sender after it (so the piggybacked request of a replica that knows nothing is dropped);
  handshakes and envelopes without payload do not reach the engine.  When the engine's channel
  refuses the merge the piggybacked request is not sent either.\<close>

theorem envelope_routing:
  fixes send :: "('op, 'e, 'q) engine_send"
  assumes "\<forall>m. km = Some m \<longrightarrow> hm_ok m"
  shows "handle_received_envelope (\<lambda>q rq. Inr (q @ [rq])) (make_pull_request_envelope cid orig g k) q =
      q @ [DeltaRequest orig cid k] \<and>
    handle_received_envelope (\<lambda>q rq. Inr (q @ [rq])) (make_crdt_op_envelope cid orig data km vv) q =
      q @ DeltaResponse orig cid data km #
        (case vv of None \<Rightarrow> [] | Some k \<Rightarrow> if k = [] then [] else [DeltaRequest orig cid k]) \<and>
    handle_received_envelope send \<lparr>payload = Some (PHandshake hs)\<rparr> w = w \<and>
    handle_received_envelope send \<lparr>payload = None\<rparr> w = w \<and>
    (send w (DeltaResponse orig cid data km) = Inl e \<longrightarrow>
       handle_received_envelope send (make_crdt_op_envelope cid orig data km vv) w = w)"
proof -
  have ok: "\<And>m. km = Some m \<Longrightarrow> hm_ok m" using assms by blast
  show ?thesis
    using ok
    by (simp add: handle_received_open handle_received_quiet handle_received_refused
        split: option.splits)
qed

theorem envelope_routing_witness:
  "handle_received_envelope (\<lambda>q rq. Inr (q @ [rq]))
     (make_crdt_op_envelope ''c'' ''A'' [1] (Some [(''B'', [(''A'', 2)])]) (Some [])) [] =
   [DeltaResponse ''A'' ''c'' [1] (Some [(''B'', [(''A'', 2)])])]"
proof -
  have ok: "\<forall>m. Some [(''B'', [(''A'', 2 :: Counter)])] = Some m \<longrightarrow> hm_ok m" by simp
  from envelope_routing [where vv = "Some []" and q = "[]", OF ok, THEN conjunct2, THEN conjunct1]
  show ?thesis by simp
qed

end
