(* ===== verification/Replication.thy ===== *)
theory Replication
  imports Peer_Messages
begin

text \<open>
  The replicas as a distributed system: engines that serve clients, send each other pull requests
  and deltas over unreliable channels, and come and go in each other's registries.

  A channel is the list of the envelopes written to it so far (\<open>log_send\<close>).  The steps deliver any of
  them at any time, any number of times or never, so loss, duplication, reordering and delay are all
  covered, as is a full channel.  The requests an envelope causes reach the engine separately, between
  any others.  A connection registered under a node's id leads to that node.  Garbage collection
  is not a step here: \<open>Collection\<close> adds it.

  The history is a ghost: for every dot, the operation a client performed with it and the state of the
  set it was applied to.  The locale \<open>replication\<close> is the contract between the engine and a delta CRDT: a
  relation \<open>holds\<close> between the history, the knowledge of a replica and its state that local operations and
  merged deltas keep.  The invariant of the system is proved once from it, for every dissemination
  strategy; the OR-Set is shown to meet it with the specification of an observed-remove set.
\<close>

named_theorems net_simps \<open>the system's state after a step\<close>

subsection \<open>The system\<close>

type_synonym channel = "Envelope list"

definition log_send :: "(channel, unit) try_send" where
  "log_send tx envelope = Inr (tx @ [envelope])"

type_synonym ('op, 'c) history = "Dot \<Rightarrow> ('op \<times> 'c) option"

record ('c, 'op, 'd) system =
  replica :: "NodeId \<Rightarrow> ('c, 'd) CrdtEngine"
  history :: "('op, 'c) history"

definition next_dot :: "('c, 'd) CrdtEngine \<Rightarrow> Dot" where
  "next_dot eng = Dot_new (node_id (dvv_dot (eng_dvv eng))) (counter (dvv_dot (eng_dvv eng)) + 1)"

text \<open>What a replica knows: the effective counters of its clock.\<close>

definition know :: "('c, 'op, 'd) system \<Rightarrow> NodeId \<Rightarrow> NodeId \<Rightarrow> Counter" where
  "know S i = effective_counter (eng_dvv (replica S i))"

definition set_replica :: "('c, 'op, 'd) system \<Rightarrow> NodeId \<Rightarrow> ('c, 'd) CrdtEngine \<Rightarrow> ('c, 'op, 'd) system" where
  "set_replica S i eng = S\<lparr>replica := (replica S)(i := eng)\<rparr>"

inductive net_step ::
  "('c, 'op, 'dl, channel, 'd, 's) engine_env \<Rightarrow> ('op \<Rightarrow> bool) \<Rightarrow> ('c, 'op, 'd) system \<Rightarrow> ('c, 'op, 'd) system \<Rightarrow> bool"
  for E :: "('c, 'op, 'dl, channel, 'd, 's) engine_env" and op_ok :: "'op \<Rightarrow> bool"
where
  local_step: "op_ok op \<Longrightarrow> counter (dvv_dot (eng_dvv (replica S i))) \<noteq> - 1 \<Longrightarrow>
     net_step E op_ok S
       ((set_replica S i (client_operation E rng op (replica S i)))
          \<lparr>history := (history S)(next_dot (replica S i) \<mapsto> (op, eng_crdt (replica S i)))\<rparr>)"
| pull_step: "net_step E op_ok S (set_replica S i (do_pull E rng (replica S i)))"
| receive_step: "registry_get (engine_registry E (replica S i)) j = Some (g, log) \<Longrightarrow>
     env \<in> set log \<Longrightarrow> rq \<in> set (envelope_requests env) \<Longrightarrow>
     net_step E op_ok S (set_replica S j (fst (snd (handle_request E rng rq (replica S j, w)))))"
| connect_step: "env_registry E d = registry_insert (engine_registry E (replica S i)) j g [] \<Longrightarrow>
     net_step E op_ok S (set_replica S i ((replica S i)\<lparr>eng_dissemination := d\<rparr>))"
| disconnect_step: "env_registry E d = fst (registry_remove (engine_registry E (replica S i)) j) \<Longrightarrow>
     net_step E op_ok S (set_replica S i ((replica S i)\<lparr>eng_dissemination := d\<rparr>))"

inductive net_run ::
  "('c, 'op, 'dl, channel, 'd, 's) engine_env \<Rightarrow> ('op \<Rightarrow> bool) \<Rightarrow> string \<Rightarrow> 'c \<Rightarrow> ('c, 'op, 'd) system \<Rightarrow> bool"
  for E :: "('c, 'op, 'dl, channel, 'd, 's) engine_env" and op_ok :: "'op \<Rightarrow> bool"
    and cid :: string and crdt0 :: 'c
where
  net_start: "(\<And>i. replica S i = engine_new i cid crdt0 (d i) (cfg i)) \<Longrightarrow>
     (\<And>i. env_registry E (d i) = registry_new) \<Longrightarrow> history S = (\<lambda>_. None) \<Longrightarrow> net_run E op_ok cid crdt0 S"
| net_next: "net_run E op_ok cid crdt0 S \<Longrightarrow> net_step E op_ok S S' \<Longrightarrow> net_run E op_ok cid crdt0 S'"

subsection \<open>What travels\<close>

text \<open>A vector that claims no more than \<open>k\<close>.\<close>

definition below :: "CausalContext \<Rightarrow> (NodeId \<Rightarrow> Counter) \<Rightarrow> bool" where
  "below v k \<longleftrightarrow> hm_ok v \<and> (\<forall>n. hm_or v n 0 \<le> k n)"

definition matrix_below :: "Matrix \<Rightarrow> (NodeId \<Rightarrow> NodeId \<Rightarrow> Counter) \<Rightarrow> bool" where
  "matrix_below m ks \<longleftrightarrow> matrix_ok m \<and> (\<forall>p ctx. map_of m p = Some ctx \<longrightarrow> below ctx (ks p))"

text \<open>A payload for a replica that knows at least \<open>k\<close>: a delta against some part \<open>r\<close> of that.\<close>

definition payload_ok ::
  "('c, 'op, 'dl) DeltaCrdt \<Rightarrow> (('op, 'c) history \<Rightarrow> (NodeId \<Rightarrow> Counter) \<Rightarrow> 'c \<Rightarrow> bool) \<Rightarrow> ('op, 'c) history
     \<Rightarrow> (NodeId \<Rightarrow> NodeId \<Rightarrow> Counter) \<Rightarrow> NodeId \<Rightarrow> bytes \<Rightarrow> bool" where
  "payload_ok C holds h ks j data \<longleftrightarrow> (\<exists>t dvv r.
     data = crdt_encode_delta C (crdt_delta_since C t r dvv) \<and> dvv_inv dvv \<and>
     holds h (effective_counter dvv) t \<and> (\<forall>n. hm_or r n 0 \<le> ks j n) \<and>
     (\<forall>n. effective_counter dvv n \<le> ks n n))"

text \<open>An envelope from \<open>i\<close> to \<open>j\<close>.\<close>

definition envelope_ok ::
  "('c, 'op, 'dl) DeltaCrdt \<Rightarrow> (('op, 'c) history \<Rightarrow> (NodeId \<Rightarrow> Counter) \<Rightarrow> 'c \<Rightarrow> bool) \<Rightarrow> ('op, 'c) history
     \<Rightarrow> (NodeId \<Rightarrow> NodeId \<Rightarrow> Counter) \<Rightarrow> NodeId \<Rightarrow> NodeId \<Rightarrow> Envelope \<Rightarrow> bool" where
  "envelope_ok C holds h ks i j env \<longleftrightarrow>
     (\<exists>cid g k. env = make_pull_request_envelope cid i g k \<and> below k (ks i)) \<or>
     (\<exists>cid data km vv. env = make_crdt_op_envelope cid i data km vv \<and>
        (\<forall>k. vv = Some k \<longrightarrow> below k (ks i)) \<and> (\<forall>m. km = Some m \<longrightarrow> matrix_below m ks) \<and>
        payload_ok C holds h ks j data)"

subsection \<open>The invariant\<close>

definition engine_ok :: "NodeId \<Rightarrow> (NodeId \<Rightarrow> NodeId \<Rightarrow> Counter) \<Rightarrow> ('c, 'd) CrdtEngine \<Rightarrow> bool" where
  "engine_ok i ks eng \<longleftrightarrow> eng_node_id eng = i \<and> node_id (dvv_dot (eng_dvv eng)) = i \<and> dvv_inv (eng_dvv eng) \<and>
     coordinator_inv (eng_gc eng) \<and> (\<forall>p ctx. row (eng_gc eng) p = Some ctx \<longrightarrow> below ctx (ks p))"

definition channels_ok ::
  "('c, 'op, 'dl) DeltaCrdt \<Rightarrow> (('op, 'c) history \<Rightarrow> (NodeId \<Rightarrow> Counter) \<Rightarrow> 'c \<Rightarrow> bool) \<Rightarrow> ('op, 'c) history
     \<Rightarrow> (NodeId \<Rightarrow> NodeId \<Rightarrow> Counter) \<Rightarrow> NodeId \<Rightarrow> channel PeerRegistry \<Rightarrow> bool" where
  "channels_ok C holds h ks i reg \<longleftrightarrow> (\<forall>j g log. registry_get reg j = Some (g, log) \<longrightarrow>
     (\<forall>env \<in> set log. envelope_ok C holds h ks i j env))"

definition net_inv ::
  "('c, 'op, 'dl, channel, 'd, 's) engine_env \<Rightarrow> (('op, 'c) history \<Rightarrow> (NodeId \<Rightarrow> Counter) \<Rightarrow> 'c \<Rightarrow> bool)
     \<Rightarrow> ('c, 'op, 'd) system \<Rightarrow> bool" where
  "net_inv E holds S \<longleftrightarrow>
     (\<forall>i. engine_ok i (know S) (replica S i)) \<and>
     (\<forall>i. holds (history S) (know S i) (eng_crdt (replica S i))) \<and>
     (\<forall>i n. know S i n \<le> know S n n) \<and>
     (\<forall>d. history S d \<noteq> None \<longrightarrow> counter d \<le> know S (node_id d) (node_id d)) \<and>
     (\<forall>i. channels_ok (env_crdt E) holds (history S) (know S) i (engine_registry E (replica S i)))"

subsection \<open>Growing knowledge\<close>

lemma below_mono: "below v k \<Longrightarrow> (\<And>n. k n \<le> k' n) \<Longrightarrow> below v k'"
  unfolding below_def by (meson order_trans)

lemma below_effective_map [simp]: "dvv_inv dvv \<Longrightarrow> below (effective_map dvv) (effective_counter dvv)"
  by (simp add: below_def)

lemma below_join: "below v k \<Longrightarrow> below v' k \<Longrightarrow> below (vv_join v v') k"
  by (simp add: below_def vv_simps)

lemma matrix_below_mono: "matrix_below m ks \<Longrightarrow> (\<And>p n. ks p n \<le> ks' p n) \<Longrightarrow> matrix_below m ks'"
  unfolding matrix_below_def by (meson below_mono)

lemma rows_below_update:
  assumes "coordinator_inv gc" "matrix_below m ks"
    and "\<And>p ctx. row gc p = Some ctx \<Longrightarrow> below ctx (ks p)"
    and "row (update_matrix_clock gc m) p = Some ctx"
  shows "below ctx (ks p)"
proof (cases "gc_replica (gc_config gc)")
  case True
  have ok: "hm_ok m" and m: "\<And>inc. map_of m p = Some inc \<Longrightarrow> below inc (ks p)"
    using assms(2) by (auto simp: matrix_below_def matrix_ok_def simp del: map_of_eq_Some_iff)
  from assms(4) have "(case map_of m p of None \<Rightarrow> row gc p
      | Some inc \<Rightarrow> Some (case row gc p of None \<Rightarrow> inc | Some cur \<Rightarrow> vv_join inc cur)) = Some ctx"
    unfolding row_update [OF assms(1) True ok] .
  then show ?thesis
    using m assms(3) by (cases "map_of m p"; cases "row gc p") (auto simp: below_join)
next
  case False
  then show ?thesis using assms(3,4) by (simp add: update_matrix_clock_def)
qed

lemma payload_ok_mono:
  assumes "payload_ok C holds h ks j data"
    and "\<And>p n. ks p n \<le> ks' p n"
    and "\<And>k t. holds h k t \<Longrightarrow> (\<And>n. k n \<le> ks n n) \<Longrightarrow> holds h' k t"
  shows "payload_ok C holds h' ks' j data"
proof -
  from assms(1) obtain t dvv r where *: "data = crdt_encode_delta C (crdt_delta_since C t r dvv)"
    "dvv_inv dvv" "holds h (effective_counter dvv) t" "\<And>n. hm_or r n 0 \<le> ks j n"
    "\<And>n. effective_counter dvv n \<le> ks n n"
    unfolding payload_ok_def by blast
  have "holds h' (effective_counter dvv) t" using *(3,5) by (rule assms(3))
  moreover have "hm_or r n 0 \<le> ks' j n" "effective_counter dvv n \<le> ks' n n" for n
    using *(4,5) assms(2) order_trans by blast+
  ultimately show ?thesis unfolding payload_ok_def using *(1,2) by blast
qed

lemma envelope_ok_mono:
  assumes "envelope_ok C holds h ks i j env"
    and "\<And>p n. ks p n \<le> ks' p n"
    and "\<And>k t. holds h k t \<Longrightarrow> (\<And>n. k n \<le> ks n n) \<Longrightarrow> holds h' k t"
  shows "envelope_ok C holds h' ks' i j env"
proof -
  have b: "below k (ks i) \<Longrightarrow> below k (ks' i)" for k
    by (erule below_mono) (rule assms(2))
  have m: "matrix_below x ks \<Longrightarrow> matrix_below x ks'" for x
    by (erule matrix_below_mono) (rule assms(2))
  have p: "payload_ok C holds h ks j x \<Longrightarrow> payload_ok C holds h' ks' j x" for x
    by (erule payload_ok_mono) (rule assms(2), rule assms(3))
  from assms(1) consider cid g k where "env = make_pull_request_envelope cid i g k" "below k (ks i)"
    | cid data km vv where "env = make_crdt_op_envelope cid i data km vv"
      "\<And>k. vv = Some k \<Longrightarrow> below k (ks i)" "\<And>m. km = Some m \<Longrightarrow> matrix_below m ks"
      "payload_ok C holds h ks j data"
    unfolding envelope_ok_def by blast
  then show ?thesis
  proof cases
    case 1
    then show ?thesis unfolding envelope_ok_def using b by blast
  next
    case (2 cid data km vv)
    have "\<forall>k. vv = Some k \<longrightarrow> below k (ks' i)" "\<forall>m. km = Some m \<longrightarrow> matrix_below m ks'"
      "payload_ok C holds h' ks' j data"
      using 2(2-4) b m p by blast+
    with 2(1) show ?thesis unfolding envelope_ok_def by blast
  qed
qed

lemma envelope_ok_pull: "below k (ks i) \<Longrightarrow> envelope_ok C holds h ks i j (make_pull_request_envelope cid i g k)"
  unfolding envelope_ok_def by blast

lemma envelope_ok_op:
  assumes "payload_ok C holds h ks j data" "\<And>k. vv = Some k \<Longrightarrow> below k (ks i)"
    and "\<And>m. km = Some m \<Longrightarrow> matrix_below m ks"
  shows "envelope_ok C holds h ks i j (make_crdt_op_envelope cid i data km vv)"
  using assms unfolding envelope_ok_def by blast

lemma channels_ok_mono:
  assumes "channels_ok C holds h ks i reg"
    and "\<And>p n. ks p n \<le> ks' p n"
    and "\<And>k t. holds h k t \<Longrightarrow> (\<And>n. k n \<le> ks n n) \<Longrightarrow> holds h' k t"
  shows "channels_ok C holds h' ks' i reg"
proof -
  have "envelope_ok C holds h ks i j env \<Longrightarrow> envelope_ok C holds h' ks' i j env" for j env
    by (erule envelope_ok_mono) (rule assms(2), rule assms(3))
  then show ?thesis using assms(1) unfolding channels_ok_def by blast
qed

lemma log_sent: "(case log_send tx e of Inl _ \<Rightarrow> tx | Inr tx' \<Rightarrow> tx') = tx @ [e]"
  by (simp add: log_send_def)

lemma registry_get_deliver:
  "registry_get (deliver log_send msgs reg) p =
     map_option (\<lambda>(g, log). (g, log @ map snd (filter (\<lambda>m. fst m = p) msgs))) (registry_get reg p)"
proof (induction msgs arbitrary: reg)
  case Nil
  show ?case by (cases "registry_get reg p") auto
next
  case (Cons m ms)
  show ?case
    by (cases m; cases "registry_get reg p") (auto simp: Cons registry_get_send log_sent)
qed

lemma channels_ok_deliver:
  assumes "channels_ok C holds h ks i reg"
    and "\<And>p e. (p, e) \<in> set msgs \<Longrightarrow> envelope_ok C holds h ks i p e"
  shows "channels_ok C holds h ks i (deliver log_send msgs reg)"
  using assms unfolding channels_ok_def by (force simp: registry_get_deliver)

lemma know_set_replica [simp, net_simps]:
  "know (set_replica S i eng) = (know S)(i := effective_counter (eng_dvv eng))"
  "history (set_replica S i eng) = history S"
  "know (S\<lparr>history := h\<rparr>) = know S"
  "replica (set_replica S i eng) = (replica S)(i := eng)"
  by (auto simp: know_def set_replica_def)

text \<open>One replica moves on: what has to be shown of its new state for the system's invariant.\<close>

lemma net_inv_update:
  assumes inv: "net_inv E holds S"
    and ks': "ks' = (know S)(i := effective_counter (eng_dvv eng))"
    and ok: "engine_ok i ks' eng"
    and mono: "\<And>n. know S i n \<le> effective_counter (eng_dvv eng) n"
    and others: "\<And>n. n \<noteq> i \<Longrightarrow> effective_counter (eng_dvv eng) n \<le> know S n n"
    and holds: "holds h' (effective_counter (eng_dvv eng)) (eng_crdt eng)"
    and ext: "\<And>k t. holds (history S) k t \<Longrightarrow> (\<And>n. k n \<le> know S n n) \<Longrightarrow> holds h' k t"
    and hist: "\<And>d. h' d \<noteq> None \<Longrightarrow> counter d \<le> ks' (node_id d) (node_id d)"
    and chan: "channels_ok (env_crdt E) holds h' ks' i (engine_registry E eng)"
  shows "net_inv E holds ((set_replica S i eng)\<lparr>history := h'\<rparr>)"
proof -
  note engines = inv [unfolded net_inv_def, THEN conjunct1, rule_format]
  note states = inv [unfolded net_inv_def, THEN conjunct2, THEN conjunct1, rule_format]
  note own = inv [unfolded net_inv_def, THEN conjunct2, THEN conjunct2, THEN conjunct1, rule_format]
  note chans = inv [unfolded net_inv_def, THEN conjunct2, THEN conjunct2, THEN conjunct2, THEN conjunct2, rule_format]
  have grow: "know S p n \<le> ks' p n" for p n using mono by (simp add: ks')
  have "below v (know S p) \<Longrightarrow> below v (ks' p)" for v p
    by (erule below_mono) (rule grow)
  then have "engine_ok p ks' (replica S p)" for p
    using engines [of p] unfolding engine_ok_def by blast
  then have "engine_ok p ks' (((replica S)(i := eng)) p)" for p
    using ok by simp
  moreover have "holds h' (ks' p) (eng_crdt (((replica S)(i := eng)) p))" for p
    using holds ext [OF states own] by (simp add: ks')
  moreover have "ks' p n \<le> ks' n n" for p n
    using own [of p n] grow [of n n] others mono [of n] by (cases "p = i"; cases "n = i") (auto simp: ks' intro: order_trans)
  moreover have "channels_ok (env_crdt E) holds h' ks' p (engine_registry E (((replica S)(i := eng)) p))" for p
    using chan channels_ok_mono [OF chans grow ext] by simp
  moreover have "replica ((set_replica S i eng)\<lparr>history := h'\<rparr>) = (replica S)(i := eng)"
    "history ((set_replica S i eng)\<lparr>history := h'\<rparr>) = h'" by (simp_all add: set_replica_def)
  ultimately show ?thesis
    using hist by (simp only: net_inv_def know_set_replica ks' [symmetric]) blast
qed

subsection \<open>The contract of a replicated CRDT\<close>

locale replication = dissemination log_send "env_strategy E" "env_registry E" pushes pulls
  for E :: "('c, 'op, 'dl, channel, 'd, 's) engine_env" and pushes pulls +
  fixes op_ok :: "'op \<Rightarrow> bool"
    and crdt0 :: 'c
    and documented :: bool
    and holds :: "('op, 'c) history \<Rightarrow> (NodeId \<Rightarrow> Counter) \<Rightarrow> 'c \<Rightarrow> bool"
  assumes holds_new: "documented \<Longrightarrow> holds (\<lambda>_. None) (\<lambda>_. 0) crdt0"
    and holds_extend: "holds h k t \<Longrightarrow> holds h k2 s \<Longrightarrow> op_ok op \<Longrightarrow> h x = None \<Longrightarrow>
      k (node_id x) < counter x \<Longrightarrow> holds (h(x \<mapsto> (op, s))) k t"
    and holds_local: "holds h k s \<Longrightarrow> op_ok op \<Longrightarrow> h x = None \<Longrightarrow>
      k (node_id x) < counter x \<Longrightarrow> counter x = k (node_id x) + 1 \<Longrightarrow>
      holds (h(x \<mapsto> (op, s))) (k(node_id x := counter x)) (crdt_apply_local (env_crdt E) s x op)"
    and holds_merge: "holds h k t \<Longrightarrow> holds h (effective_counter dvv) s \<Longrightarrow> dvv_inv dvv \<Longrightarrow>
      (\<And>n. hm_or r n 0 \<le> k n) \<Longrightarrow>
      \<exists>dl ctx nid ctr. crdt_decode_delta (env_crdt E)
          (crdt_encode_delta (env_crdt E) (crdt_delta_since (env_crdt E) s r dvv)) = Inr dl \<and>
        holds h (\<lambda>n. max (k n) (effective_counter dvv n)) (crdt_merge_delta (env_crdt E) t dl) \<and>
        crdt_causal_context (env_crdt E) dl = (ctx, nid, ctr) \<and> hm_ok ctx \<and>
        effective_counter \<lparr>dvv_dot = Dot_new nid ctr, dvv_context = ctx\<rparr> = effective_counter dvv"
begin

lemma advertised:
  assumes "dvv_inv dvv" "(p, env) \<in> set (if b then advertise rng reg
      (make_pull_request_envelope cid i g (effective_map dvv)) else [])"
    and "ks i = effective_counter dvv"
  shows "envelope_ok C holds h ks i p env"
proof -
  have "env = make_pull_request_envelope cid i g (effective_map dvv)"
    using assms(2) by (auto split: if_splits dest: set_advertise)
  moreover have "below (effective_map dvv) (ks i)" using assms(1,3) by simp
  ultimately show ?thesis unfolding envelope_ok_def by blast
qed

lemma inv_engine:
  assumes "net_inv E holds S"
  shows "eng_node_id (replica S i) = i" "node_id (dvv_dot (eng_dvv (replica S i))) = i"
    and "dvv_inv (eng_dvv (replica S i))" "coordinator_inv (eng_gc (replica S i))"
    and "row (eng_gc (replica S i)) p = Some ctx \<Longrightarrow> below ctx (know S p)"
    and "holds (history S) (know S i) (eng_crdt (replica S i))"
    and "know S i n \<le> know S n n"
    and "history S x \<noteq> None \<Longrightarrow> counter x \<le> know S (node_id x) (node_id x)"
    and "channels_ok (env_crdt E) holds (history S) (know S) i (engine_registry E (replica S i))"
  using assms unfolding net_inv_def engine_ok_def by blast+

lemma local_step_inv:
  assumes inv: "net_inv E holds S" and op: "op_ok op"
    and room: "counter (dvv_dot (eng_dvv (replica S i))) \<noteq> - 1"
  shows "net_inv E holds ((set_replica S i (client_operation E rng op (replica S i)))
    \<lparr>history := (history S)(next_dot (replica S i) \<mapsto> (op, eng_crdt (replica S i)))\<rparr>)"
proof -
  let ?e = "replica S i" and ?e' = "client_operation E rng op (replica S i)" and ?x = "next_dot (replica S i)"
  note eng = inv_engine [OF inv]
  define ks' where "ks' = (know S)(i := effective_counter (eng_dvv ?e'))"
  have c: "counter (dvv_dot (eng_dvv ?e)) = know S i i"
    using effective_counter_own [OF eng(3) [of i]] by (simp add: know_def eng(2))
  have x: "node_id ?x = i" "counter ?x = know S i i + 1" by (simp_all add: next_dot_def eng(2) c)
  have less: "know S i i < know S i i + 1" using room inc_less_eq_triv_imp [of "know S i i"] by (auto simp: c not_le [symmetric])
  have k': "effective_counter (dvv_event (eng_dvv ?e)) = (know S i)(i := know S i i + 1)"
    using room by (auto simp: effective_counter_event [OF eng(3)] eng(2) know_def c [unfolded know_def])
  have fresh: "history S ?x = None"
    using eng(8) [of ?x] less by (metis x leD)
  have dvv': "dvv_inv (eng_dvv ?e')" using room by (simp add: dvv_inv_event eng(3))
  have grow: "know S p n \<le> ks' p n" for p n
    using less by (auto simp: ks'_def k')
  have ext: "holds ((history S)(?x \<mapsto> (op, eng_crdt ?e))) k t"
    if "holds (history S) k t" "\<And>n. k n \<le> know S n n" for k t
    using less that(2) [of i] by (intro holds_extend [OF that(1) eng(6) op fresh]) (simp add: x)
  show ?thesis
  proof (rule net_inv_update [OF inv ks'_def])
    show "engine_ok i ks' ?e'"
      using eng(1-4) [of i] dvv' eng(5) [of i] below_mono [OF _ grow]
      unfolding engine_ok_def by (auto simp: know_def)
    show "know S i n \<le> effective_counter (eng_dvv ?e') n" for n
      using less by (auto simp: k')
    show "effective_counter (eng_dvv ?e') n \<le> know S n n" if "n \<noteq> i" for n
      using that eng(7) by (simp add: k')
    show "holds ((history S)(?x \<mapsto> (op, eng_crdt ?e))) (effective_counter (eng_dvv ?e')) (eng_crdt ?e')"
      using holds_local [OF eng(6) op fresh, of i] less
      by (simp add: k' x) (simp add: next_dot_def)
    show "holds ((history S)(?x \<mapsto> (op, eng_crdt ?e))) k t"
      if "holds (history S) k t" "\<And>n. k n \<le> know S n n" for k t
      using that by (rule ext)
    show "counter y \<le> ks' (node_id y) (node_id y)"
      if "((history S)(?x \<mapsto> (op, eng_crdt ?e))) y \<noteq> None" for y
      using that eng(8) [of y] grow [of "node_id y" "node_id y"]
      by (cases "y = ?x") (auto simp: x ks'_def k')
    have reg: "engine_registry E ?e' = deliver log_send (if pushes then advertise rng (engine_registry E ?e)
        (make_pull_request_envelope (eng_crdt_id ?e) i (engine_gc_replica ?e) (effective_map (eng_dvv ?e'))) else [])
        (engine_registry E ?e)"
      by (simp add: engine_registry_def client_operation_def Let_def reg_push eng(1))
    show "channels_ok (env_crdt E) holds ((history S)(?x \<mapsto> (op, eng_crdt ?e))) ks' i (engine_registry E ?e')"
      unfolding reg
    proof (rule channels_ok_deliver)
      show "channels_ok (env_crdt E) holds ((history S)(?x \<mapsto> (op, eng_crdt ?e))) ks' i (engine_registry E ?e)"
        by (rule channels_ok_mono [OF eng(9) grow ext])
      show "envelope_ok (env_crdt E) holds ((history S)(?x \<mapsto> (op, eng_crdt ?e))) ks' i p env"
        if "(p, env) \<in> set (if pushes then advertise rng (engine_registry E ?e)
        (make_pull_request_envelope (eng_crdt_id ?e) i (engine_gc_replica ?e) (effective_map (eng_dvv ?e'))) else [])"
        for p env
        using dvv' that by (rule advertised) (simp add: ks'_def)
    qed
  qed
qed

text \<open>A replica that learns nothing: only its channels, its registry and its matrix may change.\<close>

lemma quiet_step_inv:
  assumes inv: "net_inv E holds S"
    and same: "eng_node_id eng = i" "eng_dvv eng = eng_dvv (replica S i)" "eng_crdt eng = eng_crdt (replica S i)"
    and gc: "coordinator_inv (eng_gc eng)"
    and rows: "\<And>p ctx. row (eng_gc eng) p = Some ctx \<Longrightarrow> below ctx (know S p)"
    and chan: "channels_ok (env_crdt E) holds (history S) (know S) i (engine_registry E eng)"
  shows "net_inv E holds (set_replica S i eng)"
proof -
  note eng = inv_engine [OF inv]
  have ks: "know S = (know S)(i := effective_counter (eng_dvv eng))" by (simp add: same know_def fun_eq_iff)
  have "net_inv E holds ((set_replica S i eng)\<lparr>history := history S\<rparr>)"
  proof (rule net_inv_update [OF inv ks])
    show "engine_ok i (know S) eng" using eng(2,3) [of i] same gc rows by (simp add: engine_ok_def)
    show "holds (history S) (effective_counter (eng_dvv eng)) (eng_crdt eng)"
      using eng(6) [of i] by (simp add: same know_def)
  qed (use eng(7,8) chan in \<open>simp_all add: same know_def\<close>)
  then show ?thesis by (simp add: set_replica_def)
qed

lemma channels_registry_inv:
  assumes inv: "net_inv E holds S"
    and chan: "channels_ok (env_crdt E) holds (history S) (know S) i (env_registry E x)"
  shows "net_inv E holds (set_replica S i ((replica S i)\<lparr>eng_dissemination := x\<rparr>))"
  using inv_engine [OF inv] chan by (intro quiet_step_inv [OF inv]) (simp_all add: engine_registry_def)

lemma connect_inv:
  assumes "net_inv E holds S" "env_registry E x = registry_insert (engine_registry E (replica S i)) j g []"
  shows "net_inv E holds (set_replica S i ((replica S i)\<lparr>eng_dissemination := x\<rparr>))"
  using inv_engine(9) [OF assms(1), of i]
  by (intro channels_registry_inv assms(1)) (auto simp: assms(2) channels_ok_def registry_get_insert split: if_splits)

lemma disconnect_inv:
  assumes "net_inv E holds S" "env_registry E x = fst (registry_remove (engine_registry E (replica S i)) j)"
  shows "net_inv E holds (set_replica S i ((replica S i)\<lparr>eng_dissemination := x\<rparr>))"
  using inv_engine(9) [OF assms(1), of i]
  by (intro channels_registry_inv assms(1)) (auto simp: assms(2) channels_ok_def registry_get_remove split: if_splits)

lemma pull_step_inv:
  assumes inv: "net_inv E holds S"
  shows "net_inv E holds (set_replica S i (do_pull E rng (replica S i)))"
proof -
  let ?e = "replica S i"
  note eng = inv_engine [OF inv]
  have reg: "engine_registry E (do_pull E rng ?e) = deliver log_send (if pulls then advertise rng (engine_registry E ?e)
      (make_pull_request_envelope (eng_crdt_id ?e) i (engine_gc_replica ?e) (effective_map (eng_dvv ?e))) else [])
      (engine_registry E ?e)"
    by (simp add: engine_registry_def do_pull_def reg_pull eng(1))
  have "channels_ok (env_crdt E) holds (history S) (know S) i (engine_registry E (do_pull E rng ?e))"
    unfolding reg using eng(9) advertised [OF eng(3) _ know_def] by (rule channels_ok_deliver)
  then show ?thesis using eng by (intro quiet_step_inv [OF inv]) simp_all
qed

text \<open>A pull request that really is from \<open>i\<close> with a knowledge \<open>i\<close> has.\<close>

lemma pull_request_inv:
  assumes inv: "net_inv E holds S" and k: "below k (know S i)"
  shows "net_inv E holds (set_replica S j (server_pull_request E i cid k (replica S j)))"
proof (cases "cid = eng_crdt_id (replica S j)")
  case False
  then show ?thesis
    using inv_engine [OF inv] by (intro quiet_step_inv [OF inv]) (simp_all add: server_pull_request_def)
next
  case True
  let ?e = "replica S j" and ?gc = "update_matrix_clock (eng_gc (replica S j)) [(i, k)]"
  note eng = inv_engine [OF inv]
  have m: "matrix_below [(i, k)] (know S)" using k by (simp add: matrix_below_def matrix_ok_def below_def)
  have gc: "coordinator_inv ?gc"
    using eng(4) m by (intro coordinator_inv_update) (simp_all add: matrix_below_def)
  have rows: "row ?gc p = Some ctx \<Longrightarrow> below ctx (know S p)" for p ctx
    using rows_below_update [OF eng(4) m eng(5)] .
  note answer = server_pull_request_answer [OF True eng(3), of k E i]
  have hk: "hm_ok k" using k by (simp add: below_def)
  have gc': "eng_gc (server_pull_request E i cid k ?e) = ?gc" using answer(2) [OF hk] .
  define delta where "delta = (if engine_gc_replica ?e \<and> requester_collects (engine_registry E ?e) i \<or>
      (\<exists>n. hm_or k n 0 < effective_counter (eng_dvv ?e) n)
    then Some (crdt_encode_delta (env_crdt E) (crdt_delta_since (env_crdt E) (eng_crdt ?e) k (eng_dvv ?e)))
    else None)"
  define km where "km = (if requester_collects (engine_registry E ?e) i
    then get_knowledge_matrix ?gc (engine_registry E ?e) else None)"
  define ours where "ours = (if \<exists>n. effective_counter (eng_dvv ?e) n < hm_or k n 0
    then Some (effective_map (eng_dvv ?e)) else None)"
  have reg: "engine_registry E (server_pull_request E i cid k ?e) =
      deliver log_send (reply pushes i cid j delta (engine_gc_replica ?e) km ours) (engine_registry E ?e)"
    unfolding engine_registry_def [of E "server_pull_request E i cid k ?e"] answer(1) [OF hk] reg_respond eng(1)
      delta_def km_def ours_def by (simp only: engine_registry_def)
  have km: "get_knowledge_matrix ?gc (engine_registry E ?e) = Some x" if "km = Some x" for x
    using that by (auto simp: km_def split: if_splits)
  have payload: "delta = Some b \<Longrightarrow> payload_ok (env_crdt E) holds (history S) (know S) i b" for b
    using eng(3,6,7) [of j] k unfolding payload_ok_def below_def delta_def know_def
    by (auto split: if_splits)
  have matrix: "km = Some x \<Longrightarrow> matrix_below x (know S)" for x
    using knowledge_matrix_rows [OF gc km] rows unfolding matrix_below_def by blast
  have v: "ours = Some v \<Longrightarrow> below v (know S j)" for v
    using eng(3) by (auto simp: ours_def know_def split: if_splits)
  have "envelope_ok (env_crdt E) holds (history S) (know S) j p env"
    if "(p, env) \<in> set (reply pushes i cid j delta (engine_gc_replica ?e) km ours)" for p env
    using that payload matrix v
    by (auto simp: reply_def intro!: envelope_ok_op envelope_ok_pull split: option.splits if_splits)
  then have "channels_ok (env_crdt E) holds (history S) (know S) j (engine_registry E (server_pull_request E i cid k ?e))"
    unfolding reg by (intro channels_ok_deliver eng(9))
  then show ?thesis
    using eng gc rows by (intro quiet_step_inv [OF inv]) (simp_all add: gc')
qed

text \<open>A delta meant for \<open>j\<close>, with a truthful matrix.\<close>

lemma delta_inv:
  assumes inv: "net_inv E holds S" and data: "payload_ok (env_crdt E) holds (history S) (know S) j data"
    and km: "\<And>m. km = Some m \<Longrightarrow> matrix_below m (know S)"
  shows "net_inv E holds (set_replica S j (server_delta E rng cid data km (replica S j)))"
proof (cases "cid = eng_crdt_id (replica S j)")
  case False
  then show ?thesis
    using inv_engine [OF inv] by (intro quiet_step_inv [OF inv]) (simp_all add: server_delta_ignored)
next
  case True
  let ?e = "replica S j"
  note eng = inv_engine [OF inv]
  obtain t dvv r where t: "data = crdt_encode_delta (env_crdt E) (crdt_delta_since (env_crdt E) t r dvv)"
    "dvv_inv dvv" "holds (history S) (effective_counter dvv) t" "\<And>n. hm_or r n 0 \<le> know S j n"
    "\<And>n. effective_counter dvv n \<le> know S n n"
    using data unfolding payload_ok_def by blast
  obtain dl ctx nid ctr where dl: "crdt_decode_delta (env_crdt E) data = Inr dl"
    "holds (history S) (\<lambda>n. max (know S j n) (effective_counter dvv n)) (crdt_merge_delta (env_crdt E) (eng_crdt ?e) dl)"
    "crdt_causal_context (env_crdt E) dl = (ctx, nid, ctr)" "hm_ok ctx"
    "effective_counter \<lparr>dvv_dot = Dot_new nid ctr, dvv_context = ctx\<rparr> = effective_counter dvv"
    using holds_merge [OF eng(6) t(3,2,4)] unfolding t(1) by blast
  let ?e' = "server_delta E rng cid data km ?e"
  note merged = server_delta_merged [OF True dl(1,3), of rng km]
  have k': "effective_counter (eng_dvv ?e') = (\<lambda>n. max (know S j n) (effective_counter dvv n))"
    using eng(3) [of j] dl(4,5) by (simp add: merged effective_counter_merge know_def fun_eq_iff)
  have dvv': "dvv_inv (eng_dvv ?e')" using eng(3) [of j] dl(4) by (simp add: merged dvv_inv_merge)
  define ks' where "ks' = (know S)(j := effective_counter (eng_dvv ?e'))"
  have grow: "know S p n \<le> ks' p n" for p n by (auto simp: ks'_def k')
  have gc: "coordinator_inv (eng_gc ?e')"
    using eng(4) [of j] km by (auto simp: merged matrix_below_def coordinator_inv_update split: option.splits)
  have rows: "below x (know S p)" if "row (eng_gc ?e') p = Some x" for p x
  proof (cases km)
    case None
    then show ?thesis using that eng(5) [of j] merged(3) by simp
  next
    case (Some m)
    then have "row (update_matrix_clock (eng_gc ?e) m) p = Some x" using that merged(3) by simp
    with eng(4) km [OF Some] eng(5) show ?thesis by (rule rows_below_update)
  qed
  have reg: "engine_registry E ?e' = deliver log_send (if pushes then advertise rng (engine_registry E ?e)
      (make_pull_request_envelope (eng_crdt_id ?e) j (engine_gc_replica ?e) (effective_map (eng_dvv ?e'))) else [])
      (engine_registry E ?e)"
    by (simp add: engine_registry_def merged reg_merged eng(1))
  have "net_inv E holds ((set_replica S j ?e')\<lparr>history := history S\<rparr>)"
  proof (rule net_inv_update [OF inv ks'_def])
    show "engine_ok j ks' ?e'"
      using eng(1,2) [of j] dvv' gc below_mono [OF rows grow] by (simp add: engine_ok_def merged(2))
    show "holds (history S) (effective_counter (eng_dvv ?e')) (eng_crdt ?e')"
      unfolding k' merged(1) by (rule dl(2))
    show "counter x \<le> ks' (node_id x) (node_id x)" if "history S x \<noteq> None" for x
      using eng(8) [OF that] grow order_trans by blast
    show "channels_ok (env_crdt E) holds (history S) ks' j (engine_registry E ?e')"
      unfolding reg
    proof (rule channels_ok_deliver)
      show "channels_ok (env_crdt E) holds (history S) ks' j (engine_registry E ?e)"
        by (rule channels_ok_mono [OF eng(9) grow])
    qed (rule advertised [OF dvv'], assumption, simp add: ks'_def)
  qed (use eng(7) t(5) in \<open>auto simp: k'\<close>)
  then show ?thesis by (simp add: set_replica_def)
qed

text \<open>What a received envelope asks of the engine.\<close>

lemma received_request:
  assumes inv: "net_inv E holds S" and log: "registry_get (engine_registry E (replica S i)) j = Some (g, log)"
    and env: "env \<in> set log" and rq: "(rq :: 'op CrdtEngineRequest) \<in> set (envelope_requests env)"
  obtains (pull) cid k where "rq = DeltaRequest i cid k" "below k (know S i)"
    | (delta) cid data km where "rq = DeltaResponse i cid data km" "\<And>m. km = Some m \<Longrightarrow> matrix_below m (know S)"
      "payload_ok (env_crdt E) holds (history S) (know S) j data"
proof -
  have "envelope_ok (env_crdt E) holds (history S) (know S) i j env"
    using inv_engine(9) [OF inv] log env unfolding channels_ok_def by blast
  then consider cid g k where "env = make_pull_request_envelope cid i g k" "below k (know S i)"
    | cid data km vv where "env = make_crdt_op_envelope cid i data km vv"
      "\<And>k. vv = Some k \<Longrightarrow> below k (know S i)" "\<And>m. km = Some m \<Longrightarrow> matrix_below m (know S)"
      "payload_ok (env_crdt E) holds (history S) (know S) j data"
    unfolding envelope_ok_def by blast
  then show thesis
  proof cases
    case (1 cid g k)
    then show ?thesis using rq pull by simp
  next
    case (2 cid data km vv)
    have ok: "hm_ok m" if "km = Some m" for m using 2(3) [OF that] by (simp add: matrix_below_def matrix_ok_def)
    have "(envelope_requests env :: 'op CrdtEngineRequest list) = DeltaResponse i cid data km #
      (case vv of Some k \<Rightarrow> if k \<noteq> [] then [DeltaRequest i cid k] else [] | None \<Rightarrow> [])"
      unfolding 2(1) by (rule envelope_requests_op) (rule ok)
    with rq consider "rq = DeltaResponse i cid data km" | k where "vv = Some k" "rq = DeltaRequest i cid k"
      by (auto split: option.splits if_splits)
    then show ?thesis using pull delta 2(2-4) by cases blast+
  qed
qed

lemma receive_inv:
  assumes inv: "net_inv E holds S" and log: "registry_get (engine_registry E (replica S i)) j = Some (g, log)"
    and env: "env \<in> set log" and rq: "rq \<in> set (envelope_requests env)"
  shows "net_inv E holds (set_replica S j (fst (snd (handle_request E rng rq (replica S j, w)))))"
  using inv log env rq
proof (cases rule: received_request)
  case pull
  then show ?thesis using pull_request_inv [OF inv] by simp
next
  case delta
  then show ?thesis using delta_inv [OF inv] by simp
qed

lemma net_inv_step: "net_step E op_ok S S' \<Longrightarrow> net_inv E holds S \<Longrightarrow> net_inv E holds S'"
  by (induction rule: net_step.induct)
    (blast intro: local_step_inv pull_step_inv receive_inv connect_inv disconnect_inv)+

subsection \<open>Knowledge is never lost\<close>

lemma delta_grows:
  assumes inv: "net_inv E holds S" and data: "payload_ok (env_crdt E) holds (history S) (know S) j data"
  shows "know S j n \<le> effective_counter (eng_dvv (server_delta E rng cid data km (replica S j))) n"
proof (cases "cid = eng_crdt_id (replica S j)")
  case False
  then show ?thesis by (simp add: server_delta_ignored know_def)
next
  case True
  note eng = inv_engine [OF inv]
  obtain t dvv r where t: "data = crdt_encode_delta (env_crdt E) (crdt_delta_since (env_crdt E) t r dvv)"
    "dvv_inv dvv" "holds (history S) (effective_counter dvv) t" "\<And>n. hm_or r n 0 \<le> know S j n"
    using data unfolding payload_ok_def by blast
  obtain dl ctx nid ctr where dl: "crdt_decode_delta (env_crdt E) data = Inr dl"
    "crdt_causal_context (env_crdt E) dl = (ctx, nid, ctr)" "hm_ok ctx"
    using holds_merge [OF eng(6) t(3,2,4)] unfolding t(1) by blast
  show ?thesis
    using eng(3) [of j] dl(3) by (simp add: server_delta_merged [OF True dl(1,2)] effective_counter_merge know_def)
qed

lemma know_step: "net_step E op_ok S S' \<Longrightarrow> net_inv E holds S \<Longrightarrow> know S p n \<le> know S' p n"
proof (induction rule: net_step.induct)
  case (local_step op S i rng)
  let ?c = "counter (dvv_dot (eng_dvv (replica S i)))"
  have le: "?c \<le> ?c + 1" using local_step(2) inc_less_eq_triv_imp [of ?c] by (meson linear)
  have "effective_counter (eng_dvv (replica S i)) n \<le> effective_counter (dvv_event (eng_dvv (replica S i))) n"
    using local_step(2) le effective_counter_own [OF inv_engine(3) [OF local_step(3)], of i]
    by (auto simp: effective_counter_event [OF inv_engine(3) [OF local_step(3)]])
  then show ?case by (simp add: know_def)
next
  case (receive_step S i j g log env rq rng w)
  from receive_step(4,1-3) show ?case
  proof (cases rule: received_request)
    case pull
    then show ?thesis by (simp add: know_def)
  next
    case delta
    then show ?thesis using delta_grows [OF receive_step(4) delta(3)] by (simp add: know_def)
  qed
qed (simp_all add: know_def)

subsection \<open>Every run\<close>

lemma net_inv_start:
  assumes documented
    and "\<And>i. replica S i = engine_new i cid crdt0 (d i) (cfg i)" "\<And>i. env_registry E (d i) = registry_new"
    and "history S = (\<lambda>_. None)"
  shows "net_inv E holds S"
proof -
  have k: "know S i = (\<lambda>_. 0)" for i by (simp add: know_def assms(2) fun_eq_iff)
  have "row (coordinator_new c) p = None" for c p by (simp add: row_def coordinator_new_def)
  then have "engine_ok i (know S) (replica S i)" for i by (simp add: engine_ok_def assms(2))
  then show ?thesis
    using holds_new assms(1) by (simp add: net_inv_def k assms(2-4) channels_ok_def engine_registry_def)
qed

lemma net_inv_run: "net_run E op_ok cid crdt0 S \<Longrightarrow> documented \<Longrightarrow> net_inv E holds S"
  by (induction rule: net_run.induct) (blast intro: net_inv_start net_inv_step)+

end

end
