(* ===== verification/OR_Set_Replication.thy ===== *)
theory OR_Set_Replication
  imports Replication
begin

text \<open>
  The OR-Set meets the contract of a replicated CRDT, with the specification of an observed-remove set:
  after the events a replica knows, an element is in the set exactly when one of its known adds was not
  observed by a known remove.  With it the invariant of the system gives strong eventual consistency
  and the soundness of the matrix clock, for all three dissemination strategies.
\<close>

subsection \<open>The specification\<close>

definition known :: "(NodeId \<Rightarrow> Counter) \<Rightarrow> Dot \<Rightarrow> bool" where
  "known k x \<longleftrightarrow> counter x \<le> k (node_id x)"

type_synonym 'e set_history = "('e OrSetOp, 'e OrSet) history"

text \<open>The adds among the known events, and the adds that known removes observed.\<close>

definition added :: "'e set_history \<Rightarrow> (NodeId \<Rightarrow> Counter) \<Rightarrow> ('e \<times> Dot) set" where
  "added h k = {(e, a). known k a \<and> (\<exists>s. h a = Some (Add e, s))}"

definition removed :: "'e set_history \<Rightarrow> (NodeId \<Rightarrow> Counter) \<Rightarrow> Dot set" where
  "removed h k = {a. \<exists>x e s. known k x \<and> h x = Some (Remove e, s) \<and> (e, a) \<in> live s}"

definition observed_remove :: "'e set_history \<Rightarrow> (NodeId \<Rightarrow> Counter) \<Rightarrow> 'e \<Rightarrow> bool" where
  "observed_remove h k e \<longleftrightarrow> (\<exists>a. (e, a) \<in> added h k \<and> a \<notin> removed h k)"

definition string_op :: "string OrSetOp \<Rightarrow> bool" where
  "string_op op = (case op of Add e \<Rightarrow> is_String e | Remove e \<Rightarrow> is_String e)"

definition history_ok :: "string set_history \<Rightarrow> bool" where
  "history_ok h \<longleftrightarrow> (\<forall>x op s. h x = Some (op, s) \<longrightarrow>
     string_op op \<and> (\<forall>e a. (e, a) \<in> live s \<longrightarrow> (\<exists>s'. h a = Some (Add e, s'))))"

text \<open>What the protobuf library documents: a message comes back equal, with a map for a map.\<close>

definition pb_documented ::
  "(ProtoOrSetDelta \<Rightarrow> bytes) \<Rightarrow> (bytes \<Rightarrow> (wire_error, ProtoOrSetDelta) result) \<Rightarrow> bool" where
  "pb_documented pb_enc pb_dec \<longleftrightarrow>
     (\<forall>m. hm_ok (pos_context m) \<longrightarrow>
        (\<exists>p. pb_dec (pb_enc m) = Inr p \<and> proto_equiv p m \<and> hm_ok (pos_context p)))"

text \<open>Collected dots are settled for whoever knows of them: known adds are known to be removed.\<close>

definition settled :: "'e set_history \<Rightarrow> Dot set \<Rightarrow> (NodeId \<Rightarrow> Counter) \<Rightarrow> bool" where
  "settled h gone k \<longleftrightarrow> (\<forall>a \<in> gone. h a \<noteq> None \<and> (known k a \<longrightarrow> a \<in> removed h k))"

text \<open>A state that represents the known part of the history, when the tombstones of the dots \<open>gone\<close> may
  have been collected somewhere.  Every tombstone names a known remove that observed its add.\<close>

definition represents ::
  "(ProtoOrSetDelta \<Rightarrow> bytes) \<Rightarrow> (bytes \<Rightarrow> (wire_error, ProtoOrSetDelta) result) \<Rightarrow> Dot set
     \<Rightarrow> string set_history \<Rightarrow> (NodeId \<Rightarrow> Counter) \<Rightarrow> string OrSet \<Rightarrow> bool" where
  "represents pb_enc pb_dec gone h k s \<longleftrightarrow> pb_documented pb_enc pb_dec \<and> history_ok h \<and> orset_inv s \<and>
     settled h gone k \<and> removed h k \<subseteq> dead s \<union> gone \<and> live s = {p \<in> added h k. snd p \<notin> removed h k} \<and>
     (\<forall>a r. map_of (tombstones s) a = Some r \<longrightarrow>
        known k r \<and> (\<exists>e s'. h r = Some (Remove e, s') \<and> (e, a) \<in> live s'))"

subsection \<open>Events\<close>

lemma known_next:
  assumes "k (node_id x) < counter x" "counter x = k (node_id x) + 1"
  shows "known (k(node_id x := counter x)) y \<longleftrightarrow> y = x \<or> known k y"
proof (cases "node_id y = node_id x")
  case True
  then have "y = x \<longleftrightarrow> counter y = counter x" by (cases x; cases y) simp
  moreover have "counter y \<le> counter x \<longleftrightarrow> counter y = counter x \<or> counter y \<le> k (node_id x)"
    using assms less_inc_imp_less_eq [of "counter y" "k (node_id x)"] by (auto simp: order.order_iff_strict)
  ultimately show ?thesis using True by (simp add: known_def)
qed (auto simp: known_def)

lemma known_max: "known (\<lambda>n. max (k n) (k' n)) x \<longleftrightarrow> known k x \<or> known k' x"
  by (auto simp: known_def le_max_iff_disj)

lemma added_extend [simp]: "h x = None \<Longrightarrow> \<not> known k x \<Longrightarrow> added (h(x \<mapsto> v)) k = added h k"
  by (auto simp: added_def)

lemma removed_extend [simp]: "h x = None \<Longrightarrow> \<not> known k x \<Longrightarrow> removed (h(x \<mapsto> v)) k = removed h k"
  unfolding removed_def by (intro Collect_cong ex_cong1) auto

lemma added_unique: "(e, a) \<in> added h k \<Longrightarrow> (e', a) \<in> added h k' \<Longrightarrow> e = e'"
  by (auto simp: added_def)

lemma added_max: "added h (\<lambda>n. max (k n) (k' n)) = added h k \<union> added h k'"
  by (auto simp: added_def known_max)

lemma removed_max: "removed h (\<lambda>n. max (k n) (k' n)) = removed h k \<union> removed h k'"
  unfolding removed_def known_max by blast

lemma added_next:
  assumes "k (node_id x) < counter x" "counter x = k (node_id x) + 1" "h x = None"
  shows "added (h(x \<mapsto> (op, s))) (k(node_id x := counter x)) =
    added h k \<union> (case op of Add e \<Rightarrow> {(e, x)} | Remove _ \<Rightarrow> {})"
  using assms(3) unfolding added_def known_next [where k = k and x = x, OF assms(1,2)]
  by (auto split: OrSetOp.splits)

lemma removed_next:
  assumes "k (node_id x) < counter x" "counter x = k (node_id x) + 1" "h x = None"
  shows "removed (h(x \<mapsto> (op, s))) (k(node_id x := counter x)) =
    removed h k \<union> (case op of Add _ \<Rightarrow> {} | Remove e \<Rightarrow> {a. (e, a) \<in> live s})"
  using assms(3) unfolding removed_def known_next [where k = k and x = x, OF assms(1,2)]
  by (cases op) (auto, (metis option.distinct(1))+)

lemma history_ok_extend:
  assumes "history_ok h" "string_op op" "h x = None" "\<And>e a. (e, a) \<in> live s \<Longrightarrow> \<exists>s'. h a = Some (Add e, s')"
  shows "history_ok (h(x \<mapsto> (op, s)))"
proof -
  have "\<exists>s'. (h(x \<mapsto> (op, s))) a = Some (Add e, s')" if "\<exists>s'. h a = Some (Add e, s')" for e a
    using that assms(3) by auto
  then show ?thesis using assms unfolding history_ok_def by (metis fun_upd_apply option.sel prod.sel)
qed

subsection \<open>The laws of the contract\<close>

lemma representsD:
  assumes "represents pe pd gone h k s"
  shows "pb_documented pe pd" "history_ok h" "orset_inv s" "removed h k \<subseteq> dead s \<union> gone"
    and "live s = {p \<in> added h k. snd p \<notin> removed h k}"
    and "map_of (tombstones s) a = Some r \<Longrightarrow> known k r \<and> (\<exists>e s'. h r = Some (Remove e, s') \<and> (e, a) \<in> live s')"
    and "settled h gone k"
  using assms unfolding represents_def by blast+

lemma representsI:
  assumes "pb_documented pe pd" "history_ok h" "orset_inv s" "settled h gone k" "removed h k \<subseteq> dead s \<union> gone"
    and "live s = {p \<in> added h k. snd p \<notin> removed h k}"
    and "\<And>a r. map_of (tombstones s) a = Some r \<Longrightarrow>
      known k r \<and> (\<exists>e s'. h r = Some (Remove e, s') \<and> (e, a) \<in> live s')"
  shows "represents pe pd gone h k s"
  unfolding represents_def by (intro conjI allI impI assms)

lemma represents_dead: "represents pe pd gone h k s \<Longrightarrow> dead s \<subseteq> removed h k"
  using representsD(6) unfolding dead_def dom_def removed_def by blast

lemma represents_dead_eq: "represents pe pd {} h k s \<Longrightarrow> dead s = removed h k"
  using represents_dead representsD(4) by blast

lemma settled_empty [simp]: "settled h {} k"
  by (simp add: settled_def)

lemma settledD: "settled h gone k \<Longrightarrow> a \<in> gone \<Longrightarrow> known k a \<Longrightarrow> a \<in> removed h k"
  unfolding settled_def by blast

lemma settled_extend: "h x = None \<Longrightarrow> \<not> known k x \<Longrightarrow> settled h gone k \<Longrightarrow> settled (h(x \<mapsto> v)) gone k"
  unfolding settled_def by auto

lemma settled_max: "settled h gone k \<Longrightarrow> settled h gone k' \<Longrightarrow> settled h gone (\<lambda>n. max (k n) (k' n))"
  unfolding settled_def by (auto simp: known_max removed_max)

lemma represents_live_added: "represents pe pd gone h k s \<Longrightarrow> (e, a) \<in> live s \<Longrightarrow> known k a \<and> (\<exists>s'. h a = Some (Add e, s'))"
  using representsD(5) [of pe pd gone h k s] by (auto simp: added_def)

lemma represents_contains: "represents pe pd gone h k s \<Longrightarrow> contains s e \<longleftrightarrow> observed_remove h k e"
  using representsD(3,5) [of pe pd gone h k s] by (auto simp: contains_iff observed_remove_def)

lemma represents_new: "pb_documented pe pd \<and> gone = {} \<Longrightarrow> represents pe pd gone (\<lambda>_. None) (\<lambda>_. 0) OrSet_new"
  by (auto simp: represents_def history_ok_def added_def removed_def OrSet_new_def live_def dead_def orset_inv_def)

lemma represents_extend:
  assumes t: "represents pe pd gone h k t" and s: "represents pe pd gone h k2 s"
    and op: "string_op op" "h x = None" "k (node_id x) < counter x"
  shows "represents pe pd gone (h(x \<mapsto> (op, s))) k t"
proof -
  have x: "\<not> known k x" using op(3) by (simp add: known_def)
  have "history_ok (h(x \<mapsto> (op, s)))"
    using representsD(2) [OF t] op(1,2) represents_live_added [OF s] by (intro history_ok_extend) blast+
  moreover have "h r = Some (Remove e, s') \<Longrightarrow> (h(x \<mapsto> (op, s))) r = Some (Remove e, s')" for r e s'
    using op(2) by auto
  then have "map_of (tombstones t) a = Some r \<Longrightarrow>
      known k r \<and> (\<exists>e s'. (h(x \<mapsto> (op, s))) r = Some (Remove e, s') \<and> (e, a) \<in> live s')" for a r
    using representsD(6) [OF t] by blast
  ultimately show ?thesis
    using representsD(1,3-5) [OF t] settled_extend [OF op(2) x representsD(7) [OF t]] x op(2) unfolding represents_def by (simp del: map_of_eq_Some_iff fun_upd_apply)
qed

lemma insert_filter: "Q z \<Longrightarrow> insert z {p \<in> A. Q p} = {p \<in> insert z A. Q p}"
  by auto

lemma represents_local:
  assumes s: "represents pe pd gone h k s"
    and op: "string_op op" "h x = None" "k (node_id x) < counter x" "counter x = k (node_id x) + 1"
  shows "represents pe pd gone (h(x \<mapsto> (op, s))) (k(node_id x := counter x)) (apply_local s x op)"
proof -
  let ?h = "h(x \<mapsto> (op, s))" and ?k = "k(node_id x := counter x)"
  note rep = representsD [OF s]
  note added = added_next [where k = k and x = x and h = h, OF op(3,4,2)]
    and removed = removed_next [where k = k and x = x and h = h, OF op(3,4,2)]
    and knows = known_next [where k = k and x = x, OF op(3,4)]
  have hist: "history_ok ?h"
    using rep(2) op(1,2) represents_live_added [OF s] by (intro history_ok_extend) blast+
  have x_alive: "x \<notin> removed h k"
  proof
    assume "x \<in> removed h k"
    then obtain y e s' where "h y = Some (Remove e, s')" "(e, x) \<in> live s'" by (auto simp: removed_def)
    then show False using rep(2) op(2) unfolding history_ok_def by fastforce
  qed
  have "removed h k \<subseteq> removed ?h ?k" unfolding removed by blast
  then have settled: "settled ?h gone ?k"
    using rep(7) op(2) unfolding settled_def knows by auto
  have x_new: "(e, x) \<notin> added h k" for e using op(2) by (auto simp: added_def)
  have unique: "(e, a) \<in> live s \<Longrightarrow> (e', a) \<in> live s \<Longrightarrow> e = e'" for e e' a
    using represents_live_added [OF s, of e a] represents_live_added [OF s, of e' a] by auto
  have keep: "h r = Some (Remove e, s') \<Longrightarrow> ?h r = Some (Remove e, s')" for r e s'
    using op(2) by auto
  have old: "map_of (tombstones s) a = Some r \<Longrightarrow> known ?k r \<and> (\<exists>e s'. ?h r = Some (Remove e, s') \<and> (e, a) \<in> live s')" for a r
    unfolding knows using rep(6) [of a r] keep by blast
  show ?thesis
  proof (cases op)
    case (Add e)
    have a: "added ?h ?k = insert (e, x) (added h k)" and r: "removed ?h ?k = removed h k"
      by (simp_all only: added removed Add OrSetOp.case) simp_all
    have live': "live (apply_local s x op) = insert (e, x) (live s)" by (simp only: Add live_add)
    have "orset_inv (apply_local s x op)" unfolding Add using rep(3) represents_dead [OF s] x_alive by (intro orset_inv_add) auto
    moreover have "tombstones (apply_local s x op) = tombstones s" by (simp add: Add apply_local.simps)
    moreover have "live (apply_local s x op) = {p \<in> added ?h ?k. snd p \<notin> removed ?h ?k}"
      unfolding a r live' rep(5) by (rule insert_filter) (simp only: snd_conv x_alive not_False_eq_True)
    moreover have "removed ?h ?k \<subseteq> dead (apply_local s x op) \<union> gone"
      unfolding r by (simp only: Add dead_add rep(4))
    ultimately show ?thesis by (intro representsI rep(1) hist settled old) (simp_all only:)
  next
    case (Remove e)
    have a: "added ?h ?k = added h k" and r: "removed ?h ?k = removed h k \<union> {a. (e, a) \<in> live s}"
      by (simp_all only: added removed Remove OrSetOp.case) simp_all
    have live': "live (apply_local s x op) = {(y, c) \<in> live s. y \<noteq> e}" by (simp only: Remove live_remove)
    have "orset_inv (apply_local s x op)" unfolding Remove using rep(3) unique by (rule orset_inv_remove)
    moreover have "live (apply_local s x op) = {p \<in> added ?h ?k. snd p \<notin> removed ?h ?k}"
      unfolding a r live' rep(5) by (auto dest: added_unique)
    moreover have "removed ?h ?k \<subseteq> dead (apply_local s x op) \<union> gone"
      unfolding r using rep(4) by (auto simp: Remove dead_remove)
    moreover have "known ?k r \<and> (\<exists>e s'. ?h r = Some (Remove e, s') \<and> (e, a) \<in> live s')"
      if "map_of (tombstones (apply_local s x op)) a = Some r" for a r
    proof (cases "(e, a) \<in> live s")
      case True
      then have "r = x" using that by (simp add: Remove map_of_tombstones_remove del: map_of_eq_Some_iff)
      then show ?thesis using True Remove by (auto simp: knows)
    next
      case False
      then show ?thesis using that old by (simp add: Remove map_of_tombstones_remove del: map_of_eq_Some_iff)
    qed
    ultimately show ?thesis by (intro representsI rep(1) hist settled)
  qed
qed

lemma decode_delta_context:
  "decode_delta de pd bs = Inr dl \<Longrightarrow> \<exists>p. pd bs = Inr p \<and> od_context dl = pos_context p"
  by (auto simp: decode_delta_def split: sum.splits)

text \<open>A delta of a represented state survives the wire, and carries the clock it was made with.\<close>

lemma represented_delta_decodes:
  assumes s: "represents pe pd gone h (effective_counter dvv) s" and dvv: "dvv_inv dvv"
  obtains dl where "decode_delta decode_elem pd (encode_delta encode_elem pe (delta_since s r dvv)) = Inr dl"
    and "od_adds dl = od_adds (delta_since s r dvv)" "od_tombstones dl = od_tombstones (delta_since s r dvv)"
    and "hm_ok (od_context dl)"
    and "effective_counter \<lparr>dvv_dot = Dot_new (od_dot_node dl) (od_dot_counter dl), dvv_context = od_context dl\<rparr>
      = effective_counter dvv"
proof -
  let ?d = "delta_since s r dvv"
  have ctx: "od_context ?d = effective_map dvv" "od_dot_node ?d = node_id (dvv_dot dvv)"
    "od_dot_counter ?d = counter (dvv_dot dvv)"
    by (simp_all add: delta_since_def)
  have "is_String e" if "(e, a) \<in> set (od_adds ?d)" for e a
  proof -
    have "(e, a) \<in> live s" using that representsD(3) [OF s] by (simp add: set_od_adds_delta)
    then obtain s' where "h a = Some (Add e, s')" using represents_live_added [OF s] by blast
    then have "string_op (Add e)" using representsD(2) [OF s] unfolding history_ok_def by blast
    then show ?thesis by (simp add: string_op_def)
  qed
  moreover have "hm_ok (pos_context (delta_to_proto encode_elem ?d))"
    using dvv by (simp add: delta_to_proto_def ctx)
  with representsD(1) [OF s] obtain p where p: "pd (pe (delta_to_proto encode_elem ?d)) = Inr p"
    "proto_equiv p (delta_to_proto encode_elem ?d)" "hm_ok (pos_context p)"
    unfolding pb_documented_def by blast
  ultimately obtain dl where dl: "decode_delta decode_elem pd (encode_delta encode_elem pe ?d) = Inr dl"
    "delta_equiv dl ?d"
    using string_codec.delta_roundtrip [of ?d pd pe p] by blast
  have ok: "hm_ok (od_context dl)"
    using decode_delta_context [OF dl(1)] p by (auto simp: encode_delta_def)
  have eq: "hm_or (od_context dl) n 0 = effective_counter dvv n" for n
  proof -
    have "map_of (od_context dl) n = map_of (effective_map dvv) n"
      using dl(2) ctx by (simp add: delta_equiv_def hm_eq_iff)
    then have "hm_or (od_context dl) n 0 = hm_or (effective_map dvv) n 0" by (simp only: hm_or_def)
    then show ?thesis by (simp only: hm_or_effective_map)
  qed
  have "effective_counter \<lparr>dvv_dot = Dot_new (od_dot_node dl) (od_dot_counter dl), dvv_context = od_context dl\<rparr> n
      = effective_counter dvv n" for n
    using dl(2) ctx effective_counter_own [OF dvv]
    by (auto simp: effective_counter_def [of "\<lparr>dvv_dot = _, dvv_context = _\<rparr>"] eq delta_equiv_def Let_def)
  then show ?thesis
    using dl ok by (intro that [of dl]) (auto simp: delta_equiv_def)
qed

lemma represents_merge:
  assumes t: "represents pe pd gone h k t" and s: "represents pe pd gone h (effective_counter dvv) s"
    and r: "\<And>n. hm_or r n 0 \<le> k n"
    and dl: "od_adds dl = od_adds (delta_since s r dvv)" "od_tombstones dl = od_tombstones (delta_since s r dvv)"
  shows "represents pe pd gone h (\<lambda>n. max (k n) (effective_counter dvv n)) (merge_delta t dl)"
proof -
  let ?k' = "effective_counter dvv" and ?m = "\<lambda>n. max (k n) (effective_counter dvv n)"
  note rt = representsD [OF t] and rs = representsD [OF s]
  have adds: "set (od_adds dl) = {(e, d) \<in> live s. counter d > hm_or r (node_id d) 0}"
    and tombs: "set (od_tombstones dl) = {(a, rd). map_of (tombstones s) a = Some rd \<and> counter rd > hm_or r (node_id rd) 0}"
    using rs(3) by (simp_all only: dl set_od_adds_delta set_od_tombstones_delta)
  have old: "known k x" if "\<not> counter x > hm_or r (node_id x) 0" for x
    using that r [of "node_id x"] unfolding known_def by (simp add: not_less)
  let ?T = "fst ` set (od_tombstones dl)"
  have T_le: "?T \<subseteq> removed h ?k'"
    using represents_dead [OF s] unfolding tombs dead_def dom_def by force
  have T_ge: "a \<in> removed h k \<or> a \<in> ?T \<or> a \<in> gone" if a: "a \<in> removed h ?k'" for a
  proof (cases "map_of (tombstones s) a")
    case None
    then show ?thesis using a rs(4) unfolding dead_def by blast
  next
    case (Some rd)
    show ?thesis
    proof (cases "counter rd > hm_or r (node_id rd) 0")
      case True
      then have "(a, rd) \<in> set (od_tombstones dl)" using Some unfolding tombs by blast
      then show ?thesis by force
    next
      case False
      then show ?thesis using rs(6) [OF Some] old unfolding removed_def by blast
    qed
  qed
  have dead: "removed h ?m \<subseteq> dead (merge_delta t dl) \<union> gone"
    unfolding dead_merge [OF rt(3)] removed_max using rt(4) T_ge by blast
  have "live (merge_delta t dl) = {p \<in> added h ?m. snd p \<notin> removed h ?m}"
  proof (rule set_eqI)
    fix p
    have sent: "p \<in> set (od_adds dl) \<longleftrightarrow> p \<in> added h ?k' \<and> snd p \<notin> removed h ?k' \<and> counter (snd p) > hm_or r (node_id (snd p)) 0"
      unfolding adds rs(5) by (cases p) auto
    have here: "p \<in> added h ?k' \<Longrightarrow> known k (snd p) \<Longrightarrow> p \<in> added h k" by (cases p) (auto simp: added_def)
    have knows: "p \<in> added h k \<Longrightarrow> known k (snd p)" "p \<in> added h ?k' \<Longrightarrow> known ?k' (snd p)"
      by (cases p, auto simp: added_def)+
    have "(p \<in> live t \<or> p \<in> set (od_adds dl)) \<and> snd p \<notin> dead t \<and> snd p \<notin> ?T \<longleftrightarrow>
        p \<in> added h ?m \<and> snd p \<notin> removed h ?m"
      using old [of "snd p"] here knows sent T_le T_ge [of "snd p"] represents_dead [OF t] rt(4)
        settledD [OF rt(7), of "snd p"] settledD [OF rs(7), of "snd p"]
      unfolding rt(5) added_max removed_max by blast
    then show "p \<in> live (merge_delta t dl) \<longleftrightarrow> p \<in> {p \<in> added h ?m. snd p \<notin> removed h ?m}"
      unfolding live_merge [OF rt(3)] by auto
  qed
  moreover have "known ?m x \<and> (\<exists>e s'. h x = Some (Remove e, s') \<and> (e, a) \<in> live s')"
    if "map_of (tombstones (merge_delta t dl)) a = Some x" for a x
  proof (cases "map_of (rev (od_tombstones dl)) a")
    case None
    then have "map_of (tombstones t) a = Some x"
      using that unfolding map_of_tombstones_merge [OF rt(3)] by simp
    then show ?thesis using rt(6) unfolding known_max by blast
  next
    case (Some y)
    then have "y = x" using that unfolding map_of_tombstones_merge [OF rt(3)] by simp
    moreover have "(a, y) \<in> set (od_tombstones dl)" using map_of_SomeD [OF Some] by simp
    ultimately have "map_of (tombstones s) a = Some x" unfolding tombs by blast
    then show ?thesis using rs(6) unfolding known_max by blast
  qed
  ultimately show ?thesis
    using dead orset_inv_merge [OF rt(3)] settled_max [OF rt(7) rs(7)] by (intro representsI rt(1,2))
qed

subsection \<open>The server's engine\<close>

definition or_set_env ::
  "(ProtoOrSetDelta \<Rightarrow> bytes) \<Rightarrow> (bytes \<Rightarrow> (wire_error, ProtoOrSetDelta) result) \<Rightarrow> 'd strategy
     \<Rightarrow> ('d \<Rightarrow> 'h PeerRegistry) \<Rightarrow> 's GcStorage \<Rightarrow> ('s, anyhow, NodeId list) call
     \<Rightarrow> (string OrSet, string OrSetOp, string OrSetDelta, 'h, 'd, 's) engine_env" where
  "or_set_env pe pd strat reg G members_now =
     \<lparr>env_crdt = or_set_crdt pe pd, env_strategy = strat, env_registry = reg, env_storage = G,
      env_members = members_now\<rparr>"

lemma or_set_env_simps [simp]:
  "env_crdt (or_set_env pe pd strat reg G m) = or_set_crdt pe pd"
  "env_strategy (or_set_env pe pd strat reg G m) = strat"
  "env_registry (or_set_env pe pd strat reg G m) = reg"
  by (simp_all add: or_set_env_def)

lemma represents_merge_wire:
  assumes "represents pe pd gone h k t" "represents pe pd gone h (effective_counter dvv) s" "dvv_inv dvv"
    "\<And>n. hm_or r n 0 \<le> k n"
  shows "\<exists>dl ctx nid ctr. crdt_decode_delta (or_set_crdt pe pd)
      (crdt_encode_delta (or_set_crdt pe pd) (crdt_delta_since (or_set_crdt pe pd) s r dvv)) = Inr dl \<and>
    represents pe pd gone h (\<lambda>n. max (k n) (effective_counter dvv n)) (crdt_merge_delta (or_set_crdt pe pd) t dl) \<and>
    crdt_causal_context (or_set_crdt pe pd) dl = (ctx, nid, ctr) \<and> hm_ok ctx \<and>
    effective_counter \<lparr>dvv_dot = Dot_new nid ctr, dvv_context = ctx\<rparr> = effective_counter dvv"
proof -
  from represented_delta_decodes [OF assms(2,3), of r] obtain dl where
    "decode_delta decode_elem pd (encode_delta encode_elem pe (delta_since s r dvv)) = Inr dl"
    "od_adds dl = od_adds (delta_since s r dvv)" "od_tombstones dl = od_tombstones (delta_since s r dvv)"
    "hm_ok (od_context dl)"
    "effective_counter \<lparr>dvv_dot = Dot_new (od_dot_node dl) (od_dot_counter dl), dvv_context = od_context dl\<rparr>
      = effective_counter dvv" by metis
  moreover from represents_merge [OF assms(1,2,4)] this(2,3) have
    "represents pe pd gone h (\<lambda>n. max (k n) (effective_counter dvv n)) (merge_delta t dl)" by blast
  ultimately show ?thesis by (simp add: or_set_crdt_def causal_context_def)
qed

lemmas represents_laws = represents_new represents_extend represents_local represents_merge_wire

lemma or_set_replication:
  assumes "dissemination log_send strat reg pushes pulls"
  shows "replication (or_set_env pe pd strat reg G m) pushes pulls string_op OrSet_new
    (pb_documented pe pd \<and> gone = {}) (represents pe pd gone)"
proof (rule replication.intro)
  show "dissemination log_send (env_strategy (or_set_env pe pd strat reg G m))
      (env_registry (or_set_env pe pd strat reg G m)) pushes pulls"
    using assms by simp
  show "replication_axioms (or_set_env pe pd strat reg G m) string_op OrSet_new
      (pb_documented pe pd \<and> gone = {}) (represents pe pd gone)"
  proof (rule replication_axioms.intro, unfold or_set_env_simps)
    fix h k s op x
    assume "represents pe pd gone h k s" "string_op op" "h x = None" "k (node_id x) < counter x"
      "counter x = k (node_id x) + 1"
    then show "represents pe pd gone (h(x \<mapsto> (op, s))) (k(node_id x := counter x))
        (crdt_apply_local (or_set_crdt pe pd) s x op)"
      unfolding or_set_crdt_def DeltaCrdt.simps by (rule represents_local)
  qed (erule represents_laws represents_merge_wire; assumption)+
qed

interpretation push_replication: replication
  "or_set_env pe pd (push_strategy log_send) peer_registry G m" True False
  string_op OrSet_new "pb_documented pe pd \<and> gone = {}" "represents pe pd gone"
  for pe pd gone G m
  by (rule or_set_replication) unfold_locales

interpretation pull_replication: replication
  "or_set_env pe pd (pull_strategy log_send) peer_registry G m" False True
  string_op OrSet_new "pb_documented pe pd \<and> gone = {}" "represents pe pd gone"
  for pe pd gone G m
  by (rule or_set_replication) unfold_locales

interpretation push_pull_replication: replication
  "or_set_env pe pd (push_pull_strategy log_send) peer_registry G m" True True
  string_op OrSet_new "pb_documented pe pd \<and> gone = {}" "represents pe pd gone"
  for pe pd gone G m
  by (rule or_set_replication) unfold_locales

subsection \<open>Properties\<close>

abbreviation server_env ::
  "(ProtoOrSetDelta \<Rightarrow> bytes) \<Rightarrow> (bytes \<Rightarrow> (wire_error, ProtoOrSetDelta) result)
     \<Rightarrow> 's GcStorage \<Rightarrow> ('s, anyhow, NodeId list) call
     \<Rightarrow> (string OrSet, string OrSetOp, string OrSetDelta, channel, channel PushPull, 's) engine_env" where
  "server_env pe pd \<equiv> or_set_env pe pd (push_pull_strategy log_send) peer_registry"

lemma net_run_inv:
  assumes "net_run (server_env pe pd G m) string_op cid OrSet_new S" "pb_documented pe pd"
  shows "net_inv (server_env pe pd G m) (represents pe pd {}) S"
  using push_pull_replication.net_inv_run [OF assms(1), where gone = "{}"] assms(2) by simp

subsection \<open>A small execution\<close>

text \<open>Node \<open>A\<close> adds an element, connects to the collector \<open>G\<close> and sends it a pull request.\<close>

definition demo_env where
  "demo_env = server_env mem_pb_enc mem_pb_dec
     (idle_storage default_epoch_metadata default_epoch_state) (\<lambda>s. (Inr [], s))"

definition demo_start :: "(string OrSet, string OrSetOp, channel PushPull) system" where
  "demo_start =
     \<lparr>replica = (\<lambda>i. engine_new i ''c'' OrSet_new (push_pull_new registry_new 1)
        \<lparr>gc_replica = (i = ''G''), observe_interval = 1,
         storage_config = \<lparr>bucket = ''b'', key_prefix = ''gc''\<rparr>, gc_replica_config = None\<rparr>),
      history = (\<lambda>_. None)\<rparr>"

definition demo_added where
  "demo_added = (set_replica demo_start ''A''
      (client_operation demo_env 0 (Add ''x'') (replica demo_start ''A'')))
     \<lparr>history := (history demo_start)(next_dot (replica demo_start ''A'') \<mapsto>
        (Add ''x'', eng_crdt (replica demo_start ''A'')))\<rparr>"

definition demo_connected where
  "demo_connected = set_replica demo_added ''A'' ((replica demo_added ''A'')
     \<lparr>eng_dissemination := push_pull_new (registry_insert registry_new ''G'' True []) 1\<rparr>)"

definition demo_pulled where
  "demo_pulled = set_replica demo_connected ''A'' (do_pull demo_env 0 (replica demo_connected ''A''))"

definition demo_received where
  "demo_received = set_replica demo_pulled ''G'' (fst (snd (handle_request demo_env 0
     (DeltaRequest ''A'' ''c'' [(''A'', 1)]) (replica demo_pulled ''G'', ()))))"

lemma mem_pb_documented': "pb_documented mem_pb_enc mem_pb_dec"
  by (simp add: pb_documented_def)

lemma demo_added_A:
  "eng_crdt (replica demo_added ''A'') = apply_local OrSet_new (Dot_new ''A'' 1) (Add ''x'')"
  "eng_dvv (replica demo_added ''A'') = dvv_event (dvv_new ''A'')"
  "engine_registry demo_env (replica demo_added ''A'') = registry_new"
  "eng_node_id (replica demo_added ''A'') = ''A''" "eng_crdt_id (replica demo_added ''A'') = ''c''"
  "\<not> engine_gc_replica ((replica demo_added ''A'')\<lparr>eng_dissemination := d\<rparr>)"
  "history demo_added = [Dot_new ''A'' 1 \<mapsto> (Add ''x'', OrSet_new)]"
  by (simp_all add: demo_added_def set_replica_def demo_start_def demo_env_def or_set_crdt_def next_dot_def
      engine_registry_def client_operation_def Let_def push_pull_defs push_pull_new_def gossip_def
      choose_peer_def peer_ids_def registry_new_def engine_gc_replica_def coordinator_new_def)

lemma demo_run_start: "net_run demo_env string_op ''c'' OrSet_new demo_start"
  by (rule net_start [where d = "\<lambda>_. push_pull_new registry_new 1"
        and cfg = "\<lambda>i. \<lparr>gc_replica = (i = ''G''), observe_interval = 1,
         storage_config = \<lparr>bucket = ''b'', key_prefix = ''gc''\<rparr>, gc_replica_config = None\<rparr>"])
    (simp_all add: demo_start_def demo_env_def push_pull_new_def)

lemma demo_run_added: "net_run demo_env string_op ''c'' OrSet_new demo_added"
proof (rule net_next [OF demo_run_start])
  have "is_String ''x''" by code_simp
  then show "net_step demo_env string_op demo_start demo_added"
    unfolding demo_added_def by (intro local_step) (simp_all add: string_op_def demo_start_def)
qed

lemma demo_run_received: "net_run demo_env string_op ''c'' OrSet_new demo_received"
proof -
  have "net_step demo_env string_op demo_added demo_connected"
    unfolding demo_connected_def
    by (rule connect_step [where j = "''G''" and g = True],
        simp only: demo_added_A, simp add: demo_env_def push_pull_new_def)
  with demo_run_added have 1: "net_run demo_env string_op ''c'' OrSet_new demo_connected" by (rule net_next)
  have "net_step demo_env string_op demo_connected demo_pulled" unfolding demo_pulled_def by (rule pull_step)
  with 1 have 2: "net_run demo_env string_op ''c'' OrSet_new demo_pulled" by (rule net_next)
  have "net_step demo_env string_op demo_pulled demo_received"
    unfolding demo_received_def
  proof (rule receive_step)
    have "effective_map (dvv_event (dvv_new ''A'')) = [(''A'', 1)]" by code_simp
    then show "registry_get (engine_registry demo_env (replica demo_pulled ''A'')) ''G'' =
        Some (True, [make_pull_request_envelope ''c'' ''A'' False [(''A'', 1)]])"
      by (simp add: demo_pulled_def demo_connected_def demo_added_A engine_registry_def do_pull_def demo_env_def
          push_pull_defs push_pull_new_def registry_get_deliver advertise_def choose_peer_def peer_ids_def
          registry_get_insert) (simp add: registry_insert_def registry_new_def)
  qed (rule list.set_intros, simp)
  with 2 show ?thesis by (rule net_next)
qed

text \<open>Strong eventual consistency.  In every execution of the server's replicas in which
  envelopes may be lost, duplicated, delayed and reordered and connections come and go, each replica's
  set is the observed-remove set of the operations its clock knows: an element is in it exactly when
  one of its known adds was not in the set a known remove was applied to.  So two replicas with equal
  knowledge hold the same elements and have forgotten the same dots.  (No replica performs \<open>2^64 - 1\<close>
  operations, elements are Rust strings, and the protobuf library returns equal messages.)\<close>

theorem replicas_converge:
  assumes "net_run (server_env pe pd G m) string_op cid OrSet_new S" and "pb_documented pe pd"
  shows "(contains (eng_crdt (replica S i)) e \<longleftrightarrow> observed_remove (history S) (know S i) e) \<and>
    (know S i = know S j \<longrightarrow>
      set (elements (eng_crdt (replica S i))) = set (elements (eng_crdt (replica S j))) \<and>
      live (eng_crdt (replica S i)) = live (eng_crdt (replica S j)) \<and>
      dead (eng_crdt (replica S i)) = dead (eng_crdt (replica S j)))"
proof -
  have rep: "represents pe pd {} (history S) (know S n) (eng_crdt (replica S n))" for n
    using net_run_inv [OF assms] by (rule push_pull_replication.inv_engine)
  show ?thesis
    using represents_contains [OF rep] represents_dead_eq [OF rep, of i] represents_dead_eq [OF rep, of j]
      representsD(5) [OF rep, of i] representsD(5) [OF rep, of j]
    by (auto simp: set_elements representsD(3) [OF rep])
qed

theorem replicas_converge_witness:
  "contains (eng_crdt (replica demo_added ''A'')) ''x''"
proof -
  have "observed_remove (history demo_added) (know demo_added ''A'') ''x''"
    by (simp add: observed_remove_def added_def removed_def known_def know_def demo_added_A
        effective_counter_event)
  then show ?thesis
    using replicas_converge [OF demo_run_added [unfolded demo_env_def] mem_pb_documented'] by blast
qed






end
