(* ===== verification/Collection.thy ===== *)
theory Collection
  imports OR_Set_Replication
begin

text \<open>
  Garbage collection in the running system.  The steps of \<open>Replication\<close> are joined by the handlers of
  \<^verbatim>\<open>InitiateGc\<close> and \<^verbatim>\<open>ObserveEpochChange\<close>, with any answers of the storage and the membership service, and by channels that lose
  envelopes (those that have arrived or were dropped).  A ghost collects the dots whose
  tombstones some replica has forgotten.

  A guard says when a replica may forget dots.  With the guard \<open>quiet\<close>, that every replica and every delta still in a channel
  that knows one of the adds knows its removal, the system keeps converging.  The protocol of the coordinator
  brings about the first half of it for the members.  Nothing in the code brings about the second half,
  and a run that has only the first half ends with two replicas that know the same and differ for ever.

  Collections that forget a departed node are left out: they shrink clocks.
\<close>

subsection \<open>What the collector does to its replica\<close>

definition shrinks :: "GcCoordinator \<Rightarrow> GcCoordinator \<Rightarrow> bool" where
  "shrinks self self' \<longleftrightarrow> coordinator_inv self' \<and>
     (\<forall>p ctx'. row self' p = Some ctx' \<longrightarrow> (\<exists>ctx. row self p = Some ctx \<and> vv_leq ctx' ctx))"

lemma shrinks_inv: "shrinks self self' \<Longrightarrow> coordinator_inv self'"
  by (simp add: shrinks_def)

lemma shrinks_refl: "coordinator_inv self \<Longrightarrow> shrinks self self"
  by (auto simp: shrinks_def)

lemma shrinks_trans: "shrinks a b \<Longrightarrow> shrinks b c \<Longrightarrow> shrinks a c"
  unfolding shrinks_def by (fast intro: vv_leq_trans)

lemma shrinks_forget:
  assumes "coordinator_inv self"
  shows "shrinks self (remove_matrix_clock_column (remove_matrix_clock_row self p) p)"
proof -
  have "vv_leq (hm_remove p ctx) ctx" for ctx :: CausalContext
    by (simp add: vv_leq_iff hm_or_def del: map_of_eq_Some_iff)
  then show ?thesis
    using assms by (auto simp add: shrinks_def row_remove_column row_remove_row)
qed

lemma shrinks_epoch [simp]: "shrinks self (self'\<lparr>gc_epoch := n\<rparr>) = shrinks self self'"
  "shrinks (self\<lparr>gc_epoch := n\<rparr>) self' = shrinks self self'"
  by (simp_all add: shrinks_def row_def)

lemma shrinks_observed:
  "fold forget_observed ps (self, dvv) = (self', dvv') \<Longrightarrow> coordinator_inv self \<Longrightarrow> shrinks self self'"
proof (induction ps arbitrary: self dvv)
  case (Cons p ps)
  define self1 where "self1 = (if gc_replica (gc_config self)
    then remove_matrix_clock_column (remove_matrix_clock_row self p) p else self)"
  have s: "shrinks self self1" using Cons.prems(2) by (simp add: self1_def shrinks_refl shrinks_forget)
  have "fold forget_observed ps (self1, dvv_remove p dvv) = (self', dvv')"
    using Cons.prems(1) by (simp add: forget_observed_def self1_def)
  from shrinks_trans [OF s Cons.IH [OF this shrinks_inv [OF s]]] show ?case .
qed (simp add: shrinks_refl)

lemma shrinks_obsolete:
  "fold forget_obsolete ps (self, dvv, v) = (self', dvv', v') \<Longrightarrow> coordinator_inv self \<Longrightarrow> shrinks self self'"
proof (induction ps arbitrary: self dvv v)
  case (Cons p ps)
  let ?self1 = "remove_matrix_clock_column (remove_matrix_clock_row self p) p"
  have s: "shrinks self ?self1" using Cons.prems(2) by (rule shrinks_forget)
  have "fold forget_obsolete ps (?self1, dvv_remove p dvv, hm_remove p v) = (self', dvv', v')"
    using Cons.prems(1) by (simp add: forget_obsolete_def)
  from shrinks_trans [OF s Cons.IH [OF this shrinks_inv [OF s]]] show ?case .
qed (simp add: shrinks_refl)

definition collects :: "('c, 'op, 'dl) DeltaCrdt \<Rightarrow> 'c gc_state \<Rightarrow> 'c gc_state \<Rightarrow> bool" where
  "collects C = (\<lambda>(self, crdt, dvv) (self', crdt', dvv'). shrinks self self' \<and>
     (crdt' = crdt \<or> (\<exists>f. crdt' = crdt_perform_gc C crdt f)))"

lemma collects_refl: "coordinator_inv (fst st) \<Longrightarrow> collects C st st"
  by (auto simp: collects_def shrinks_refl split: prod.splits)

lemma observe_collects:
  assumes "observe_epoch_change C G sid st s = (r, st', s')" "coordinator_inv (fst st)"
  shows "collects C st st'"
proof -
  obtain self crdt dvv where st: "st = (self, crdt, dvv)" by (metis prod_cases3)
  show ?thesis
    using assms collects_refl [OF assms(2), of C] shrinks_observed
    by (fastforce simp: observe_epoch_change_def st Let_def collects_def
        split: prod.splits sum.splits if_splits)
qed

lemma initiate_collects:
  assumes "initiate_gc C G m sid st s = (r, st', s')" "coordinator_inv (fst st)"
  shows "collects C st st'"
proof -
  obtain self crdt dvv where st: "st = (self, crdt, dvv)" by (metis prod_cases3)
  have commit: "collects C st st'" if c: "gc_commit C G sid n v obs (self, crdt, dvv) t = (r, st', s')" for n v obs t
  proof -
    obtain self1 dvv1 v1 where f: "fold forget_obsolete obs (self, dvv, v) = (self1, dvv1, v1)"
      by (metis prod_cases3)
    have "shrinks self self1" using shrinks_obsolete [OF f] assms(2) by (simp add: st)
    then show ?thesis using c f
      by (auto simp: gc_commit_def Let_def collects_def st split: prod.splits sum.splits)
  qed
  show ?thesis
    using initiate_gc_cases [OF assms(1) [unfolded st]] commit collects_refl [OF assms(2), of C] unfolding st by blast
qed

lemma collector_effect:
  assumes "rq \<in> {InitiateGc, ObserveEpochChange}" "coordinator_inv (eng_gc eng)"
    and "handle_request E rng rq (eng, w) = (resp, eng', w')"
  shows "eng_node_id eng' = eng_node_id eng" "eng_crdt_id eng' = eng_crdt_id eng"
    and "eng_dissemination eng' = eng_dissemination eng" "shrinks (eng_gc eng) (eng_gc eng')"
    and "eng_crdt eng' = eng_crdt eng \<or> (\<exists>f. eng_crdt eng' = crdt_perform_gc (env_crdt E) (eng_crdt eng) f)"
proof -
  obtain st where "eng' = set_gc_fields eng st" "collects (env_crdt E) (gc_fields eng) st"
    using assms observe_collects initiate_collects
    by (fastforce simp: engine_observe_epoch_change_def engine_initiate_gc_def gc_fields_def split: prod.splits)
  then show "eng_node_id eng' = eng_node_id eng" "eng_crdt_id eng' = eng_crdt_id eng"
    "eng_dissemination eng' = eng_dissemination eng" "shrinks (eng_gc eng) (eng_gc eng')"
    "eng_crdt eng' = eng_crdt eng \<or> (\<exists>f. eng_crdt eng' = crdt_perform_gc (env_crdt E) (eng_crdt eng) f)"
    by (auto simp: collects_def gc_fields_def set_gc_fields_def split: prod.splits)
qed

subsection \<open>The system\<close>

text \<open>What a delta claims to contain.\<close>

definition delta_clock :: "('c, 'op, 'dl) DeltaCrdt \<Rightarrow> 'dl \<Rightarrow> NodeId \<Rightarrow> Counter" where
  "delta_clock C dl = (case crdt_causal_context C dl of (ctx, n, c) \<Rightarrow>
     effective_counter \<lparr>dvv_dot = Dot_new n c, dvv_context = ctx\<rparr>)"

definition in_flight ::
  "('c, 'op, 'dl, channel, 'd, 's) engine_env \<Rightarrow> ('c, 'op, 'd) system \<Rightarrow> 'dl \<Rightarrow> bool" where
  "in_flight E S dl \<longleftrightarrow> (\<exists>i j g log cid n data km vv.
     registry_get (engine_registry E (replica S i)) j = Some (g, log) \<and>
     make_crdt_op_envelope cid n data km vv \<in> set log \<and> crdt_decode_delta (env_crdt E) data = Inr dl)"

type_synonym ('c, 'op, 'd) collected_system = "('c, 'op, 'd) system \<times> Dot set"

text \<open>\<open>tombs\<close> reads the removed dots out of a state; the guard is asked about the ones a collection drops.\<close>

inductive gc_step ::
  "('c, 'op, 'dl, channel, 'd, 's) engine_env \<Rightarrow> ('op \<Rightarrow> bool) \<Rightarrow> ('c \<Rightarrow> Dot set)
     \<Rightarrow> (('c, 'op, 'd) system \<Rightarrow> Dot set \<Rightarrow> bool) \<Rightarrow> ('c, 'op, 'd) collected_system
     \<Rightarrow> ('c, 'op, 'd) collected_system \<Rightarrow> bool"
  for E :: "('c, 'op, 'dl, channel, 'd, 's) engine_env" and op_ok :: "'op \<Rightarrow> bool" and tombs :: "'c \<Rightarrow> Dot set"
    and may_forget :: "('c, 'op, 'd) system \<Rightarrow> Dot set \<Rightarrow> bool"
where
  replicate_step: "net_step E op_ok S S' \<Longrightarrow> gc_step E op_ok tombs may_forget (S, gone) (S', gone)"
| drain_step: "(\<And>j g log. registry_get (env_registry E d) j = Some (g, log) \<Longrightarrow>
       \<exists>log0. registry_get (engine_registry E (replica S i)) j = Some (g, log0) \<and> set log \<subseteq> set log0) \<Longrightarrow>
     gc_step E op_ok tombs may_forget (S, gone) (set_replica S i ((replica S i)\<lparr>eng_dissemination := d\<rparr>), gone)"
| collect_step: "rq \<in> {InitiateGc, ObserveEpochChange} \<Longrightarrow>
     handle_request E rng rq (replica S i, w) = (resp, eng, w') \<Longrightarrow> eng_dvv eng = eng_dvv (replica S i) \<Longrightarrow>
     dropped = tombs (eng_crdt (replica S i)) - tombs (eng_crdt eng) \<Longrightarrow> may_forget S dropped \<Longrightarrow>
     gc_step E op_ok tombs may_forget (S, gone) (set_replica S i eng, gone \<union> dropped)"

inductive gc_run ::
  "('c, 'op, 'dl, channel, 'd, 's) engine_env \<Rightarrow> ('op \<Rightarrow> bool) \<Rightarrow> ('c \<Rightarrow> Dot set)
     \<Rightarrow> (('c, 'op, 'd) system \<Rightarrow> Dot set \<Rightarrow> bool) \<Rightarrow> string \<Rightarrow> 'c \<Rightarrow> ('c, 'op, 'd) collected_system \<Rightarrow> bool"
  for E :: "('c, 'op, 'dl, channel, 'd, 's) engine_env" and op_ok :: "'op \<Rightarrow> bool" and tombs :: "'c \<Rightarrow> Dot set"
    and may_forget :: "('c, 'op, 'd) system \<Rightarrow> Dot set \<Rightarrow> bool" and cid :: string and crdt0 :: 'c
where
  gc_start: "net_run E op_ok cid crdt0 S \<Longrightarrow> gc_run E op_ok tombs may_forget cid crdt0 (S, {})"
| gc_next: "gc_run E op_ok tombs may_forget cid crdt0 T \<Longrightarrow> gc_step E op_ok tombs may_forget T T' \<Longrightarrow>
     gc_run E op_ok tombs may_forget cid crdt0 T'"

text \<open>The guard: the dropped dots are settled for every replica and for every delta still on its way.\<close>

definition quiet ::
  "('c, 'op, 'dl, channel, 'd, 's) engine_env
     \<Rightarrow> (('op, 'c) history \<Rightarrow> Dot set \<Rightarrow> (NodeId \<Rightarrow> Counter) \<Rightarrow> bool)
     \<Rightarrow> ('c, 'op, 'd) system \<Rightarrow> Dot set \<Rightarrow> bool" where
  "quiet E is_settled S dropped \<longleftrightarrow> (\<forall>p. is_settled (history S) dropped (know S p)) \<and>
     (\<forall>dl. in_flight E S dl \<longrightarrow> is_settled (history S) dropped (delta_clock (env_crdt E) dl))"

subsection \<open>The contract of a CRDT with collection\<close>

locale collecting_replication =
  fixes E :: "('c, 'op, 'dl, channel, 'd, 's) engine_env" and pushes pulls :: bool
    and op_ok :: "'op \<Rightarrow> bool" and crdt0 :: 'c and documented :: bool
    and holds :: "Dot set \<Rightarrow> ('op, 'c) history \<Rightarrow> (NodeId \<Rightarrow> Counter) \<Rightarrow> 'c \<Rightarrow> bool"
    and tombs :: "'c \<Rightarrow> Dot set"
    and is_settled :: "('op, 'c) history \<Rightarrow> Dot set \<Rightarrow> (NodeId \<Rightarrow> Counter) \<Rightarrow> bool"
  assumes family: "replication E pushes pulls op_ok crdt0 (documented \<and> gone = {}) (holds gone)"
    and collect_elsewhere: "holds gone h k s \<Longrightarrow> is_settled h d k \<Longrightarrow> holds (gone \<union> d) h k s"
    and collect_here: "holds gone h k s \<Longrightarrow> tombs s - tombs (crdt_perform_gc (env_crdt E) s f) \<subseteq> gone \<Longrightarrow>
      holds gone h k (crdt_perform_gc (env_crdt E) s f)"

sublocale collecting_replication \<subseteq> base: replication E pushes pulls op_ok crdt0 "documented \<and> gone = {}" "holds gone"
  for gone
  by (rule family)

context collecting_replication
begin

lemma payload_collected:
  assumes data: "payload_ok (env_crdt E) (holds gone) h ks j data" and j: "holds gone h (ks j) t"
    and quiet: "\<And>dl. crdt_decode_delta (env_crdt E) data = Inr dl \<Longrightarrow> is_settled h d (delta_clock (env_crdt E) dl)"
  shows "payload_ok (env_crdt E) (holds (gone \<union> d)) h ks j data"
proof -
  obtain s dvv r where s: "data = crdt_encode_delta (env_crdt E) (crdt_delta_since (env_crdt E) s r dvv)"
    "dvv_inv dvv" "holds gone h (effective_counter dvv) s" "\<And>n. hm_or r n 0 \<le> ks j n"
    "\<And>n. effective_counter dvv n \<le> ks n n"
    using data unfolding payload_ok_def by blast
  from base.holds_merge [OF j s(3,2,4)] obtain dl ctx nid ctr where
    "crdt_decode_delta (env_crdt E) data = Inr dl" "crdt_causal_context (env_crdt E) dl = (ctx, nid, ctr)"
    "effective_counter \<lparr>dvv_dot = Dot_new nid ctr, dvv_context = ctx\<rparr> = effective_counter dvv"
    unfolding s(1) by blast
  then have "is_settled h d (effective_counter dvv)"
    using quiet [of dl] by (simp add: delta_clock_def)
  then have "holds (gone \<union> d) h (effective_counter dvv) s" using s(3) by (intro collect_elsewhere)
  then show ?thesis using s(1,2,4,5) unfolding payload_ok_def by blast
qed

lemma channels_collected:
  assumes chan: "channels_ok (env_crdt E) (holds gone) h ks i reg" and rep: "\<And>j. holds gone h (ks j) (state j)"
    and quiet: "\<And>j g log cid n data km vv dl. registry_get reg j = Some (g, log) \<Longrightarrow>
      make_crdt_op_envelope cid n data km vv \<in> set log \<Longrightarrow> crdt_decode_delta (env_crdt E) data = Inr dl \<Longrightarrow>
      is_settled h d (delta_clock (env_crdt E) dl)"
  shows "channels_ok (env_crdt E) (holds (gone \<union> d)) h ks i reg"
  unfolding channels_ok_def
proof (intro allI impI ballI)
  fix j g log env
  assume log: "registry_get reg j = Some (g, log)" and env: "env \<in> set log"
  have ok: "envelope_ok (env_crdt E) (holds gone) h ks i j env"
    using chan log env unfolding channels_ok_def by blast
  then consider cid g k where "env = make_pull_request_envelope cid i g k" "below k (ks i)"
    | cid data km vv where "env = make_crdt_op_envelope cid i data km vv"
      "\<And>k. vv = Some k \<Longrightarrow> below k (ks i)" "\<And>m. km = Some m \<Longrightarrow> matrix_below m ks"
      "payload_ok (env_crdt E) (holds gone) h ks j data"
    unfolding envelope_ok_def by blast
  then show "envelope_ok (env_crdt E) (holds (gone \<union> d)) h ks i j env"
  proof cases
    case 1
    then show ?thesis unfolding envelope_ok_def by blast
  next
    case (2 cid data km vv)
    have "payload_ok (env_crdt E) (holds (gone \<union> d)) h ks j data"
      using 2(4) rep by (rule payload_collected) (rule quiet [OF log env [unfolded 2(1)]])
    then show ?thesis unfolding 2(1) by (rule envelope_ok_op) (use 2(2,3) in blast)+
  qed
qed

lemma net_inv_collected:
  assumes inv: "net_inv E (holds gone) S" and quiet: "quiet E is_settled S d"
  shows "net_inv E (holds (gone \<union> d)) S"
proof -
  note eng = base.inv_engine [OF inv]
  have "holds (gone \<union> d) (history S) (know S p) (eng_crdt (replica S p))" for p
    using eng(6) quiet unfolding quiet_def by (blast intro: collect_elsewhere)
  moreover have "channels_ok (env_crdt E) (holds (gone \<union> d)) (history S) (know S) p (engine_registry E (replica S p))" for p
    using eng(9,6)
  proof (rule channels_collected)
    fix j g log cid n data km vv dl
    assume "registry_get (engine_registry E (replica S p)) j = Some (g, log)"
      "make_crdt_op_envelope cid n data km vv \<in> set log" "crdt_decode_delta (env_crdt E) data = Inr dl"
    then have "in_flight E S dl" unfolding in_flight_def by blast
    then show "is_settled (history S) d (delta_clock (env_crdt E) dl)" using quiet unfolding quiet_def by blast
  qed
  ultimately show ?thesis using inv unfolding net_inv_def by blast
qed

lemma collect_inv:
  assumes inv: "net_inv E (holds gone) S" and rq: "rq \<in> {InitiateGc, ObserveEpochChange}"
    and handled: "handle_request E rng rq (replica S i, w) = (resp, eng, w')" and dvv: "eng_dvv eng = eng_dvv (replica S i)"
    and quiet: "quiet E is_settled S (tombs (eng_crdt (replica S i)) - tombs (eng_crdt eng))"
  shows "net_inv E (holds (gone \<union> (tombs (eng_crdt (replica S i)) - tombs (eng_crdt eng)))) (set_replica S i eng)"
    (is "net_inv E (holds ?gone) _")
proof -
  note inv' = net_inv_collected [OF inv quiet]
  note old = base.inv_engine [OF inv']
  note effect = collector_effect [OF rq old(4) handled]
  have ks: "know S = (know S)(i := effective_counter (eng_dvv eng))" by (simp add: dvv know_def fun_eq_iff)
  have rows: "below ctx' (know S p)" if r: "row (eng_gc eng) p = Some ctx'" for p ctx'
  proof -
    obtain ctx where "row (eng_gc (replica S i)) p = Some ctx" "vv_leq ctx' ctx"
      using effect(4) [unfolded shrinks_def, THEN conjunct2, rule_format, OF r] by blast
    moreover have "hm_ok ctx'" using shrinks_inv [OF effect(4)] r by (rule coordinator_inv_row)
    ultimately show ?thesis
      using old(5) unfolding below_def vv_leq_iff by (meson order_trans)
  qed
  have "net_inv E (holds ?gone) ((set_replica S i eng)\<lparr>history := history S\<rparr>)"
  proof (rule net_inv_update [OF inv' ks])
    show "engine_ok i (know S) eng"
      using old(1-3) effect(1,4) rows by (simp add: engine_ok_def dvv shrinks_def)
    have "holds ?gone (history S) (know S i) (eng_crdt eng)"
      using effect(5) old(6) by (metis Un_upper2 collect_here)
    then show "holds ?gone (history S) (effective_counter (eng_dvv eng)) (eng_crdt eng)"
      by (simp add: dvv know_def)
    show "channels_ok (env_crdt E) (holds ?gone) (history S) (know S) i (engine_registry E eng)"
      using old(9) by (simp add: engine_registry_def effect(3))
  qed (use old(7,8) in \<open>simp_all add: dvv know_def\<close>)
  then show ?thesis by (simp add: set_replica_def)
qed

lemma drain_inv:
  assumes inv: "net_inv E (holds gone) S"
    and part: "\<And>j g log. registry_get (env_registry E d) j = Some (g, log) \<Longrightarrow>
      \<exists>log0. registry_get (engine_registry E (replica S i)) j = Some (g, log0) \<and> set log \<subseteq> set log0"
  shows "net_inv E (holds gone) (set_replica S i ((replica S i)\<lparr>eng_dissemination := d\<rparr>))"
proof (rule base.channels_registry_inv [OF inv])
  show "channels_ok (env_crdt E) (holds gone) (history S) (know S) i (env_registry E d)"
    using base.inv_engine(9) [OF inv] part unfolding channels_ok_def by blast
qed

lemma gc_inv_step:
  "gc_step E op_ok tombs (quiet E is_settled) T T' \<Longrightarrow> net_inv E (holds (snd T)) (fst T) \<Longrightarrow>
   net_inv E (holds (snd T')) (fst T')"
proof (induction rule: gc_step.induct)
  case (replicate_step S S' gone)
  then show ?case using base.net_inv_step by simp
next
  case (drain_step d S i gone)
  then show ?case using drain_inv by simp
next
  case (collect_step rq rng S i w resp eng w' dropped gone)
  then show ?case using collect_inv by simp
qed

lemma gc_inv_run:
  "gc_run E op_ok tombs (quiet E is_settled) cid crdt0 T \<Longrightarrow> documented \<Longrightarrow> net_inv E (holds (snd T)) (fst T)"
proof (induction rule: gc_run.induct)
  case (gc_start S)
  then show ?case using base.net_inv_run [of cid S "{}"] by simp
next
  case (gc_next T T')
  then show ?case using gc_inv_step by blast
qed

text \<open>What a node knows it still knows later, collections included.\<close>

lemma gc_know_step:
  "gc_step E op_ok tombs may T T' \<Longrightarrow> net_inv E (holds (snd T)) (fst T) \<Longrightarrow> know (fst T) p n \<le> know (fst T') p n"
proof (induction rule: gc_step.induct)
  case (replicate_step S S' gone)
  then show ?case using base.know_step by simp
qed (simp_all add: know_def)

lemma gc_later:
  assumes "(gc_step E op_ok tombs (quiet E is_settled))\<^sup>*\<^sup>* T T'"
    and "gc_run E op_ok tombs (quiet E is_settled) cid crdt0 T" "documented"
  shows "gc_run E op_ok tombs (quiet E is_settled) cid crdt0 T' \<and> know (fst T) p n \<le> know (fst T') p n"
  using assms(1)
proof induction
  case (step T1 T2)
  have "know (fst T1) p n \<le> know (fst T2) p n"
    using gc_inv_run [OF conjunct1 [OF step.IH] assms(3)] by (rule gc_know_step [OF step.hyps(2)])
  then show ?case using step by (meson gc_next order_trans)
qed (use assms(2) in simp)

end

subsection \<open>The OR-Set\<close>

lemma represents_elsewhere:
  assumes "represents pe pd gone h k s" "settled h d k"
  shows "represents pe pd (gone \<union> d) h k s"
  using assms unfolding represents_def settled_def by blast

lemma represents_here:
  assumes s: "represents pe pd gone h k s" and d: "dead s - dead (perform_gc s f) \<subseteq> gone"
  shows "represents pe pd gone h k (perform_gc s f)"
proof (rule representsI)
  note rep = representsD [OF s]
  show "removed h k \<subseteq> dead (perform_gc s f) \<union> gone" using rep(4) d by blast
  show "live (perform_gc s f) = {p \<in> added h k. snd p \<notin> removed h k}" using rep(5) by simp
  show "known k r \<and> (\<exists>e s'. h r = Some (Remove e, s') \<and> (e, a) \<in> live s')"
    if "map_of (tombstones (perform_gc s f)) a = Some r" for a r
    using that rep(6) [of a r] by (simp add: map_of_tombstones_gc [OF rep(3)] del: map_of_eq_Some_iff
        split: option.splits if_splits)
qed (use representsD [OF s] in \<open>simp_all add: orset_inv_gc\<close>)

lemma or_set_collecting:
  assumes "dissemination log_send strat reg pushes pulls"
  shows "collecting_replication (or_set_env pe pd strat reg G m) pushes pulls string_op OrSet_new
    (pb_documented pe pd) (represents pe pd) dead settled"
proof (rule collecting_replication.intro)
  show "replication (or_set_env pe pd strat reg G m) pushes pulls string_op OrSet_new
      (pb_documented pe pd \<and> gone = {}) (represents pe pd gone)" for gone
    using assms by (rule or_set_replication)
  have gc: "crdt_perform_gc (or_set_crdt pe pd) = perform_gc" by (simp add: or_set_crdt_def)
  show "represents pe pd gone h k (crdt_perform_gc (env_crdt (or_set_env pe pd strat reg G m)) s f)"
    if "represents pe pd gone h k s"
      "dead s - dead (crdt_perform_gc (env_crdt (or_set_env pe pd strat reg G m)) s f) \<subseteq> gone" for gone h k s f
    using that unfolding or_set_env_simps gc by (rule represents_here)
qed (rule represents_elsewhere)

interpretation push_collection: collecting_replication
  "or_set_env pe pd (push_strategy log_send) peer_registry G m" True False
  string_op OrSet_new "pb_documented pe pd" "represents pe pd" dead settled
  for pe pd G m
  by (rule or_set_collecting) unfold_locales

interpretation pull_collection: collecting_replication
  "or_set_env pe pd (pull_strategy log_send) peer_registry G m" False True
  string_op OrSet_new "pb_documented pe pd" "represents pe pd" dead settled
  for pe pd G m
  by (rule or_set_collecting) unfold_locales

interpretation push_pull_collection: collecting_replication
  "or_set_env pe pd (push_pull_strategy log_send) peer_registry G m" True True
  string_op OrSet_new "pb_documented pe pd" "represents pe pd" dead settled
  for pe pd G m
  by (rule or_set_collecting) unfold_locales

text \<open>A frontier a node knows settles, for that node, every dot a collection up to it drops.\<close>

lemma frontier_settles:
  assumes s: "represents pe pd gone h k s" and f: "\<And>r. dominates_dot f r \<Longrightarrow> known k' r"
  shows "settled h (dead s - dead (perform_gc s f)) k'"
  unfolding settled_def
proof (intro ballI conjI impI)
  note rep = representsD [OF s]
  fix a
  assume a: "a \<in> dead s - dead (perform_gc s f)"
  then obtain r where r: "map_of (tombstones s) a = Some r" "dominates_dot f r"
    using map_of_tombstones_gc [OF rep(3), of f a]
    by (auto simp: dead_def dom_def simp del: map_of_eq_Some_iff split: if_splits)
  obtain e s' where rm: "h r = Some (Remove e, s')" "(e, a) \<in> live s'" using rep(6) [OF r(1)] by blast
  then show "h a \<noteq> None" using rep(2) unfolding history_ok_def by fastforce
  show "a \<in> removed h k'" using rm f [OF r(2)] unfolding removed_def by blast
qed

end
