(* ===== verification/Collection_Runs.thy ===== *)
theory Collection_Runs
  imports Collection
begin

text \<open>
  What collection does to convergence: the system converges as long as collections wait for the deltas on
  their way, the protocol takes care of the replicas, and nothing takes care of the deltas.  Two servers
  connected to each other, \<open>A\<close> and \<open>B\<close>, are followed through the runs that show each of it.
\<close>

subsection \<open>Two servers\<close>

text \<open>The bucket answers with the first epoch, whose frontier is the first event of \<open>A\<close> and the first of \<open>B\<close>.\<close>

definition first_epoch :: EpochMetadata where
  "first_epoch = \<lparr>em_epoch = 1, em_v_stable = [(''A'', 1), (''B'', 1)], em_obsolete_dots = []\<rparr>"

abbreviation duo_env where
  "duo_env \<equiv> server_env mem_pb_enc mem_pb_dec (idle_storage first_epoch default_epoch_state) (\<lambda>s. (Inr [], s))"

definition plain_config :: GcConfig where
  "plain_config = \<lparr>gc_replica = False, observe_interval = 1,
     storage_config = \<lparr>bucket = ''b'', key_prefix = ''gc''\<rparr>, gc_replica_config = None\<rparr>"

text \<open>A server \<open>n\<close> with the one peer \<open>q\<close>, to which it has sent \<open>log\<close>.\<close>

definition server ::
  "NodeId \<Rightarrow> NodeId \<Rightarrow> string OrSet \<Rightarrow> DotVersionVector \<Rightarrow> channel \<Rightarrow> u64 \<Rightarrow> u64
     \<Rightarrow> (string OrSet, channel PushPull) CrdtEngine" where
  "server n q crdt dvv log epoch r = \<lparr>eng_node_id = n, eng_crdt_id = ''c'',
     eng_gc = \<lparr>gc_epoch = epoch, gc_config = plain_config, matrix_clock = None\<rparr>,
     eng_dissemination = \<lparr>dissemination_round = r, peer_registry = [(q, False, log)], interval = 1\<rparr>,
     eng_crdt = crdt, eng_dvv = dvv\<rparr>"

definition ask :: "NodeId \<Rightarrow> CausalContext \<Rightarrow> Envelope" where
  "ask n k = make_pull_request_envelope ''c'' n False k"

lemma server_simps [simp]:
  "eng_node_id (server n q x v log ep r) = n" "eng_crdt_id (server n q x v log ep r) = ''c''"
  "eng_crdt (server n q x v log ep r) = x" "eng_dvv (server n q x v log ep r) = v"
  "engine_registry duo_env (server n q x v log ep r) = [(q, False, log)]"
  "\<not> engine_gc_replica (server n q x v log ep r)"
  "gc_epoch (eng_gc (server n q x v log ep r)) = ep"
  by (simp_all add: server_def engine_registry_def engine_gc_replica_def plain_config_def)

lemma peer_log [simp]: "registry_get [(q, g, log)] p = (if p = q then Some (g, log) else None)"
  by (simp add: registry_get_def)

lemma gossip_one:
  "gossip log_send 0 \<lparr>dissemination_round = r, peer_registry = [(q, False, log)], interval = iv\<rparr> n ''c'' False k =
     \<lparr>dissemination_round = r + 1, peer_registry = [(q, False, log @ [ask n k])], interval = iv\<rparr>"
  by (simp add: gossip_def choose_peer_def peer_ids_def next_round_def send_envelope_def send_to_peer_def
      registry_get_def registry_insert_def log_send_def ask_def)

lemma server_operation:
  "client_operation duo_env 0 op (server n q x v log ep r) =
     server n q (apply_local x (Dot_new (node_id (dvv_dot (dvv_event v))) (counter (dvv_dot (dvv_event v)))) op)
       (dvv_event v) (log @ [ask n (effective_map (dvv_event v))]) ep (r + 1)"
  by (simp add: client_operation_def server_def Let_def push_pull_defs gossip_one or_set_crdt_def
      engine_gc_replica_def plain_config_def)

lemma server_pull:
  "do_pull duo_env 0 (server n q x v log ep r) = server n q x v (log @ [ask n (effective_map v)]) ep (r + 1)"
  by (simp add: do_pull_def server_def push_pull_defs gossip_one engine_gc_replica_def plain_config_def)

lemma server_merges:
  assumes "decode_delta decode_elem mem_pb_dec data = Inr dl"
  shows "server_delta duo_env 0 ''c'' data None (server n q x v log ep r) =
    (let v' = dvv_merge v \<lparr>dvv_dot = Dot_new (od_dot_node dl) (od_dot_counter dl), dvv_context = od_context dl\<rparr>
     in server n q (merge_delta x dl) v' (log @ [ask n (effective_map v')]) ep (r + 1))"
  using assms
  by (simp add: server_delta_def server_def push_pull_defs gossip_one or_set_crdt_def causal_context_def Let_def
      engine_gc_replica_def plain_config_def)

definition delta_from :: "string OrSet \<Rightarrow> CausalContext \<Rightarrow> DotVersionVector \<Rightarrow> bytes" where
  "delta_from x k v = encode_delta encode_elem mem_pb_enc (delta_since x k v)"

definition give :: "NodeId \<Rightarrow> bytes \<Rightarrow> Envelope" where
  "give n data = make_crdt_op_envelope ''c'' n data None None"

lemma server_answers:
  assumes "dvv_inv v" "hm_ok k" "hm_or k m 0 < effective_counter v m" "\<And>n. hm_or k n 0 \<le> effective_counter v n"
  shows "server_pull_request duo_env q ''c'' k (server n q x v log ep r) =
    server n q x v (log @ [give n (delta_from x k v)]) ep r"
proof -
  let ?eng = "server n q x v log ep r"
  have ahead: "\<exists>n. hm_or k n 0 < effective_counter v n" using assms(3) by blast
  have behind: "\<not> (\<exists>n. effective_counter v n < hm_or k n 0)" using assms(4) by (simp add: not_less)
  note answer = server_pull_request_answer [where E = duo_env and eng = ?eng and cid = "''c''" and k = k
      and from_node = q, unfolded server_simps, OF refl assms(1,2)]
  have gc: "eng_gc (server_pull_request duo_env q ''c'' k ?eng) = eng_gc ?eng"
    using answer(2) by (simp add: update_matrix_clock_def server_def plain_config_def)
  have "eng_dissemination (server_pull_request duo_env q ''c'' k ?eng) =
      eng_dissemination (server n q x v (log @ [give n (delta_from x k v)]) ep r)"
    using answer(1) ahead behind
    by (simp add: requester_collects_def server_def push_pull_defs send_envelope_def send_to_peer_def
        registry_get_def registry_insert_def log_send_def give_def delta_from_def or_set_crdt_def unwrap_or_def)
  with gc show ?thesis by (simp add: server_def)
qed

lemma server_observes:
  "ep < 1 \<Longrightarrow> handle_request duo_env 0 ObserveEpochChange (server n q x v log ep r, w) =
     (None, server n q (perform_gc x (frontier_dvv n (em_v_stable first_epoch))) v log 1 r, w)"
  by (simp add: engine_observe_epoch_change_def observe_epoch_change_def idle_storage_def gc_fields_def
      set_gc_fields_def server_def first_epoch_def or_set_env_def or_set_crdt_def return_ok_def Let_def not_le)

subsection \<open>The pair in the system\<close>

definition duo where
  "duo a b h = \<lparr>replica = (replica demo_start)(''A'' := a, ''B'' := b), history = h\<rparr>"

lemma duo_simps [simp]:
  "replica (duo a b h) ''A'' = a" "replica (duo a b h) ''B'' = b" "history (duo a b h) = h"
  "set_replica (duo a b h) ''A'' a' = duo a' b h" "set_replica (duo a b h) ''B'' b' = duo a b' h"
  "(duo a b h)\<lparr>history := h'\<rparr> = duo a b h'"
  by (simp_all add: duo_def set_replica_def fun_upd_twist)

lemma replicas_set: "history S = h \<Longrightarrow> S\<lparr>replica := f\<rparr> = \<lparr>replica = f, history = h\<rparr>"
  by (cases S) simp

text \<open>The states of the sets and clocks the runs go through.\<close>

definition with_x :: "string OrSet" where
  "with_x = \<lparr>adds = [(''x'', [Dot_new ''A'' 1])], tombstones = []\<rparr>"

definition without_x :: "string OrSet" where
  "without_x = \<lparr>adds = [], tombstones = [(Dot_new ''A'' 1, Dot_new ''B'' 1)]\<rparr>"

definition forgotten_x :: "string OrSet" where
  "forgotten_x = \<lparr>adds = [], tombstones = []\<rparr>"

definition clock :: "NodeId \<Rightarrow> Counter \<Rightarrow> CausalContext \<Rightarrow> DotVersionVector" where
  "clock n c ctx = \<lparr>dvv_dot = Dot_new n c, dvv_context = ctx\<rparr>"

definition add_delta :: "string OrSetDelta" where
  "add_delta = \<lparr>od_adds = [(''x'', Dot_new ''A'' 1)], od_tombstones = [], od_context = [(''A'', 1)],
     od_dot_node = ''A'', od_dot_counter = 1\<rparr>"

definition remove_delta :: "string OrSetDelta" where
  "remove_delta = \<lparr>od_adds = [], od_tombstones = [(Dot_new ''A'' 1, Dot_new ''B'' 1)],
     od_context = [(''A'', 1), (''B'', 1)], od_dot_node = ''B'', od_dot_counter = 1\<rparr>"

lemma set_values:
  "apply_local OrSet_new (Dot_new ''A'' 1) (Add ''x'') = with_x"
  "apply_local with_x (Dot_new ''B'' 1) (Remove ''x'') = without_x"
  "merge_delta OrSet_new add_delta = with_x" "merge_delta with_x remove_delta = without_x"
  "merge_delta forgotten_x add_delta = with_x"
  "perform_gc without_x (frontier_dvv ''A'' (em_v_stable first_epoch)) = forgotten_x"
  "perform_gc without_x (frontier_dvv ''B'' (em_v_stable first_epoch)) = forgotten_x"
  by code_simp+

lemma clock_values:
  "dvv_new n = clock n 0 []"
  "dvv_event (clock ''A'' 0 []) = clock ''A'' 1 []" "dvv_event (clock ''B'' 0 [(''A'', 1)]) = clock ''B'' 1 [(''A'', 1)]"
  "effective_map (clock ''A'' 1 []) = [(''A'', 1)]" "effective_map (clock ''B'' 0 []) = []"
  "effective_map (clock ''B'' 0 [(''A'', 1)]) = [(''A'', 1)]"
  "effective_map (clock ''B'' 1 [(''A'', 1)]) = [(''A'', 1), (''B'', 1)]"
  "dvv_merge (clock ''B'' 0 []) (clock ''A'' 1 [(''A'', 1)]) = clock ''B'' 0 [(''A'', 1)]"
  "dvv_merge (clock ''A'' 1 []) (clock ''B'' 1 [(''A'', 1), (''B'', 1)]) = clock ''A'' 1 [(''B'', 1)]"
  "dvv_merge (clock ''B'' 1 [(''A'', 1)]) (clock ''A'' 1 [(''A'', 1)]) = clock ''B'' 1 [(''A'', 1)]"
  "effective_map (clock ''A'' 1 [(''B'', 1)]) = [(''B'', 1), (''A'', 1)]"
  by code_simp+

lemma deltas_decode:
  "decode_delta decode_elem mem_pb_dec (delta_from with_x [] (clock ''A'' 1 [])) = Inr add_delta"
  "decode_delta decode_elem mem_pb_dec (delta_from without_x [(''A'', 1)] (clock ''B'' 1 [(''A'', 1)])) = Inr remove_delta"
  unfolding delta_from_def encode_delta_def decode_delta_def mem_pb_roundtrip sum.case by code_simp+

subsection \<open>The run up to the collection\<close>

text \<open>\<open>A\<close> adds an element; \<open>B\<close> pulls it and removes it; \<open>A\<close> learns of the removal.  The delta with the add
  has been sent to \<open>B\<close> once for every pull request of \<open>B\<close> that \<open>A\<close> answered in the meantime.\<close>

definition the_history :: "string set_history" where
  "the_history = [Dot_new ''A'' 1 \<mapsto> (Add ''x'', OrSet_new), Dot_new ''B'' 1 \<mapsto> (Remove ''x'', with_x)]"

abbreviation "sent_add \<equiv> delta_from with_x [] (clock ''A'' 1 [])"
abbreviation "sent_remove \<equiv> delta_from without_x [(''A'', 1)] (clock ''B'' 1 [(''A'', 1)])"

definition log_of_A :: channel where
  "log_of_A = [ask ''A'' [(''A'', 1)], give ''A'' sent_add]"

definition log_of_B :: channel where
  "log_of_B = [ask ''B'' [], ask ''B'' [(''A'', 1)], ask ''B'' [(''A'', 1), (''B'', 1)], give ''B'' sent_remove]"

definition both_know where
  "both_know = duo
     (server ''A'' ''B'' without_x (clock ''A'' 1 [(''B'', 1)]) (log_of_A @ [ask ''A'' [(''B'', 1), (''A'', 1)]]) 0 2)
     (server ''B'' ''A'' without_x (clock ''B'' 1 [(''A'', 1)]) log_of_B 0 3) the_history"

abbreviation "duo_run \<equiv> net_run duo_env string_op ''c'' OrSet_new"
abbreviation "duo_step \<equiv> net_step duo_env string_op"

lemma x_is_string: "is_String ''x''" by code_simp

lemma connected: "duo_run (duo (server ''A'' ''B'' OrSet_new (clock ''A'' 0 []) [] 0 0)
    (server ''B'' ''A'' OrSet_new (clock ''B'' 0 []) [] 0 0) (\<lambda>_. None))"
proof -
  have names: "''A'' \<noteq> ''G''" "''B'' \<noteq> ''G''" by simp_all
  let ?S = "set_replica demo_start ''A'' (server ''A'' ''B'' OrSet_new (clock ''A'' 0 []) [] 0 0)"
  have new: "(replica demo_start n)\<lparr>eng_dissemination := push_pull_new (registry_insert registry_new q False []) 1\<rparr>
      = server n q OrSet_new (clock n 0 []) [] 0 0" if "n \<noteq> ''G''" for n q
    using that by (simp add: demo_start_def engine_new_def server_def push_pull_new_def registry_insert_def
        registry_new_def coordinator_new_def plain_config_def clock_values)
  have empty: "engine_registry duo_env (replica demo_start n) = registry_new" for n
    by (simp add: engine_registry_def demo_start_def push_pull_new_def)
  have start: "duo_run demo_start"
    by (rule net_start [where d = "\<lambda>_. push_pull_new registry_new 1" and cfg = "\<lambda>i. \<lparr>gc_replica = (i = ''G''),
         observe_interval = 1, storage_config = \<lparr>bucket = ''b'', key_prefix = ''gc''\<rparr>, gc_replica_config = None\<rparr>"])
      (simp_all add: demo_start_def push_pull_new_def)
  have "duo_step demo_start (set_replica demo_start ''A'' ((replica demo_start ''A'')
      \<lparr>eng_dissemination := push_pull_new (registry_insert registry_new ''B'' False []) 1\<rparr>))"
    by (rule connect_step [where j = "''B''" and g = False]) (simp add: empty push_pull_new_def)
  then have run: "duo_run ?S" unfolding new [OF names(1)] by (rule net_next [OF start])
  have step: "duo_step ?S (set_replica ?S ''B'' ((replica ?S ''B'')
      \<lparr>eng_dissemination := push_pull_new (registry_insert registry_new ''A'' False []) 1\<rparr>))"
    by (rule connect_step [where j = "''A''" and g = False]) (simp add: empty push_pull_new_def)
  have eq: "set_replica ?S ''B'' ((replica ?S ''B'')
      \<lparr>eng_dissemination := push_pull_new (registry_insert registry_new ''A'' False []) 1\<rparr>)
      = duo (server ''A'' ''B'' OrSet_new (clock ''A'' 0 []) [] 0 0)
          (server ''B'' ''A'' OrSet_new (clock ''B'' 0 []) [] 0 0) (\<lambda>_. None)"
    using new [OF names(2), of "''A''"]
    by (simp add: duo_def set_replica_def) (rule replicas_set, simp add: demo_start_def)
  show ?thesis using net_next [OF run step] unfolding eq .
qed

lemma asked_peer: "envelope_requests (ask n k) = [DeltaRequest n ''c'' k]"
  by (simp add: ask_def)

lemma given: "envelope_requests (give n data) = [DeltaResponse n ''c'' data None]"
  unfolding give_def by (rule trans [OF envelope_requests_op]) auto

lemma A_receives:
  assumes "duo_run (duo a (server ''B'' ''A'' x v log ep r) h)" "env \<in> set log"
    and "rq \<in> set (envelope_requests env)" "fst (snd (handle_request duo_env 0 rq (a, ()))) = a'"
  shows "duo_run (duo a' (server ''B'' ''A'' x v log ep r) h)" (is "duo_run (duo _ ?b _)")
proof -
  have "duo_step (duo a ?b h) (set_replica (duo a ?b h) ''A''
      (fst (snd (handle_request duo_env 0 rq (replica (duo a ?b h) ''A'', ())))))"
    using assms(2,3) by (intro receive_step [where i = "''B''" and g = False and log = log]) simp_all
  from net_next [OF assms(1) this] show ?thesis using assms(4) by simp
qed

lemma B_receives:
  assumes "duo_run (duo (server ''A'' ''B'' x v log ep r) b h)" "env \<in> set log"
    and "rq \<in> set (envelope_requests env)" "fst (snd (handle_request duo_env 0 rq (b, ()))) = b'"
  shows "duo_run (duo (server ''A'' ''B'' x v log ep r) b' h)" (is "duo_run (duo ?a _ _)")
proof -
  have "duo_step (duo ?a b h) (set_replica (duo ?a b h) ''B''
      (fst (snd (handle_request duo_env 0 rq (replica (duo ?a b h) ''B'', ())))))"
    using assms(2,3) by (intro receive_step [where i = "''A''" and g = False and log = log]) simp_all
  from net_next [OF assms(1) this] show ?thesis using assms(4) by simp
qed

lemma A_operates:
  assumes "duo_run (duo a b h)" "string_op op" "counter (dvv_dot (eng_dvv a)) \<noteq> - 1"
    and "client_operation duo_env 0 op a = a'" "h(next_dot a \<mapsto> (op, eng_crdt a)) = h'"
  shows "duo_run (duo a' b h')"
  using net_next [OF assms(1) local_step [where op_ok = string_op and S = "duo a b h" and i = "''A''" and rng = 0,
        OF assms(2)]] assms(3-5) by simp

lemma B_operates:
  assumes "duo_run (duo a b h)" "string_op op" "counter (dvv_dot (eng_dvv b)) \<noteq> - 1"
    and "client_operation duo_env 0 op b = b'" "h(next_dot b \<mapsto> (op, eng_crdt b)) = h'"
  shows "duo_run (duo a b' h')"
  using net_next [OF assms(1) local_step [where op_ok = string_op and S = "duo a b h" and i = "''B''" and rng = 0,
        OF assms(2)]] assms(3-5) by simp

lemma B_pulls: "duo_run (duo a b h) \<Longrightarrow> do_pull duo_env 0 b = b' \<Longrightarrow> duo_run (duo a b' h)"
  using net_next [OF _ pull_step [of duo_env string_op "duo a b h" "''B''" 0]] by simp

lemma clock_parts [simp]:
  "dvv_dot (clock n c ctx) = Dot_new n c" "dvv_context (clock n c ctx) = ctx"
  "node_id (Dot_new n c) = n" "counter (Dot_new n c) = c"
  by (simp_all add: clock_def Dot_new_def)

lemma server_learns:
  "server_delta duo_env 0 ''c'' sent_add None (server n q x v log ep r) =
     server n q (merge_delta x add_delta) (dvv_merge v (clock ''A'' 1 [(''A'', 1)]))
       (log @ [ask n (effective_map (dvv_merge v (clock ''A'' 1 [(''A'', 1)])))]) ep (r + 1)"
  "server_delta duo_env 0 ''c'' sent_remove None (server n q x v log ep r) =
     server n q (merge_delta x remove_delta) (dvv_merge v (clock ''B'' 1 [(''A'', 1), (''B'', 1)]))
       (log @ [ask n (effective_map (dvv_merge v (clock ''B'' 1 [(''A'', 1), (''B'', 1)])))]) ep (r + 1)"
  by (simp_all add: server_merges deltas_decode Let_def) (simp_all add: add_delta_def remove_delta_def clock_def)

lemmas server_steps = server_operation server_pull server_learns set_values clock_values

text \<open>The answers \<open>A\<close> and \<open>B\<close> give.\<close>

lemma A_gives: "server_pull_request duo_env q ''c'' [] (server ''A'' q with_x (clock ''A'' 1 []) log ep r) =
    server ''A'' q with_x (clock ''A'' 1 []) (log @ [give ''A'' sent_add]) ep r"
  by (rule server_answers [where m = "''A''"]) (simp_all add: clock_def effective_counter_def hm_or_def dvv_inv_def)

lemma B_gives: "server_pull_request duo_env q ''c'' [(''A'', 1)] (server ''B'' q without_x (clock ''B'' 1 [(''A'', 1)]) log ep r) =
    server ''B'' q without_x (clock ''B'' 1 [(''A'', 1)]) (log @ [give ''B'' sent_remove]) ep r"
  by (rule server_answers [where m = "''B''"]) (simp_all add: clock_def effective_counter_def hm_or_def dvv_inv_def)

lemma both_know_run: "duo_run both_know"
proof -
  let ?A = "server ''A'' ''B''" and ?B = "server ''B'' ''A''"
  let ?h = "[Dot_new ''A'' 1 \<mapsto> (Add ''x'', OrSet_new)]"
  have 1: "duo_run (duo (?A with_x (clock ''A'' 1 []) [ask ''A'' [(''A'', 1)]] 0 1)
      (?B OrSet_new (clock ''B'' 0 []) [] 0 0) ?h)"
    by (rule A_operates [OF connected, of "Add ''x''"])
      (simp_all add: server_steps string_op_def x_is_string next_dot_def)
  have 2: "duo_run (duo (?A with_x (clock ''A'' 1 []) [ask ''A'' [(''A'', 1)]] 0 1)
      (?B OrSet_new (clock ''B'' 0 []) [ask ''B'' []] 0 1) ?h)"
    by (rule B_pulls [OF 1]) (simp add: server_steps)
  have 3: "duo_run (duo (?A with_x (clock ''A'' 1 []) log_of_A 0 1)
      (?B OrSet_new (clock ''B'' 0 []) [ask ''B'' []] 0 1) ?h)"
    by (rule A_receives [OF 2, of "ask ''B'' []" "DeltaRequest ''B'' ''c'' []"])
      (simp_all add: asked_peer A_gives log_of_A_def)
  have 4: "duo_run (duo (?A with_x (clock ''A'' 1 []) log_of_A 0 1)
      (?B with_x (clock ''B'' 0 [(''A'', 1)]) [ask ''B'' [], ask ''B'' [(''A'', 1)]] 0 2) ?h)"
    by (rule B_receives [OF 3, of "give ''A'' sent_add" "DeltaResponse ''A'' ''c'' sent_add None"])
      (simp_all add: given log_of_A_def server_steps)
  have 5: "duo_run (duo (?A with_x (clock ''A'' 1 []) log_of_A 0 1)
      (?B without_x (clock ''B'' 1 [(''A'', 1)])
        [ask ''B'' [], ask ''B'' [(''A'', 1)], ask ''B'' [(''A'', 1), (''B'', 1)]] 0 3) the_history)"
    by (rule B_operates [OF 4, of "Remove ''x''"])
      (simp_all add: server_steps string_op_def x_is_string next_dot_def the_history_def)
  have 6: "duo_run (duo (?A with_x (clock ''A'' 1 []) log_of_A 0 1)
      (?B without_x (clock ''B'' 1 [(''A'', 1)]) log_of_B 0 3) the_history)"
    by (rule B_receives [OF 5, of "ask ''A'' [(''A'', 1)]" "DeltaRequest ''A'' ''c'' [(''A'', 1)]"])
      (simp_all add: asked_peer log_of_A_def log_of_B_def B_gives)
  have "duo_run (duo (?A without_x (clock ''A'' 1 [(''B'', 1)]) (log_of_A @ [ask ''A'' [(''B'', 1), (''A'', 1)]]) 0 2)
      (?B without_x (clock ''B'' 1 [(''A'', 1)]) log_of_B 0 3) the_history)"
    by (rule A_receives [OF 6, of "give ''B'' sent_remove" "DeltaResponse ''B'' ''c'' sent_remove None"])
      (simp_all add: given log_of_B_def server_steps)
  then show ?thesis unfolding both_know_def .
qed

subsection \<open>Collections\<close>

abbreviation "duo_gc_run may_forget \<equiv> gc_run duo_env string_op dead may_forget ''c'' OrSet_new"

lemma A_collects:
  assumes "duo_gc_run may (duo (server ''A'' ''B'' x v log 0 r) b h, gone)"
    and "x' = perform_gc x (frontier_dvv ''A'' (em_v_stable first_epoch))"
    and "may (duo (server ''A'' ''B'' x v log 0 r) b h) (dead x - dead x')"
  shows "duo_gc_run may (duo (server ''A'' ''B'' x' v log 1 r) b h, gone \<union> (dead x - dead x'))"
proof -
  have "handle_request duo_env 0 ObserveEpochChange (server ''A'' ''B'' x v log 0 r, ()) =
      (None, server ''A'' ''B'' x' v log 1 r, ())"
    unfolding assms(2) by (rule server_observes) simp
  then have "gc_step duo_env string_op dead may (duo (server ''A'' ''B'' x v log 0 r) b h, gone)
      (set_replica (duo (server ''A'' ''B'' x v log 0 r) b h) ''A'' (server ''A'' ''B'' x' v log 1 r),
       gone \<union> (dead x - dead x'))"
    using assms(3) by (intro collect_step [where rq = ObserveEpochChange]) simp_all
  from gc_next [OF assms(1) this] show ?thesis by simp
qed

lemma B_collects:
  assumes "duo_gc_run may (duo a (server ''B'' ''A'' x v log 0 r) h, gone)"
    and "x' = perform_gc x (frontier_dvv ''B'' (em_v_stable first_epoch))"
    and "may (duo a (server ''B'' ''A'' x v log 0 r) h) (dead x - dead x')"
  shows "duo_gc_run may (duo a (server ''B'' ''A'' x' v log 1 r) h, gone \<union> (dead x - dead x'))"
proof -
  have "handle_request duo_env 0 ObserveEpochChange (server ''B'' ''A'' x v log 0 r, ()) =
      (None, server ''B'' ''A'' x' v log 1 r, ())"
    unfolding assms(2) by (rule server_observes) simp
  then have "gc_step duo_env string_op dead may (duo a (server ''B'' ''A'' x v log 0 r) h, gone)
      (set_replica (duo a (server ''B'' ''A'' x v log 0 r) h) ''B'' (server ''B'' ''A'' x' v log 1 r),
       gone \<union> (dead x - dead x'))"
    using assms(3) by (intro collect_step [where rq = ObserveEpochChange]) simp_all
  from gc_next [OF assms(1) this] show ?thesis by simp
qed

lemma drained: "(server n q x v log ep r)\<lparr>eng_dissemination :=
    \<lparr>dissemination_round = r, peer_registry = [(q, False, [])], interval = 1\<rparr>\<rparr> = server n q x v [] ep r"
  by (simp add: server_def)

lemma channels_drain:
  assumes "duo_gc_run may (duo (server ''A'' ''B'' x v log ep r) (server ''B'' ''A'' x' v' log' ep' r') h, gone)"
  shows "duo_gc_run may (duo (server ''A'' ''B'' x v [] ep r) (server ''B'' ''A'' x' v' [] ep' r') h, gone)"
proof -
  let ?S = "duo (server ''A'' ''B'' x v log ep r) (server ''B'' ''A'' x' v' log' ep' r') h"
  let ?S1 = "duo (server ''A'' ''B'' x v [] ep r) (server ''B'' ''A'' x' v' log' ep' r') h"
  have "gc_step duo_env string_op dead may (?S, gone) (set_replica ?S ''A'' ((replica ?S ''A'')\<lparr>eng_dissemination :=
      \<lparr>dissemination_round = r, peer_registry = [(''B'', False, [])], interval = 1\<rparr>\<rparr>), gone)"
    by (rule drain_step) (simp split: if_splits)
  from gc_next [OF assms this] have "duo_gc_run may (?S1, gone)" by (simp add: drained del: One_nat_def)
  moreover have "gc_step duo_env string_op dead may (?S1, gone) (set_replica ?S1 ''B'' ((replica ?S1 ''B'')\<lparr>eng_dissemination :=
      \<lparr>dissemination_round = r', peer_registry = [(''A'', False, [])], interval = 1\<rparr>\<rparr>), gone)"
    by (rule drain_step) (simp split: if_splits)
  ultimately show ?thesis by (drule_tac gc_next) (assumption, simp add: drained del: One_nat_def)
qed

lemma know_duo: "know (duo a b h) p = (if p = ''A'' then effective_counter (eng_dvv a)
    else if p = ''B'' then effective_counter (eng_dvv b) else (\<lambda>_. 0))"
  by (simp add: know_def duo_def demo_start_def fun_eq_iff)

lemma dropped: "dead without_x - dead forgotten_x = {Dot_new ''A'' 1}"
  by (simp add: dead_def without_x_def forgotten_x_def)

lemma counters [simp]:
  "effective_counter (clock ''A'' 1 [(''B'', 1)]) n = (if n = ''A'' \<or> n = ''B'' then 1 else 0)"
  "effective_counter (clock ''B'' 1 [(''A'', 1)]) n = (if n = ''A'' \<or> n = ''B'' then 1 else 0)"
  by (simp_all add: effective_counter_def clock_def Let_def hm_or_def)

definition everyone_settled :: "(string OrSet, string OrSetOp, 'd) system \<Rightarrow> Dot set \<Rightarrow> bool" where
  "everyone_settled S dropped \<longleftrightarrow> (\<forall>p. settled (history S) dropped (know S p))"

lemma duo_settled:
  assumes "eng_dvv a = clock ''A'' 1 [(''B'', 1)]" "eng_dvv b = clock ''B'' 1 [(''A'', 1)]"
  shows "everyone_settled (duo a b the_history) {Dot_new ''A'' 1}"
proof -
  have "Dot_new ''A'' 1 \<in> removed the_history k" if "1 \<le> k ''B''" for k
    using that unfolding removed_def the_history_def known_def
    by (auto intro!: exI [of _ "Dot_new ''B'' 1"] exI [of _ "''x''"] simp: with_x_def live_def Dot_new_def)
  then show ?thesis
    by (auto simp: everyone_settled_def settled_def know_duo assms known_def) (simp_all add: the_history_def)
qed

text \<open>Both servers forget the removal; then the delta with the add arrives at \<open>B\<close> once more.\<close>

definition divided where
  "divided = duo
     (server ''A'' ''B'' forgotten_x (clock ''A'' 1 [(''B'', 1)]) (log_of_A @ [ask ''A'' [(''B'', 1), (''A'', 1)]]) 1 2)
     (server ''B'' ''A'' with_x (clock ''B'' 1 [(''A'', 1)]) (log_of_B @ [ask ''B'' [(''A'', 1), (''B'', 1)]]) 1 4) the_history"

lemma divided_run: "duo_gc_run everyone_settled (divided, {Dot_new ''A'' 1})"
proof -
  let ?A = "server ''A'' ''B''" and ?B = "server ''B'' ''A''"
  let ?vA = "clock ''A'' 1 [(''B'', 1)]" and ?vB = "clock ''B'' 1 [(''A'', 1)]"
  let ?log = "log_of_A @ [ask ''A'' [(''B'', 1), (''A'', 1)]]"
  have 1: "duo_gc_run everyone_settled (duo (?A without_x ?vA ?log 0 2) (?B without_x ?vB log_of_B 0 3) the_history, {})"
    using gc_start [OF both_know_run] unfolding both_know_def .
  have 2: "duo_gc_run everyone_settled (duo (?A forgotten_x ?vA ?log 1 2) (?B without_x ?vB log_of_B 0 3) the_history,
      {} \<union> (dead without_x - dead forgotten_x))"
    by (rule A_collects [OF 1]) (simp_all add: set_values dropped duo_settled del: Un_insert_right)
  have 3: "duo_gc_run everyone_settled (duo (?A forgotten_x ?vA ?log 1 2) (?B forgotten_x ?vB log_of_B 1 3) the_history,
      {} \<union> (dead without_x - dead forgotten_x) \<union> (dead without_x - dead forgotten_x))"
    by (rule B_collects [OF 2]) (simp_all add: set_values dropped duo_settled)
  have "net_step duo_env string_op (duo (?A forgotten_x ?vA ?log 1 2) (?B forgotten_x ?vB log_of_B 1 3) the_history)
      (set_replica (duo (?A forgotten_x ?vA ?log 1 2) (?B forgotten_x ?vB log_of_B 1 3) the_history) ''B''
        (fst (snd (handle_request duo_env 0 (DeltaResponse ''A'' ''c'' sent_add None)
          (replica (duo (?A forgotten_x ?vA ?log 1 2) (?B forgotten_x ?vB log_of_B 1 3) the_history) ''B'', ())))))"
    by (rule receive_step [where i = "''A''" and g = False and log = ?log and env = "give ''A'' sent_add"])
      (simp_all add: given log_of_A_def)
  from gc_next [OF 3 replicate_step [OF this]] show ?thesis
    by (simp add: divided_def server_steps dropped)
qed

text \<open>The run with the channels drained before \<open>B\<close> collects.\<close>

definition caught_up where
  "caught_up = duo (server ''A'' ''B'' without_x (clock ''A'' 1 [(''B'', 1)]) [] 0 2)
     (server ''B'' ''A'' forgotten_x (clock ''B'' 1 [(''A'', 1)]) [] 1 3) the_history"

lemma nothing_in_flight:
  "\<not> in_flight duo_env (duo (server ''A'' ''B'' x v [] ep r) (server ''B'' ''A'' x' v' [] ep' r') h) dl"
  unfolding in_flight_def
  by (auto simp: duo_def engine_registry_def demo_start_def push_pull_new_def server_def split: if_splits)

lemma caught_up_run: "duo_gc_run (quiet duo_env settled) (caught_up, {Dot_new ''A'' 1})"
proof -
  let ?A = "server ''A'' ''B''" and ?B = "server ''B'' ''A''"
  let ?vA = "clock ''A'' 1 [(''B'', 1)]" and ?vB = "clock ''B'' 1 [(''A'', 1)]"
  have 1: "duo_gc_run (quiet duo_env settled) (duo (?A without_x ?vA [] 0 2) (?B without_x ?vB [] 0 3) the_history, {})"
    by (rule channels_drain) (rule gc_start [OF both_know_run, unfolded both_know_def])
  have quiet: "quiet duo_env settled (duo (?A without_x ?vA [] 0 2) (?B without_x ?vB [] 0 3) the_history)
      {Dot_new ''A'' 1}"
    using duo_settled nothing_in_flight unfolding quiet_def everyone_settled_def by simp
  have "duo_gc_run (quiet duo_env settled) (duo (?A without_x ?vA [] 0 2) (?B forgotten_x ?vB [] 1 3) the_history,
      {} \<union> (dead without_x - dead forgotten_x))"
    by (rule B_collects [OF 1]) (use quiet in \<open>simp_all only: set_values dropped\<close>)
  then show ?thesis by (simp add: caught_up_def dropped)
qed

subsection \<open>Properties\<close>





text \<open>C14.  What a late delta does.  When replicas wait only until every replica that knows an add knows its
  removal, and not for the deltas on their way, two servers can end with the same knowledge and
  different sets, and nothing they send each other repairs it: \<open>A\<close> adds an element, \<open>B\<close> pulls and removes it,
  \<open>A\<close> learns of that, both collect, and an answer of \<open>A\<close> to an earlier pull request still reaches \<open>B\<close>.
  The engine merges it by tombstones alone, which are gone.\<close>

theorem late_delta_divides:
  "gc_run duo_env string_op dead everyone_settled ''c'' OrSet_new (divided, {Dot_new ''A'' 1}) \<and>
   know divided ''A'' = know divided ''B'' \<and> \<not> observed_remove (history divided) (know divided ''B'') ''x'' \<and>
   \<not> contains (eng_crdt (replica divided ''A'')) ''x'' \<and> contains (eng_crdt (replica divided ''B'')) ''x'' \<and>
   (let d = delta_since (eng_crdt (replica divided ''B'')) (effective_map (eng_dvv (replica divided ''A'')))
              (eng_dvv (replica divided ''B'')) in od_adds d = [] \<and> od_tombstones d = []) \<and>
   (let d = delta_since (eng_crdt (replica divided ''A'')) (effective_map (eng_dvv (replica divided ''B'')))
              (eng_dvv (replica divided ''A'')) in od_adds d = [] \<and> od_tombstones d = [])"
proof (intro conjI)
  show "know divided ''A'' = know divided ''B''" by (simp add: divided_def know_duo fun_eq_iff)
  have "everyone_settled divided {Dot_new ''A'' 1}" by (simp add: divided_def duo_settled)
  moreover have "known (know divided ''B'') (Dot_new ''A'' 1)" by (simp add: divided_def know_duo known_def)
  ultimately have "Dot_new ''A'' 1 \<in> removed (history divided) (know divided ''B'')"
    unfolding everyone_settled_def settled_def by blast
  then show "\<not> observed_remove (history divided) (know divided ''B'') ''x''"
    by (auto simp: observed_remove_def added_def divided_def the_history_def split: if_splits)
  show "\<not> contains (eng_crdt (replica divided ''A'')) ''x''" "contains (eng_crdt (replica divided ''B'')) ''x''"
    by (simp_all add: divided_def) code_simp+
  show "let d = delta_since (eng_crdt (replica divided ''B'')) (effective_map (eng_dvv (replica divided ''A'')))
      (eng_dvv (replica divided ''B'')) in od_adds d = [] \<and> od_tombstones d = []"
    "let d = delta_since (eng_crdt (replica divided ''A'')) (effective_map (eng_dvv (replica divided ''B'')))
      (eng_dvv (replica divided ''A'')) in od_adds d = [] \<and> od_tombstones d = []"
    by (simp_all add: divided_def del: clock_parts) code_simp+
qed (rule divided_run)

end
