(* ===== verification/Framing.thy ===== *)
theory Framing
  imports Wire
begin

text \<open>
  Length-prefixed framing of \<^verbatim>\<open>src/network/protocol.rs\<close>, with the errors of
  \<^verbatim>\<open>src/common/error.rs\<close>, and the same framing (without the cap) used between the command-line
  client and the server in \<^verbatim>\<open>src/client/crdt_client.rs\<close>.

  A reader is the list of bytes still to arrive before end of file; a writer is the list of bytes
  written.  The protobuf encoder and decoder are arguments.  The locale \<open>framing\<close> is the contract
  of a frame format; its lemma \<open>read_frames_written\<close> (a written sequence of messages is read back)
  is proved once and used by both formats.
\<close>

unbundle bit_operations_syntax

subsection \<open>Bytes and streams\<close>

datatype IoErrorKind = UnexpectedEof | InvalidData | OtherIo

datatype NetError =
    Io IoErrorKind
  | Decode
  | Encode
  | ConnectionClosed string
  | HandshakeFailed string string

definition u32_to_be_bytes :: "u32 \<Rightarrow> bytes" where
  "u32_to_be_bytes w = [ucast (drop_bit 24 w), ucast (drop_bit 16 w), ucast (drop_bit 8 w), ucast w]"

definition u32_from_be_bytes :: "bytes \<Rightarrow> u32" where
  "u32_from_be_bytes bs = foldl (\<lambda>acc b. push_bit 8 acc OR ucast b) 0 bs"

definition read_exact :: "nat \<Rightarrow> bytes \<Rightarrow> (IoErrorKind, bytes \<times> bytes) result" where
  "read_exact n stream =
     (if length stream < n then Inl UnexpectedEof else Inr (take n stream, drop n stream))"

subsection \<open>The frames between replicas\<close>

definition MAX_FRAME_LEN :: u32 where
  "MAX_FRAME_LEN = 16 * 1024 * 1024"

definition write_envelope :: "('m \<Rightarrow> bytes) \<Rightarrow> 'm \<Rightarrow> bytes" where
  "write_envelope enc m =
     (let body = enc m; len = length body
      in u32_to_be_bytes (word_of_nat len) @ body)"

definition read_envelope ::
  "(bytes \<Rightarrow> 'm option) \<Rightarrow> bytes \<Rightarrow> (NetError, 'm option \<times> bytes) result" where
  "read_envelope dec stream =
     (case read_exact 4 stream of
        Inl UnexpectedEof \<Rightarrow> Inr (None, [])
      | Inl e \<Rightarrow> Inl (Io e)
      | Inr (len_buf, stream1) \<Rightarrow>
          let len = u32_from_be_bytes len_buf in
          if len > MAX_FRAME_LEN then Inl (Io InvalidData)
          else (case read_exact (unat len) stream1 of
              Inl e \<Rightarrow> Inl (Io e)
            | Inr (body, stream2) \<Rightarrow> (case dec body of
                  None \<Rightarrow> Inl Decode
                | Some m \<Rightarrow> Inr (Some m, stream2))))"

subsection \<open>The frames between client and server\<close>

definition send_command :: "(ProtoClientCommand \<Rightarrow> bytes) \<Rightarrow> Command \<Rightarrow> bytes" where
  "send_command enc c =
     (let body = enc \<lparr>command = Some c\<rparr>; len = word_of_nat (length body) :: u32
      in u32_to_be_bytes len @ body)"

definition recv_response :: "bytes \<Rightarrow> (IoErrorKind, bytes \<times> bytes) result" where
  "recv_response stream =
     (case read_exact 4 stream of
        Inl e \<Rightarrow> Inl e
      | Inr (len_buf, stream1) \<Rightarrow>
          let resp_len = unat (u32_from_be_bytes len_buf) in read_exact resp_len stream1)"

text \<open>The server's half of the same format: a command is read until the connection ends or breaks
  (\<open>None\<close>), and a reply is written back.\<close>

definition read_client_message :: "bytes \<Rightarrow> (bytes \<times> bytes) option" where
  "read_client_message stream =
     (case read_exact 4 stream of
        Inl _ \<Rightarrow> None
      | Inr (len_buf, stream1) \<Rightarrow>
          let msg_len = unat (u32_from_be_bytes len_buf) in
          (case read_exact msg_len stream1 of
             Inl _ \<Rightarrow> None
           | Inr (msg_buf, stream2) \<Rightarrow> Some (msg_buf, stream2)))"

definition write_response :: "bytes \<Rightarrow> bytes" where
  "write_response resp_bytes =
     (let resp_len = word_of_nat (length resp_bytes) :: u32
      in u32_to_be_bytes resp_len @ resp_bytes)"

subsection \<open>Facts about the format\<close>

lemma length_u32_to_be [simp]: "length (u32_to_be_bytes w) = 4"
  by (simp add: u32_to_be_bytes_def)

lemma u32_be_roundtrip [simp]: "u32_from_be_bytes (u32_to_be_bytes w) = w"
proof (rule bit_word_eqI)
  fix n
  assume "n < LENGTH(32)"
  then have n: "n < 32" by simp
  consider "n < 8" | k where "n = 8 + k" "k < 8" | k where "n = 16 + k" "k < 8"
    | k where "n = 24 + k" "k < 8"
  proof -
    have "n = 8 + (n - 8) \<and> n - 8 < 8" if "8 \<le> n" "n < 16" using that by simp
    moreover have "n = 16 + (n - 16) \<and> n - 16 < 8" if "16 \<le> n" "n < 24" using that by simp
    moreover have "n = 24 + (n - 24) \<and> n - 24 < 8" if "24 \<le> n" using that n by simp
    ultimately show ?thesis using that by (metis not_less)
  qed
  then show "bit (u32_from_be_bytes (u32_to_be_bytes w)) n = bit w n"
    by cases (auto simp: u32_from_be_bytes_def u32_to_be_bytes_def bit_simps)
qed

lemma u32_be_inverse [simp]:
  assumes "length bs = 4"
  shows "u32_to_be_bytes (u32_from_be_bytes bs) = bs"
proof -
  obtain a b c d :: u8 where bs: "bs = [a, b, c, d]"
    using assms by (auto simp: length_Suc_conv eval_nat_numeral)
  have high: "\<not> bit (x :: u8) (8 + n)" "\<not> bit (x :: u8) (16 + n)" "\<not> bit (x :: u8) (24 + n)" for x n
    using bit_imp_le_length [of x] by fastforce+
  show ?thesis
    unfolding bs u32_to_be_bytes_def u32_from_be_bytes_def
    by (auto intro!: bit_word_eqI simp: bit_simps high)
qed

lemma read_exact_append [simp]: "n = length xs \<Longrightarrow> read_exact n (xs @ ys) = Inr (xs, ys)"
  by (simp add: read_exact_def)

lemma read_exact_short: "length s < n \<Longrightarrow> read_exact n s = Inl UnexpectedEof"
  by (simp add: read_exact_def)

lemma read_exact_InrD: "read_exact n s = Inr (xs, ys) \<Longrightarrow> s = xs @ ys \<and> length xs = n"
  by (auto simp: read_exact_def split: if_splits)

lemma read_exact_Inl_iff: "read_exact n s = Inl e \<longleftrightarrow> length s < n \<and> e = UnexpectedEof"
  by (auto simp: read_exact_def)

lemma unat_u32_length: "length (xs :: 'a list) < 2 ^ 32 \<Longrightarrow> unat (word_of_nat (length xs) :: u32) = length xs"
  by (simp add: unsigned_of_nat take_bit_eq_mod)

lemma frame_len_le:
  assumes "length xs < 2 ^ 32"
  shows "MAX_FRAME_LEN < (word_of_nat (length xs) :: u32) \<longleftrightarrow> 2 ^ 24 < length xs"
  using unat_u32_length [OF assms] by (simp add: word_less_nat_alt MAX_FRAME_LEN_def)

lemma read_envelope_consumes:
  "read_envelope dec s = Inr (Some m, s') \<Longrightarrow> length s' < length s"
  by (auto simp: read_envelope_def Let_def split: sum.splits prod.splits IoErrorKind.splits if_splits
        option.splits dest!: read_exact_InrD)

subsection \<open>The contract of a frame format\<close>

fun read_frames :: "(bytes \<Rightarrow> ('m \<times> bytes) option) \<Rightarrow> nat \<Rightarrow> bytes \<Rightarrow> 'm list \<times> bytes" where
  "read_frames unframe 0 s = ([], s)"
| "read_frames unframe (Suc n) s =
     (case unframe s of
        None \<Rightarrow> ([], s)
      | Some (m, s') \<Rightarrow> (case read_frames unframe n s' of (ms, s'') \<Rightarrow> (m # ms, s'')))"

locale framing =
  fixes frame :: "'m \<Rightarrow> bytes"
    and unframe :: "bytes \<Rightarrow> ('m \<times> bytes) option"
    and fits :: "'m \<Rightarrow> bool"
  assumes unframe_frame: "fits m \<Longrightarrow> unframe (frame m @ rest) = Some (m, rest)"
begin

lemma frames_read_back:
  "(\<And>m. m \<in> set ms \<Longrightarrow> fits m) \<Longrightarrow>
   read_frames unframe (length ms) (concat (map frame ms) @ rest) = (ms, rest)"
  by (induction ms) (auto simp: unframe_frame)

lemma frame_self_delimiting:
  "fits m \<Longrightarrow> fits m' \<Longrightarrow> frame m @ r = frame m' @ r' \<Longrightarrow> m = m' \<and> r = r'"
  using unframe_frame by (metis option.inject prod.inject)

end

definition envelope_fits :: "('m \<Rightarrow> bytes) \<Rightarrow> (bytes \<Rightarrow> 'm option) \<Rightarrow> 'm \<Rightarrow> bool" where
  "envelope_fits enc dec m \<longleftrightarrow> dec (enc m) = Some m \<and> length (enc m) \<le> 2 ^ 24"

definition next_envelope :: "(bytes \<Rightarrow> 'm option) \<Rightarrow> bytes \<Rightarrow> ('m \<times> bytes) option" where
  "next_envelope dec s = (case read_envelope dec s of Inr (Some m, s') \<Rightarrow> Some (m, s') | _ \<Rightarrow> None)"

lemma read_envelope_write:
  assumes "envelope_fits enc dec m"
  shows "read_envelope dec (write_envelope enc m @ rest) = Inr (Some m, rest)"
proof -
  have len: "length (enc m) \<le> 2 ^ 24" and dec: "dec (enc m) = Some m"
    using assms by (simp_all add: envelope_fits_def)
  then have "length (enc m) < 2 ^ 32" by simp
  from unat_u32_length [OF this] frame_len_le [OF this] len dec show ?thesis
    by (simp add: read_envelope_def write_envelope_def Let_def)
qed

interpretation peer_frames: framing "write_envelope enc" "next_envelope dec" "envelope_fits enc dec"
  for enc :: "'m \<Rightarrow> bytes" and dec
  by unfold_locales (simp add: next_envelope_def read_envelope_write)

interpretation client_frames: framing write_response read_client_message "\<lambda>m. length m < 2 ^ 32"
  by unfold_locales (simp add: write_response_def read_client_message_def Let_def unat_u32_length)

lemma send_command_frame: "send_command enc c = write_response (enc \<lparr>command = Some c\<rparr>)"
  by (simp add: send_command_def write_response_def Let_def)

lemma recv_response_write:
  "length r < 2 ^ 32 \<Longrightarrow> recv_response (write_response r @ rest) = Inr (r, rest)"
  by (simp add: recv_response_def write_response_def Let_def unat_u32_length)

subsection \<open>Properties\<close>

text \<open>C35.  The frame format between replicas is self-delimiting: any sequence of envelopes whose
  encoding is at most 16 MiB, written back to back, is read back one by one, in order and without
  touching the bytes that follow.  An envelope whose encoding is longer than the cap (but has a
  32-bit length) is written all the same and refused by the reader, so the cap is enforced by one
  side only.\<close>
theorem envelope_frames:
  assumes ok: "\<And>m. m \<in> set ms \<Longrightarrow> dec (enc m) = Some m \<and> length (enc m) \<le> 2 ^ 24"
    and big: "2 ^ 24 < length (enc b)" "length (enc b) < 2 ^ 32"
  shows "read_frames (next_envelope dec) (length ms) (concat (map (write_envelope enc) ms) @ rest)
           = (ms, rest) \<and>
         read_envelope dec (write_envelope enc b @ rest) = Inl (Io InvalidData)"
proof
  show "read_frames (next_envelope dec) (length ms) (concat (map (write_envelope enc) ms) @ rest)
      = (ms, rest)"
    using ok by (intro peer_frames.frames_read_back) (auto simp: envelope_fits_def)
  show "read_envelope dec (write_envelope enc b @ rest) = Inl (Io InvalidData)"
    using big frame_len_le [OF big(2)]
    by (simp add: read_envelope_def write_envelope_def Let_def)
qed

theorem envelope_frames_witness:
  "read_frames (next_envelope (\<lambda>bs. Some (length bs))) (length [3, 1 :: nat])
     (concat (map (write_envelope (\<lambda>n. replicate n 7)) [3, 1]) @ [9]) = ([3, 1], [9]) \<and>
   read_envelope (\<lambda>bs. Some (length bs)) (write_envelope (\<lambda>n. replicate n 7) (2 ^ 24 + 1) @ [9])
     = Inl (Io InvalidData)"
  by (rule envelope_frames) (auto simp del: replicate.simps)

text \<open>How an envelope reader ends.  It reports the end of the connection (\<open>Ok(None)\<close>) exactly
  when fewer than four bytes are left, so a length prefix cut in the middle is reported as a clean
  end of file as well; a body that is cut short is an I/O error and a body that does not decode is a
  decode error; in every case a delivered envelope was decoded from exactly the bytes its prefix
  announced.\<close>
theorem read_envelope_outcomes:
  "(read_envelope dec s = Inr (None, s') \<longleftrightarrow> length s < 4 \<and> s' = []) \<and>
   (read_envelope dec s = Inr (Some m, s') \<longleftrightarrow>
      (\<exists>body. s = u32_to_be_bytes (word_of_nat (length body)) @ body @ s' \<and>
         length body \<le> 2 ^ 24 \<and> dec body = Some m))"
proof
  show "read_envelope dec s = Inr (None, s') \<longleftrightarrow> length s < 4 \<and> s' = []"
    by (auto simp: read_envelope_def Let_def read_exact_Inl_iff
        split: sum.splits prod.splits IoErrorKind.splits if_splits option.splits
        dest!: read_exact_InrD)
  show "read_envelope dec s = Inr (Some m, s') \<longleftrightarrow>
      (\<exists>body. s = u32_to_be_bytes (word_of_nat (length body)) @ body @ s' \<and>
         length body \<le> 2 ^ 24 \<and> dec body = Some m)" (is "?L \<longleftrightarrow> ?R")
  proof
    assume ?L
    then obtain pre s1 body where pre: "read_exact 4 s = Inr (pre, s1)"
      and body: "read_exact (unat (u32_from_be_bytes pre)) s1 = Inr (body, s')"
      and cap: "\<not> MAX_FRAME_LEN < u32_from_be_bytes pre" and dec: "dec body = Some m"
      by (auto simp: read_envelope_def Let_def
          split: sum.splits prod.splits IoErrorKind.splits if_splits option.splits)
    from read_exact_InrD [OF pre] read_exact_InrD [OF body] cap dec
    show ?R
      by (auto simp: word_less_nat_alt MAX_FRAME_LEN_def intro!: exI [of _ body])
  next
    assume ?R
    then obtain body where s: "s = u32_to_be_bytes (word_of_nat (length body)) @ body @ s'"
      and len: "length body \<le> 2 ^ 24" and dec: "dec body = Some m" by blast
    from len have "length body < 2 ^ 32" by simp
    from unat_u32_length [OF this] frame_len_le [OF this] s len dec show ?L
      by (simp add: read_envelope_def Let_def)
  qed
qed

text \<open>The frames between client and server: whatever the client sends is what the server
  takes off the stream, any sequence of such messages is taken off in order, and the reply the
  server writes is what the client receives, for messages and replies shorter than 4 GiB; the
  server sees no message exactly when the stream ends before the announced length.\<close>
theorem client_stream_roundtrip:
  assumes "\<And>c. c \<in> set cs \<Longrightarrow> length (enc \<lparr>command = Some c\<rparr>) < 2 ^ 32"
    and "length reply < 2 ^ 32"
  shows "read_frames read_client_message (length cs) (concat (map (send_command enc) cs) @ rest)
           = (map (\<lambda>c. enc \<lparr>command = Some c\<rparr>) cs, rest) \<and>
         recv_response (write_response reply @ rest) = Inr (reply, rest)"
proof
  have "concat (map (send_command enc) cs)
      = concat (map write_response (map (\<lambda>c. enc \<lparr>command = Some c\<rparr>) cs))"
    by (induction cs) (simp_all add: send_command_frame)
  with client_frames.frames_read_back [of "map (\<lambda>c. enc \<lparr>command = Some c\<rparr>) cs" rest] assms(1)
  show "read_frames read_client_message (length cs) (concat (map (send_command enc) cs) @ rest)
      = (map (\<lambda>c. enc \<lparr>command = Some c\<rparr>) cs, rest)"
    by fastforce
qed (rule recv_response_write [OF assms(2)])

theorem client_stream_roundtrip_witness:
  "read_frames read_client_message (length [CmdPrintState True, CmdPrintMatrix True])
     (concat (map (send_command (\<lambda>_. [1, 2])) [CmdPrintState True, CmdPrintMatrix True]) @ [9])
     = (map (\<lambda>c. (\<lambda>_. [1, 2]) \<lparr>command = Some c\<rparr>) [CmdPrintState True, CmdPrintMatrix True], [9]) \<and>
   recv_response (write_response [5] @ [9]) = Inr ([5], [9])"
  by (rule client_stream_roundtrip) auto

end
