(* ===== verification/Connection.thy ===== *)
theory Connection
  imports Peer_Messages Framing
begin

text \<open>
  A connection between two replicas: \<^verbatim>\<open>src/network/tcp_connection.rs\<close> and its stand-in in
  experiments, \<^verbatim>\<open>src/network/simulated.rs\<close>.

  The read half of a socket is the list of bytes still to arrive before its end; the write half is a
  value of type \<open>'w\<close> with a \<^verbatim>\<open>write_all\<close> that may fail.  A socket address is its text.  The
  channel to the application and the channel of a peer are values of type parameters, as in the registry.
  A connection runs two tasks: the reader, here \<open>reader_loop\<close>, and the writer, \<open>writer_loop\<close>, which
  drains the peer's channel.  Durations are in seconds.
\<close>

named_theorems conn_simps \<open>the ends of a connection\<close>

subsection \<open>The handshake\<close>

type_synonym 'w write_all = "bytes \<Rightarrow> ('w, IoErrorKind, unit) call"

text \<open>What a connection is given: the protobuf codec of an envelope, the \<^verbatim>\<open>Debug\<close> text of a payload,
  the socket's \<^verbatim>\<open>set_nodelay\<close> and \<^verbatim>\<open>write_all\<close>, and \<^verbatim>\<open>app_tx.send\<close>.\<close>

record ('w, 'q, 'e) connection_env =
  cn_encode :: "Envelope \<Rightarrow> bytes"
  cn_decode :: "bytes \<Rightarrow> Envelope option"
  cn_show_payload :: "Payload option \<Rightarrow> string"
  cn_set_nodelay :: "('w, IoErrorKind, unit) call"
  cn_write_all :: "'w write_all"
  cn_app_send :: "('q, 'e) try_send"

definition write_to :: "('w, 'q, 'e) connection_env \<Rightarrow> Envelope \<Rightarrow> ('w, NetError, unit) call" where
  "write_to E envelope w =
     (case cn_write_all E (write_envelope (cn_encode E) envelope) w of
        (Inl e, w') \<Rightarrow> (Inl (Io e), w')
      | (Inr _, w') \<Rightarrow> (Inr (), w'))"

definition handshake_envelope :: "NodeId \<Rightarrow> string \<Rightarrow> bool \<Rightarrow> Envelope" where
  "handshake_envelope local_node_id local_node_name gc_flag =
     \<lparr>payload = Some (PHandshake
        \<lparr>hs_node_id = local_node_id, hs_node_name = local_node_name, hs_version = 1, hs_gc_replica = gc_flag\<rparr>)\<rparr>"

definition receive_handshake ::
  "('w, 'q, 'e) connection_env \<Rightarrow> string \<Rightarrow> bytes \<Rightarrow> (NetError, (NodeId \<times> bool) \<times> bytes) result" where
  "receive_handshake E addr stream =
     (case read_envelope (cn_decode E) stream of
        Inl e \<Rightarrow> Inl e
      | Inr (None, _) \<Rightarrow> Inl (HandshakeFailed addr ''EOF before handshake'')
      | Inr (Some envelope, rest) \<Rightarrow> (case payload envelope of
            Some (PHandshake hs) \<Rightarrow>
              if hs_version hs \<noteq> 1
              then Inl (HandshakeFailed addr (''unsupported version '' @ show_nat (unat (hs_version hs))))
              else Inr ((hs_node_id hs, hs_gc_replica hs), rest)
          | other \<Rightarrow> Inl (HandshakeFailed addr (''expected Handshake, got '' @ cn_show_payload E other))))"

definition handshake ::
  "('w, 'q, 'e) connection_env \<Rightarrow> NodeId \<Rightarrow> string \<Rightarrow> bool \<Rightarrow> string \<Rightarrow> bool \<Rightarrow> bytes
     \<Rightarrow> ('w, NetError, (NodeId \<times> bool) \<times> bytes) call" where
  "handshake E local_node_id local_node_name gc_flag addr initiator stream w =
     (let hs = handshake_envelope local_node_id local_node_name gc_flag in
      if initiator
      then (case write_to E hs w of
          (Inl e, w1) \<Rightarrow> (Inl e, w1)
        | (Inr _, w1) \<Rightarrow> (receive_handshake E addr stream, w1))
      else (case receive_handshake E addr stream of
          Inl e \<Rightarrow> (Inl e, w)
        | Inr remote \<Rightarrow> (case write_to E hs w of
            (Inl e, w1) \<Rightarrow> (Inl e, w1)
          | (Inr _, w1) \<Rightarrow> (Inr remote, w1))))"

subsection \<open>The two tasks\<close>

definition dispatch :: "('w, 'q, 'e) connection_env \<Rightarrow> Envelope \<Rightarrow> 'q \<Rightarrow> 'q" where
  "dispatch E envelope app_tx =
     (case payload envelope of
        Some (PCrdtOp _) \<Rightarrow> (case cn_app_send E app_tx envelope of Inl _ \<Rightarrow> app_tx | Inr app_tx' \<Rightarrow> app_tx')
      | Some (PCrdtPullRequest _) \<Rightarrow> (case cn_app_send E app_tx envelope of Inl _ \<Rightarrow> app_tx | Inr app_tx' \<Rightarrow> app_tx')
      | Some (PHandshake _) \<Rightarrow> (case cn_app_send E app_tx envelope of Inl _ \<Rightarrow> app_tx | Inr app_tx' \<Rightarrow> app_tx')
      | None \<Rightarrow> app_tx)"

function reader_loop ::
  "('w, 'q, 'e) connection_env \<Rightarrow> string \<Rightarrow> bytes \<Rightarrow> ('q, NetError, unit) call" where
  "reader_loop E addr stream app_tx =
     (case read_envelope (cn_decode E) stream of
        Inl e \<Rightarrow> (Inl e, app_tx)
      | Inr (Some env, rest) \<Rightarrow> reader_loop E addr rest (dispatch E env app_tx)
      | Inr (None, _) \<Rightarrow> (Inl (ConnectionClosed addr), app_tx))"
  by pat_completeness auto
termination
  by (relation "measure (\<lambda>(E, addr, stream, app_tx). length stream)")
    (auto intro: read_envelope_consumes)

declare reader_loop.simps [simp del]

fun writer_loop :: "('w, 'q, 'e) connection_env \<Rightarrow> Envelope list \<Rightarrow> 'w \<Rightarrow> 'w" where
  "writer_loop E [] w = w"
| "writer_loop E (envelope # rx) w =
     (case write_to E envelope w of
        (Inl _, w1) \<Rightarrow> w1
      | (Inr _, w1) \<Rightarrow> writer_loop E rx w1)"

subsection \<open>A connection from start to end\<close>

text \<open>The channel \<open>tx\<close> is the new one the writer drains.  Between the handshake and the end other tasks
  use the registry too; here only what the connection does to it.\<close>

definition run_connection ::
  "('w, 'q, 'e) connection_env \<Rightarrow> bytes \<Rightarrow> string \<Rightarrow> NodeId \<Rightarrow> string \<Rightarrow> bool \<Rightarrow> bool \<Rightarrow> 'h
     \<Rightarrow> ('h PeerRegistry \<times> 'q \<times> 'w, NetError, NodeId) call" where
  "run_connection E stream addr local_node_id local_node_name gc_flag initiator tx = (\<lambda>(registry, app_tx, w).
     (case cn_set_nodelay E w of
        (Inl e, w1) \<Rightarrow> (Inl (Io e), (registry, app_tx, w1))
      | (Inr _, w1) \<Rightarrow>
     (case handshake E local_node_id local_node_name gc_flag addr initiator stream w1 of
        (Inl e, w2) \<Rightarrow> (Inl e, (registry, app_tx, w2))
      | (Inr ((remote_node_id, remote_gc_replica), stream'), w2) \<Rightarrow>
          let registry' = registry_insert registry remote_node_id remote_gc_replica tx in
          (case reader_loop E addr stream' app_tx of
             (Inr _, app_tx') \<Rightarrow> (Inr remote_node_id, (registry', app_tx', w2))
           | (Inl e, app_tx') \<Rightarrow> (Inl e, (registry', app_tx', w2))))))"

text \<open>An accepted stream; the outcome is only logged.\<close>

definition handle_inbound ::
  "('w, 'q, 'e) connection_env \<Rightarrow> bytes \<Rightarrow> string \<Rightarrow> NodeId \<Rightarrow> string \<Rightarrow> bool \<Rightarrow> 'h
     \<Rightarrow> 'h PeerRegistry \<times> 'q \<times> 'w \<Rightarrow> 'h PeerRegistry \<times> 'q \<times> 'w" where
  "handle_inbound E stream remote_addr local_node_id local_node_name gc_flag tx st =
     snd (run_connection E stream remote_addr local_node_id local_node_name gc_flag False tx st)"

definition handle_accepted_connection ::
  "('w, 'q, 'e) connection_env \<Rightarrow> NodeId \<Rightarrow> string \<Rightarrow> bool \<Rightarrow> 'h \<Rightarrow> (IoErrorKind, (bytes \<times> 'w) \<times> string) result
     \<Rightarrow> 'h PeerRegistry \<times> 'q \<Rightarrow> 'h PeerRegistry \<times> 'q" where
  "handle_accepted_connection E nid node_name gc_flag tx accept_result = (\<lambda>(registry, app_tx).
     (case accept_result of
        Inr ((stream, w), remote_addr) \<Rightarrow>
          (case handle_inbound E stream remote_addr nid node_name gc_flag tx (registry, app_tx, w) of
             (registry', app_tx', _) \<Rightarrow> (registry', app_tx'))
      | Inl _ \<Rightarrow> (registry, app_tx)))"

text \<open>The listener: \<open>bound\<close> is the outcome of parsing and binding its address.  The accepted connections have
  tasks of their own; they are listed in the order of their ends, each with its new channel.\<close>

definition bind_and_listen ::
  "('w, 'q, 'e) connection_env \<Rightarrow> (anyhow, unit) result \<Rightarrow> NodeId \<Rightarrow> string \<Rightarrow> bool
     \<Rightarrow> ('h \<times> (IoErrorKind, (bytes \<times> 'w) \<times> string) result) list \<Rightarrow> 'h PeerRegistry \<times> 'q \<Rightarrow> 'h PeerRegistry \<times> 'q" where
  "bind_and_listen E bound nid node_name gc_flag accepted st =
     (case bound of
        Inl _ \<Rightarrow> st
      | Inr _ \<Rightarrow> fold (\<lambda>(tx, accept_result) st.
          handle_accepted_connection E nid node_name gc_flag tx accept_result st) accepted st)"

subsection \<open>Reconnecting\<close>

definition RECONNECT_BASE :: nat where
  "RECONNECT_BASE = 1"

definition RECONNECT_MAX :: nat where
  "RECONNECT_MAX = 30"

text \<open>One turn of the supervising loop: the outcome of \<^verbatim>\<open>connect\<close> is an argument, the time slept is
  returned.  The loop runs for ever; \<open>outbound_loop\<close> follows it for a given list of outcomes.\<close>

definition outbound_attempt ::
  "('w, 'q, 'e) connection_env \<Rightarrow> string \<Rightarrow> NodeId \<Rightarrow> string \<Rightarrow> bool \<Rightarrow> (IoErrorKind, bytes \<times> 'w \<times> 'h) result
     \<Rightarrow> nat \<times> 'h PeerRegistry \<times> 'q \<Rightarrow> nat \<times> (nat \<times> 'h PeerRegistry \<times> 'q)" where
  "outbound_attempt E addr local_node_id local_node_name gc_flag connect = (\<lambda>(backoff, registry, app_tx).
     (let (backoff1, registry1, app_tx1) =
            (case connect of
               Inr (stream, w, tx) \<Rightarrow>
                 (case run_connection E stream addr local_node_id local_node_name gc_flag True tx
                         (registry, app_tx, w) of
                    (_, registry', app_tx', _) \<Rightarrow> (RECONNECT_BASE, registry', app_tx'))
             | Inl _ \<Rightarrow> (backoff, registry, app_tx))
      in (backoff1, (min (backoff1 * 2) RECONNECT_MAX, registry1, app_tx1))))"

fun outbound_loop ::
  "('w, 'q, 'e) connection_env \<Rightarrow> string \<Rightarrow> NodeId \<Rightarrow> string \<Rightarrow> bool
     \<Rightarrow> (IoErrorKind, bytes \<times> 'w \<times> 'h) result list
     \<Rightarrow> nat \<times> 'h PeerRegistry \<times> 'q \<Rightarrow> nat list \<times> (nat \<times> 'h PeerRegistry \<times> 'q)" where
  "outbound_loop E addr nid node_name gc_flag [] st = ([], st)"
| "outbound_loop E addr nid node_name gc_flag (c # cs) st =
     (case outbound_attempt E addr nid node_name gc_flag c st of
        (slept, st1) \<Rightarrow> (case outbound_loop E addr nid node_name gc_flag cs st1 of
            (sleeps, st2) \<Rightarrow> (slept # sleeps, st2)))"

definition spawn_outbound ::
  "('w, 'q, 'e) connection_env \<Rightarrow> (anyhow, string) result \<Rightarrow> NodeId \<Rightarrow> string \<Rightarrow> bool
     \<Rightarrow> (IoErrorKind, bytes \<times> 'w \<times> 'h) result list
     \<Rightarrow> 'h PeerRegistry \<times> 'q \<Rightarrow> nat list \<times> ('h PeerRegistry \<times> 'q)" where
  "spawn_outbound E looked_up local_node_id local_node_name gc_flag connects st =
     (case looked_up of
        Inl _ \<Rightarrow> ([], st)
      | Inr addr \<Rightarrow> (case outbound_loop E addr local_node_id local_node_name gc_flag connects
                             (RECONNECT_BASE, st) of
            (sleeps, (_, st')) \<Rightarrow> (sleeps, st')))"

subsection \<open>The simulated network\<close>

type_synonym 'q PeerChannels = "(string, NodeId \<times> bool \<times> 'q) hmap"

fun simulated_writer_loop :: "('q, 'e) try_send \<Rightarrow> Envelope list \<Rightarrow> 'q \<Rightarrow> 'q" where
  "simulated_writer_loop app_send [] remote_tx = remote_tx"
| "simulated_writer_loop app_send (envelope # rx) remote_tx =
     (case app_send remote_tx envelope of
        Inl _ \<Rightarrow> remote_tx
      | Inr remote_tx' \<Rightarrow> simulated_writer_loop app_send rx remote_tx')"

text \<open>The new peer channel is \<open>tx\<close>, and \<open>rx\<close> is what the node comes to send through it.  The result is
  the registry, the channels of the peers and the returned id.\<close>

definition simulated_run_connection ::
  "('q, 'e) try_send \<Rightarrow> 'q PeerChannels \<Rightarrow> string \<Rightarrow> NodeId \<Rightarrow> 'h \<Rightarrow> Envelope list \<Rightarrow> 'h PeerRegistry
     \<Rightarrow> 'h PeerRegistry \<times> 'q PeerChannels \<times> NodeId" where
  "simulated_run_connection app_send peer_channels addr local_node_id tx rx registry =
     (case hm_get peer_channels addr of
        Some (remote_node_id, remote_gc_replica, remote_tx) \<Rightarrow>
          (registry_insert registry remote_node_id remote_gc_replica tx,
           hm_insert addr (remote_node_id, remote_gc_replica, simulated_writer_loop app_send rx remote_tx) peer_channels,
           remote_node_id)
      | None \<Rightarrow> (registry, peer_channels, local_node_id))"

subsection \<open>The contract of the two ends\<close>

text \<open>A socket that accepts every write and an application that takes every envelope.\<close>

definition has_payload :: "Envelope \<Rightarrow> bool" where
  "has_payload envelope \<longleftrightarrow> payload envelope \<noteq> None"

lemma dispatch_simps [conn_simps]:
  "\<not> has_payload env \<Longrightarrow> dispatch E env q = q"
  "has_payload env \<Longrightarrow> dispatch E env q = (case cn_app_send E q env of Inl _ \<Rightarrow> q | Inr q' \<Rightarrow> q')"
  by (auto simp: dispatch_def has_payload_def split: option.splits Payload.splits)

text \<open>The loop has no way out but an error.\<close>

lemma reader_loop_ends: "\<exists>err. fst (reader_loop E addr stream q) = Inl err"
proof (induction E addr stream q rule: reader_loop.induct)
  case (1 E addr stream q)
  then show ?case
    by (subst reader_loop.simps) (auto split: sum.splits option.splits)
qed

lemma reader_loop_frames:
  "(\<And>env. env \<in> set es \<Longrightarrow> envelope_fits (cn_encode E) (cn_decode E) env) \<Longrightarrow>
   reader_loop E addr (concat (map (write_envelope (cn_encode E)) es) @ rest) q =
     reader_loop E addr rest (fold (dispatch E) es q)"
proof (induction es arbitrary: q)
  case (Cons env es)
  then show ?case by (subst reader_loop.simps) (simp add: read_envelope_write)
qed simp

lemma receive_handshake_frame:
  assumes "envelope_fits (cn_encode E) (cn_decode E) (handshake_envelope nid name g)"
  shows "receive_handshake E addr (write_envelope (cn_encode E) (handshake_envelope nid name g) @ rest) =
    Inr ((nid, g), rest)"
  using read_envelope_write [OF assms, of rest]
  by (simp add: receive_handshake_def) (simp add: handshake_envelope_def)

locale connection =
  fixes E :: "('w, 'q, 'e) connection_env"
    and written :: "'w \<Rightarrow> bytes"
    and received :: "'q \<Rightarrow> Envelope list"
  assumes nodelay_works: "\<exists>w'. cn_set_nodelay E w = (Inr (), w') \<and> written w' = written w"
    and write_works: "\<exists>w'. cn_write_all E bs w = (Inr (), w') \<and> written w' = written w @ bs"
    and app_works: "\<exists>q'. cn_app_send E q env = Inr q' \<and> received q' = received q @ [env]"
begin

lemma write_to_works:
  obtains w' where "write_to E env w = (Inr (), w')"
    and "written w' = written w @ write_envelope (cn_encode E) env"
  using write_works [of "write_envelope (cn_encode E) env" w] by (auto simp: write_to_def)

lemma writer_loop_written:
  "written (writer_loop E es w) = written w @ concat (map (write_envelope (cn_encode E)) es)"
proof (induction es arbitrary: w)
  case (Cons env es)
  obtain w' where "write_to E env w = (Inr (), w')" "written w' = written w @ write_envelope (cn_encode E) env"
    by (rule write_to_works)
  then show ?case by (simp add: Cons)
qed simp

lemma dispatch_received: "received (dispatch E env q) = received q @ filter has_payload [env]"
  using app_works [of q env] by (cases "has_payload env") (auto simp: conn_simps)

lemma fold_dispatch_received: "received (fold (dispatch E) es q) = received q @ filter has_payload es"
  by (induction es arbitrary: q) (simp_all add: dispatch_received)

lemma simulated_writer_received: "received (simulated_writer_loop (cn_app_send E) es q) = received q @ es"
proof (induction es arbitrary: q)
  case (Cons env es)
  obtain q' where "cn_app_send E q env = Inr q'" "received q' = received q @ [env]"
    using app_works [of q env] by blast
  then show ?case by (simp add: Cons)
qed simp

lemma handshake_either:
  assumes "envelope_fits (cn_encode E) (cn_decode E) (handshake_envelope rid rn rg)"
  obtains w' where "handshake E lid ln lg addr initiator
      (write_envelope (cn_encode E) (handshake_envelope rid rn rg) @ rest) w = (Inr ((rid, rg), rest), w')"
    and "written w' = written w @ write_envelope (cn_encode E) (handshake_envelope lid ln lg)"
proof -
  obtain w' where "write_to E (handshake_envelope lid ln lg) w = (Inr (), w')"
    "written w' = written w @ write_envelope (cn_encode E) (handshake_envelope lid ln lg)"
    by (rule write_to_works)
  then show ?thesis using that receive_handshake_frame [OF assms] by (simp add: handshake_def Let_def)
qed

lemma connection_run:
  assumes "\<And>env. env \<in> set (handshake_envelope rid rn rg # es) \<Longrightarrow> envelope_fits (cn_encode E) (cn_decode E) env"
    and "reader_loop E addr rest (fold (dispatch E) es q) = (Inl err, q')"
  obtains w' where "run_connection E
      (concat (map (write_envelope (cn_encode E)) (handshake_envelope rid rn rg # es)) @ rest)
      addr lid ln lg initiator tx (reg, q, w) = (Inl err, (registry_insert reg rid rg tx, q', w'))"
    and "written w' = written w @ write_envelope (cn_encode E) (handshake_envelope lid ln lg)"
proof -
  obtain w1 where w1: "cn_set_nodelay E w = (Inr (), w1)" "written w1 = written w"
    using nodelay_works [of w] by blast
  have "envelope_fits (cn_encode E) (cn_decode E) (handshake_envelope rid rn rg)" by (rule assms(1)) simp
  then obtain w2 where w2: "handshake E lid ln lg addr initiator
      (write_envelope (cn_encode E) (handshake_envelope rid rn rg) @
        concat (map (write_envelope (cn_encode E)) es) @ rest) w1 =
      (Inr ((rid, rg), concat (map (write_envelope (cn_encode E)) es) @ rest), w2)"
    "written w2 = written w1 @ write_envelope (cn_encode E) (handshake_envelope lid ln lg)"
    by (rule handshake_either)
  have "reader_loop E addr (concat (map (write_envelope (cn_encode E)) es) @ rest) q = (Inl err, q')"
    using assms by (subst reader_loop_frames) auto
  then show ?thesis
    using w1 w2 by (intro that [of w2]) (simp_all add: run_connection_def Let_def)
qed

end

text \<open>The socket whose write half is what was written so far, and the application's channel with the list of
  the envelopes in it.\<close>

definition log_env ::
  "(Envelope \<Rightarrow> bytes) \<Rightarrow> (bytes \<Rightarrow> Envelope option) \<Rightarrow> (Payload option \<Rightarrow> string)
     \<Rightarrow> (bytes, Envelope list, unit) connection_env" where
  "log_env enc dec show_payload =
     \<lparr>cn_encode = enc, cn_decode = dec, cn_show_payload = show_payload,
      cn_set_nodelay = (\<lambda>w. (Inr (), w)), cn_write_all = (\<lambda>bs w. (Inr (), w @ bs)),
      cn_app_send = (\<lambda>q env. Inr (q @ [env]))\<rparr>"

lemma log_env_simps [simp]:
  "cn_encode (log_env enc dec sp) = enc" "cn_decode (log_env enc dec sp) = dec"
  by (simp_all add: log_env_def)

interpretation log: connection "log_env enc dec sp" id id
  for enc dec sp
  by unfold_locales (simp_all add: log_env_def)

lemma log_handshake:
  assumes "envelope_fits enc dec (handshake_envelope rid rn rg)"
  shows "handshake (log_env enc dec sp) lid ln lg addr initiator
      (write_envelope enc (handshake_envelope rid rn rg) @ rest) w =
    (Inr ((rid, rg), rest), w @ write_envelope enc (handshake_envelope lid ln lg))"
proof -
  obtain w' where "handshake (log_env enc dec sp) lid ln lg addr initiator
      (write_envelope enc (handshake_envelope rid rn rg) @ rest) w = (Inr ((rid, rg), rest), w')"
    and "id w' = id w @ write_envelope enc (handshake_envelope lid ln lg)"
    by (rule log.handshake_either [unfolded log_env_simps, OF assms])
  then show ?thesis by simp
qed

lemma connection_run_eof:
  assumes "envelope_fits enc dec (handshake_envelope rid rn rg)"
  shows "run_connection (log_env enc dec sp) (write_envelope enc (handshake_envelope rid rn rg))
      addr lid ln lg initiator tx (reg, q, w) =
    (Inl (ConnectionClosed addr), (registry_insert reg rid rg tx, q,
       w @ write_envelope enc (handshake_envelope lid ln lg)))"
  using log_handshake [OF assms, of sp lid ln lg addr initiator "[]" w]
  by (simp add: run_connection_def Let_def log_env_def reader_loop.simps [of _ _ "[]"]
      read_envelope_def read_exact_def)

lemma connection_run_frames:
  assumes "\<And>env. env \<in> set (handshake_envelope rid rn rg # es) \<Longrightarrow> envelope_fits enc dec env"
  shows "run_connection (log_env enc dec sp) (concat (map (write_envelope enc) (handshake_envelope rid rn rg # es)))
      addr lid ln lg initiator tx (reg, q, w) =
    (Inl (ConnectionClosed addr), (registry_insert reg rid rg tx, q @ filter has_payload es,
       w @ write_envelope enc (handshake_envelope lid ln lg)))"
  using log_handshake [of enc dec rid rn rg sp lid ln lg addr initiator "concat (map (write_envelope enc) es)" w] assms
    reader_loop_frames [of es "log_env enc dec sp" addr "[]" q] log.fold_dispatch_received [of enc dec sp es q]
  by (simp add: run_connection_def Let_def log_env_def reader_loop.simps [of _ _ "[]"] read_envelope_def read_exact_def)

text \<open>What a listener hands on: of every peer the payloads it sent, each peer registered under its last channel.\<close>

definition peer_stream :: "(Envelope \<Rightarrow> bytes) \<Rightarrow> NodeId \<times> string \<times> bool \<times> Envelope list \<Rightarrow> bytes" where
  "peer_stream enc = (\<lambda>(rid, rn, rg, es). concat (map (write_envelope enc) (handshake_envelope rid rn rg # es)))"

lemma listener_hands_on:
  assumes "\<And>tx rid rn rg es env. (tx, rid, rn, rg, es) \<in> set peers \<Longrightarrow> env \<in> set (handshake_envelope rid rn rg # es) \<Longrightarrow>
    envelope_fits enc dec env"
  shows "bind_and_listen (log_env enc dec sp) (Inr ()) nid nm g
      (map (\<lambda>(tx, peer). (tx, Inr ((peer_stream enc peer, []), addr))) peers) (reg, q) =
    (fold (\<lambda>(tx, rid, _, rg, _) reg. registry_insert reg rid rg tx) peers reg,
     q @ concat (map (\<lambda>(_, _, _, _, es). filter has_payload es) peers))"
  using assms
proof (induction peers arbitrary: reg q)
  case (Cons p peers)
  obtain tx rid rn rg es where p: "p = (tx, rid, rn, rg, es)" by (metis prod_cases5)
  have fits: "\<And>env. env \<in> set (handshake_envelope rid rn rg # es) \<Longrightarrow> envelope_fits enc dec env"
    using Cons.prems [of tx rid rn rg es] by (simp add: p)
  have run: "snd (run_connection (log_env enc dec sp) (peer_stream enc (rid, rn, rg, es)) addr nid nm g False tx (reg, q, [])) =
      (registry_insert reg rid rg tx, q @ filter has_payload es, write_envelope enc (handshake_envelope nid nm g))"
    using connection_run_frames [of rid rn rg es enc dec sp addr nid nm g False tx reg q "[]"] fits
    by (simp add: peer_stream_def)
  moreover have "envelope_fits enc dec env"
    if "(tx, rid, rn, rg, es) \<in> set peers" "env \<in> set (handshake_envelope rid rn rg # es)" for tx rid rn rg es env
    using Cons.prems that by (meson list.set_intros(2))
  moreover note Cons.IH [of "registry_insert reg rid rg tx" "q @ filter has_payload es", OF this]
  ultimately show ?case
    by (simp add: bind_and_listen_def handle_accepted_connection_def handle_inbound_def p)
qed (simp add: bind_and_listen_def)

subsection \<open>Properties\<close>

text \<open>C19.  The handshake.  When both ends' handshakes fit a frame, the two sides agree: each learns the
  other's id and collector flag and leaves the bytes after the handshake unread.  The initiator has
  written its handshake before it reads, so the two never wait for each other, and the accepting side
  says nothing to a peer that closes without a handshake.\<close>

theorem handshake_agrees:
  assumes "envelope_fits enc dec (handshake_envelope ida na ga)"
    and "envelope_fits enc dec (handshake_envelope idb nb gb)"
  shows "\<exists>from_a from_b.
    handshake (log_env enc dec sp) ida na ga addr_b True (from_b @ xs) [] = (Inr ((idb, gb), xs), from_a) \<and>
    handshake (log_env enc dec sp) idb nb gb addr_a False (from_a @ ys) [] = (Inr ((ida, ga), ys), from_b) \<and>
    snd (handshake (log_env enc dec sp) ida na ga addr_b True zs []) = from_a \<and>
    handshake (log_env enc dec sp) idb nb gb addr_a False [] [] =
      (Inl (HandshakeFailed addr_a ''EOF before handshake''), [])"
proof -
  have "snd (handshake (log_env enc dec sp) ida na ga addr_b True zs []) =
      write_envelope enc (handshake_envelope ida na ga)"
    by (simp add: handshake_def Let_def write_to_def log_env_def)
  moreover have "handshake (log_env enc dec sp) idb nb gb addr_a False [] [] =
      (Inl (HandshakeFailed addr_a ''EOF before handshake''), [])"
    by (simp add: handshake_def Let_def receive_handshake_def read_envelope_def read_exact_def)
  ultimately show ?thesis
    using log_handshake [OF assms(1), of sp idb nb gb addr_a False ys "[]"]
      log_handshake [OF assms(2), of sp ida na ga addr_b True xs "[]"] by auto
qed

text \<open>A codec for the witnesses: the two handshakes and one pull request.\<close>

definition demo_decode :: "bytes \<Rightarrow> Envelope option" where
  "demo_decode bs = (if bs = [1] then Some (handshake_envelope ''A'' ''a'' False)
     else if bs = [2] then Some (handshake_envelope ''B'' ''b'' True)
     else if bs = [3] then Some (make_pull_request_envelope ''c'' ''A'' False [(''A'', 1)])
     else if bs = [] then Some \<lparr>payload = None\<rparr> else None)"

definition demo_encode :: "Envelope \<Rightarrow> bytes" where
  "demo_encode env = (if env = handshake_envelope ''A'' ''a'' False then [1]
     else if env = handshake_envelope ''B'' ''b'' True then [2]
     else if env = make_pull_request_envelope ''c'' ''A'' False [(''A'', 1)] then [3] else [])"

lemma demo_fits:
  "envelope_fits demo_encode demo_decode (handshake_envelope ''A'' ''a'' False)"
  "envelope_fits demo_encode demo_decode (handshake_envelope ''B'' ''b'' True)"
  "envelope_fits demo_encode demo_decode (make_pull_request_envelope ''c'' ''A'' False [(''A'', 1)])"
  "envelope_fits demo_encode demo_decode \<lparr>payload = None\<rparr>"
  by (simp_all add: envelope_fits_def demo_encode_def demo_decode_def handshake_envelope_def
      make_pull_request_envelope_def)

theorem handshake_agrees_witness:
  "\<exists>from_b. fst (handshake (log_env demo_encode demo_decode (\<lambda>_. [])) ''A'' ''a'' False ''h:2'' True (from_b @ [7]) [])
     = Inr ((''B'', True), [7])"
  using handshake_agrees [OF demo_fits(1,2), of "\<lambda>_. []" "''h:2''" "[7]" "''h:1''" "[8]" "[]"] by (metis fst_conv)



text \<open>Nothing reaches the registry or the application before a valid handshake: whatever the socket,
  the codec and the application do, a connection changes the registry only by adding the peer named in a
  version-1 handshake, and a peer whose first frame is anything else leaves both as they were.\<close>

theorem handshake_guards:
  "(\<exists>hs s'. read_envelope (cn_decode E) stream = Inr (Some \<lparr>payload = Some (PHandshake hs)\<rparr>, s') \<and> hs_version hs = 1 \<and>
      fst (snd (run_connection E stream addr lid ln lg initiator tx (reg, q, w)))
        \<in> {reg, registry_insert reg (hs_node_id hs) (hs_gc_replica hs) tx}) \<or>
   (\<exists>err w'. run_connection E stream addr lid ln lg initiator tx (reg, q, w) = (Inl err, (reg, q, w')))"
proof (cases "receive_handshake E addr stream")
  case (Inl e)
  then have "\<exists>err w'. run_connection E stream addr lid ln lg initiator tx (reg, q, w) = (Inl err, (reg, q, w'))"
    by (auto simp: run_connection_def handshake_def Let_def split: prod.splits sum.splits)
  then show ?thesis ..
next
  case (Inr r)
  then obtain hs s' where hs: "read_envelope (cn_decode E) stream = Inr (Some \<lparr>payload = Some (PHandshake hs)\<rparr>, s')"
    "hs_version hs = 1" "r = ((hs_node_id hs, hs_gc_replica hs), s')"
    by (auto simp: receive_handshake_def split: sum.splits prod.splits option.splits Payload.splits if_splits)
      (metis Envelope.surjective unit.exhaust)
  have "fst (snd (run_connection E stream addr lid ln lg initiator tx (reg, q, w)))
      \<in> {reg, registry_insert reg (hs_node_id hs) (hs_gc_replica hs) tx}"
    using Inr hs(3)
    by (auto simp: run_connection_def handshake_def Let_def split: prod.splits sum.splits if_splits)
  with hs(1,2) show ?thesis by blast
qed

lemma outbound_loop_sleeps:
  "1 \<le> b \<Longrightarrow> b \<le> 30 \<Longrightarrow> sl \<in> set (fst (outbound_loop E addr nid nm g cs (b, reg, q))) \<Longrightarrow> 1 \<le> sl \<and> sl \<le> 30"
proof (induction cs arbitrary: b reg q)
  case (Cons c cs)
  obtain slept b1 reg1 q1 where a: "outbound_attempt E addr nid nm g c (b, reg, q) = (slept, (b1, reg1, q1))"
    by (metis prod_cases4)
  then have bounds: "1 \<le> slept" "slept \<le> 30" "1 \<le> b1" "b1 \<le> 30"
    using Cons.prems(1,2)
    by (auto simp: outbound_attempt_def RECONNECT_BASE_def RECONNECT_MAX_def split: prod.splits sum.splits)
  have "sl = slept \<or> sl \<in> set (fst (outbound_loop E addr nid nm g cs (b1, reg1, q1)))"
    using Cons.prems(3) by (auto simp: a split: prod.splits)
  then show ?case using bounds Cons.IH [OF bounds(3,4)] by blast
qed simp

lemma outbound_loop_failing:
  "outbound_loop E addr nid nm g (replicate n (Inl io)) (min (2 ^ k) 30, st) =
     (map (\<lambda>i. min (2 ^ i) 30) [k..<k + n], (min (2 ^ (k + n)) 30, st))"
proof (induction n arbitrary: k)
  case (Suc n)
  have "min (min (2 ^ k) 30 * 2) (30 :: nat) = min (2 ^ Suc k) 30" by (simp add: min_def)
  then show ?case
    using Suc [of "Suc k"]
    by (cases st) (simp add: outbound_attempt_def RECONNECT_MAX_def upt_conv_Cons del: upt_Suc)
qed simp

lemma outbound_loop_failing':
  "outbound_loop E addr nid nm g (replicate n (Inl io)) (1, st) =
     (map (\<lambda>i. min (2 ^ i) 30) [0..<n], (min (2 ^ n) 30, st))"
  using outbound_loop_failing [of E addr nid nm g n io 0 st] by simp

text \<open>The sleep after a connection is the first of a new row.\<close>

lemma outbound_loop_reset:
  "\<exists>st'. outbound_loop E addr nid nm g (Inr c # replicate n (Inl io)) (b, st) =
     (map (\<lambda>i. min (2 ^ i) 30) [0..<Suc n], (min (2 ^ Suc n) 30, st'))"
proof -
  obtain st' where a: "outbound_attempt E addr nid nm g (Inr c) (b, st) = (1, (2, st'))"
  proof -
    obtain stream w tx where c: "c = (stream, w, tx)" by (metis prod_cases3)
    obtain reg q where st: "st = (reg, q)" by fastforce
    obtain res reg' q' w' where "run_connection E stream addr nid nm g True tx (reg, q, w) = (res, (reg', q', w'))"
      by (metis prod_cases4)
    then show ?thesis
      by (intro that [of "(reg', q')"]) (simp add: c st outbound_attempt_def RECONNECT_BASE_def RECONNECT_MAX_def split: prod.splits)
  qed
  have "outbound_loop E addr nid nm g (replicate n (Inl io)) (2, st') =
      (map (\<lambda>i. min (2 ^ i) 30) [1..<1 + n], (min (2 ^ (1 + n)) 30, st'))"
    using outbound_loop_failing [of E addr nid nm g n io 1 st'] by simp
  moreover have "[0..<Suc n] = 0 # [1..<1 + n]" by (simp add: upt_conv_Cons del: upt_Suc)
  ultimately show ?thesis using a by (simp del: upt_Suc)
qed


text \<open>The simulated network stands in for TCP.  For envelopes with a payload that fit a frame, what
  the simulated connection hands to the peer's application is what the TCP reader hands on from the bytes
  the TCP writer wrote, and the node registers the peer as after a TCP handshake with it.\<close>

theorem simulated_like_tcp:
  assumes "hm_get channels addr = Some (rid, rg, q)"
    and "\<And>env. env \<in> set (handshake_envelope rid rn rg # es) \<Longrightarrow> envelope_fits enc dec env \<and> has_payload env"
  shows "simulated_run_connection (cn_app_send (log_env enc dec sp)) channels addr lid tx es reg =
    (fst (snd (run_connection (log_env enc dec sp) (write_envelope enc (handshake_envelope rid rn rg))
        peer lid ln lg True tx (reg, [], []))),
     hm_insert addr (rid, rg, snd (reader_loop (log_env enc dec sp) peer
        (writer_loop (log_env enc dec sp) es []) q)) channels,
     rid)"
proof -
  have eof: "read_envelope dec [] = Inr (None, [])" by (simp add: read_envelope_def read_exact_def)
  then have "run_connection (log_env enc dec sp) (write_envelope enc (handshake_envelope rid rn rg))
      peer lid ln lg True tx (reg, [], []) =
      (Inl (ConnectionClosed peer), (registry_insert reg rid rg tx, [], write_envelope enc (handshake_envelope lid ln lg)))"
    by (intro connection_run_eof [where w = "[]" and q = "[]", simplified]) (use assms(2) in simp)
  moreover have "filter has_payload es = es" using assms(2) by (simp add: filter_id_conv)
  moreover have "reader_loop (log_env enc dec sp) peer (concat (map (write_envelope enc) es) @ []) q =
      reader_loop (log_env enc dec sp) peer [] (fold (dispatch (log_env enc dec sp)) es q)"
    using reader_loop_frames [of es "log_env enc dec sp" peer "[]" q] assms(2) by simp
  ultimately show ?thesis
    using log.writer_loop_written [of enc dec sp es "[]"] log.fold_dispatch_received [of enc dec sp es q]
      log.simulated_writer_received [of enc dec sp es q] assms(1) eof
    by (simp add: simulated_run_connection_def reader_loop.simps [of _ _ "[]"])
qed

theorem simulated_like_tcp_witness:
  "snd (reader_loop (log_env demo_encode demo_decode (\<lambda>_. [])) ''h:1''
     (writer_loop (log_env demo_encode demo_decode (\<lambda>_. []))
        [make_pull_request_envelope ''c'' ''A'' False [(''A'', 1)]] []) []) =
   [make_pull_request_envelope ''c'' ''A'' False [(''A'', 1)]]"
proof -
  have "env \<in> set [handshake_envelope ''B'' ''b'' True, make_pull_request_envelope ''c'' ''A'' False [(''A'', 1)]]
      \<Longrightarrow> envelope_fits demo_encode demo_decode env \<and> has_payload env" for env
    using demo_fits by (auto simp: has_payload_def handshake_envelope_def make_pull_request_envelope_def)
  from simulated_like_tcp [of "[(''h:2'', ''B'', True, [])]" "''h:2''" "''B''" True "[]" "''b''"
      "[make_pull_request_envelope ''c'' ''A'' False [(''A'', 1)]]" demo_encode demo_decode "\<lambda>_. []" "''A''" "()"
      "[]" "''h:1''" "''a''" False] this
  show ?thesis by (simp add: simulated_run_connection_def) (simp add: log_env_def)
qed

end
