(* ===== verification/Client_Sessions.thy ===== *)
theory Client_Sessions
  imports OR_Set_Replication Connection
begin

text \<open>
  A client of a server: the server's half in \<^verbatim>\<open>src/server/client_requests_handler.rs\<close> and the
  command-line client of \<^verbatim>\<open>src/client/crdt_client.rs\<close>.

  The handler talks to the engine through a channel (\<^verbatim>\<open>engine_tx\<close>) and one \<^verbatim>\<open>oneshot\<close> per
  question; \<open>engine_channel\<close> is that interface, an error its text.  The locale \<open>served_set\<close> is the
  contract the handler relies on, a set that serves the requests, and \<open>live_channel\<close> the engine behind its
  channel, which meets it.  Sockets are as in the theory of connections.
\<close>

named_theorems session_simps \<open>steps of a client's session\<close>

subsection \<open>Commands on the server\<close>

record ('op, 'q) engine_channel =
  ec_send :: "'op CrdtEngineRequest \<Rightarrow> ('q, string, unit) call"
  ec_reply :: "('q, string, string) call"

definition send_engine_request ::
  "('op, 'q) engine_channel \<Rightarrow> 'op CrdtEngineRequest \<Rightarrow> 'q \<Rightarrow> string \<times> 'q" where
  "send_engine_request C request q =
     (case ec_send C request q of
        (Inl e, q1) \<Rightarrow> (''error: '' @ e, q1)
      | (Inr _, q1) \<Rightarrow> (''ok'', q1))"

definition send_engine_request_and_wait_response ::
  "('op, 'q) engine_channel \<Rightarrow> 'op CrdtEngineRequest \<Rightarrow> 'q \<Rightarrow> string \<times> 'q" where
  "send_engine_request_and_wait_response C request q =
     (case ec_send C request q of
        (Inl e, q1) \<Rightarrow> (''error: '' @ e, q1)
      | (Inr _, q1) \<Rightarrow> (case ec_reply C q1 of
            (Inr state_str, q2) \<Rightarrow> (state_str, q2)
          | (Inl e, q2) \<Rightarrow> (''error: '' @ e, q2)))"

definition client_response ::
  "(string OrSetOp, 'q) engine_channel \<Rightarrow> (bytes \<Rightarrow> (string, ProtoClientCommand) result) \<Rightarrow> bytes \<Rightarrow> 'q
     \<Rightarrow> string \<times> 'q" where
  "client_response C decode msg_buf q =
     (case decode msg_buf of
        Inr cmd \<Rightarrow> (case command cmd of
            Some (CmdAdd value) \<Rightarrow> send_engine_request C (ClientOperation (Add value)) q
          | Some (CmdRemove value) \<Rightarrow> send_engine_request C (ClientOperation (Remove value)) q
          | Some (CmdRemoveRandom _) \<Rightarrow>
              (case send_engine_request_and_wait_response C GetRandomElement q of
                 (random_element, q1) \<Rightarrow>
                   if starts_with ''error:'' random_element then (random_element, q1)
                   else send_engine_request C (ClientOperation (Remove random_element)) q1)
          | Some (CmdPrintState _) \<Rightarrow> send_engine_request_and_wait_response C PrintState q
          | Some (CmdPrintInternals _) \<Rightarrow> send_engine_request_and_wait_response C PrintInternals q
          | Some (CmdPrintMatrix _) \<Rightarrow> send_engine_request_and_wait_response C PrintMatrix q
          | None \<Rightarrow> (''error: empty command'', q))
      | Inl e \<Rightarrow> (''error: '' @ e, q))"

text \<open>The reply: two writes, the second only after the first.\<close>

definition send_reply :: "'w write_all \<Rightarrow> string \<Rightarrow> 'w \<Rightarrow> bool \<times> 'w" where
  "send_reply write response w =
     (let resp_bytes = as_bytes response;
          resp_len = word_of_nat (length resp_bytes) :: u32
      in (case write (u32_to_be_bytes resp_len) w of
            (Inl _, w1) \<Rightarrow> (False, w1)
          | (Inr _, w1) \<Rightarrow> (case write resp_bytes w1 of
                (Inl _, w2) \<Rightarrow> (False, w2)
              | (Inr _, w2) \<Rightarrow> (True, w2))))"

lemma read_client_message_consumes: "read_client_message s = Some (m, s') \<Longrightarrow> length s' < length s"
  by (auto simp: read_client_message_def Let_def split: sum.splits dest!: read_exact_InrD)

function serve_client ::
  "(string OrSetOp, 'q) engine_channel \<Rightarrow> (bytes \<Rightarrow> (string, ProtoClientCommand) result) \<Rightarrow> 'w write_all
     \<Rightarrow> bytes \<Rightarrow> 'w \<times> 'q \<Rightarrow> 'w \<times> 'q" where
  "serve_client C decode write stream st =
     (case read_client_message stream of
        None \<Rightarrow> st
      | Some (msg_buf, rest) \<Rightarrow>
          (case client_response C decode msg_buf (snd st) of
             (response, q1) \<Rightarrow> (case send_reply write response (fst st) of
                 (False, w1) \<Rightarrow> (w1, q1)
               | (True, w1) \<Rightarrow> serve_client C decode write rest (w1, q1))))"
  by pat_completeness auto
termination
  by (relation "measure (\<lambda>(C, decode, write, stream, st). length stream)")
    (auto intro: read_client_message_consumes)

declare serve_client.simps [simp del]

subsection \<open>The command-line client\<close>

definition parse_line :: "string \<Rightarrow> (string, Command option) result" where
  "parse_line line =
     (case splitn 2 '' '' (trim line) of
        [cmd, value] \<Rightarrow>
          if cmd = ''add'' then Inr (Some (CmdAdd value))
          else if cmd = ''remove'' then Inr (Some (CmdRemove value))
          else Inl (''Unknown command: '' @ string_debug (trim line) @
            ''. Try: add <v>, remove <v>, print-state, print-internals, print-matrix, quit'')
      | [cmd] \<Rightarrow>
          if cmd = ''remove-random'' then Inr (Some (CmdRemoveRandom True))
          else if cmd = ''print-state'' then Inr (Some (CmdPrintState True))
          else if cmd = ''print-internals'' then Inr (Some (CmdPrintInternals True))
          else if cmd = ''print-matrix'' then Inr (Some (CmdPrintMatrix True))
          else if cmd = ''quit'' \<or> cmd = ''exit'' then Inr None
          else if cmd = '''' then Inl ''''
          else Inl (''Unknown command: '' @ string_debug (trim line) @
            ''. Try: add <v>, remove <v>, print-state, print-internals, print-matrix, quit'')
      | [] \<Rightarrow> Inl ''''
      | _ \<Rightarrow> Inl (''Unknown command: '' @ string_debug (trim line) @
            ''. Try: add <v>, remove <v>, print-state, print-internals, print-matrix, quit''))"

text \<open>The client's connection: what it writes with \<^verbatim>\<open>send_command\<close>, what it reads with
  \<^verbatim>\<open>recv_response\<close>.\<close>

record 'k client_connection =
  cc_write :: "'k write_all"
  cc_read :: "('k, IoErrorKind, bytes) call"

datatype console = Out bytes | Err string

definition exchange :: "'k client_connection \<Rightarrow> bytes \<Rightarrow> ('k, IoErrorKind, bytes) call" where
  "exchange K msg k = (case cc_write K msg k of (Inl e, k1) \<Rightarrow> (Inl e, k1) | (Inr _, k1) \<Rightarrow> cc_read K k1)"

fun run_interactive ::
  "'k client_connection \<Rightarrow> (ProtoClientCommand \<Rightarrow> bytes) \<Rightarrow> string list \<Rightarrow> 'k
     \<Rightarrow> (IoErrorKind, unit) result \<times> console list \<times> 'k" where
  "run_interactive K enc [] k = (Inr (), [], k)"
| "run_interactive K enc (line # lines) k =
     (case parse_line line of
        Inr (Some cmd) \<Rightarrow> (case exchange K (send_command enc cmd) k of
            (Inl e, k1) \<Rightarrow> (Inl e, [], k1)
          | (Inr resp, k1) \<Rightarrow> (case run_interactive K enc lines k1 of
                (r, out, k2) \<Rightarrow> (r, Out resp # out, k2)))
      | Inr None \<Rightarrow> (Inr (), [], k)
      | Inl e \<Rightarrow> (case run_interactive K enc lines k of
            (r, out, k2) \<Rightarrow> (r, if e = '''' then out else Err e # out, k2)))"

text \<open>The benchmark: the random key and the coin of each request are arguments.\<close>

definition bench_command :: "u64 \<Rightarrow> nat \<Rightarrow> bool \<Rightarrow> Command" where
  "bench_command count key coin =
     (if count \<noteq> 0 \<and> coin then CmdRemoveRandom True else CmdAdd (''key-'' @ show_nat key))"

fun run_bench ::
  "'k client_connection \<Rightarrow> (ProtoClientCommand \<Rightarrow> bytes) \<Rightarrow> u64 option \<Rightarrow> (nat \<times> bool) list \<Rightarrow> u64 \<Rightarrow> 'k
     \<Rightarrow> (IoErrorKind, u64) result \<times> 'k" where
  "run_bench K enc requests [] count k = (Inr count, k)"
| "run_bench K enc requests ((key, coin) # choices) count k =
     (if (case requests of Some max_requests \<Rightarrow> count \<ge> max_requests | None \<Rightarrow> False) then (Inr count, k)
      else (case exchange K (send_command enc (bench_command count key coin)) k of
          (Inl e, k1) \<Rightarrow> (Inl e, k1)
        | (Inr _, k1) \<Rightarrow> run_bench K enc requests choices (count + 1) k1))"

text \<open>One addition to every server of a deployment: \<open>connect\<close> opens a connection to an address, the random keys
  are arguments.  The first error ends the run.\<close>

definition request_server ::
  "(string \<Rightarrow> ('k, IoErrorKind, 'k client_connection) call) \<Rightarrow> (ProtoClientCommand \<Rightarrow> bytes) \<Rightarrow> string \<Rightarrow> string
     \<Rightarrow> nat \<times> nat \<Rightarrow> 'k \<Rightarrow> (IoErrorKind, unit) result \<times> console list \<times> 'k" where
  "request_server connect enc server_prefix key_text = (\<lambda>(i, key) k.
     (let lookup_addr = server_prefix @ show_nat i @ '':9100'';
          looking = Out (as_bytes (''Looking up address for '' @ lookup_addr @ ''...''))
      in (case connect lookup_addr k of
            (Inl e, k1) \<Rightarrow> (Inl e, [looking], k1)
          | (Inr K, k1) \<Rightarrow> (case exchange K (send_command enc (CmdAdd (key_text @ show_nat key))) k1 of
                (Inl e, k2) \<Rightarrow> (Inl e, [looking], k2)
              | (Inr resp, k2) \<Rightarrow> (Inr (), [looking, Out resp], k2)))))"

fun request_servers ::
  "('a \<Rightarrow> 'k \<Rightarrow> (IoErrorKind, unit) result \<times> console list \<times> 'k) \<Rightarrow> 'a list \<Rightarrow> 'k
     \<Rightarrow> (IoErrorKind, unit) result \<times> console list \<times> 'k" where
  "request_servers request [] k = (Inr (), [], k)"
| "request_servers request (x # xs) k =
     (case request x k of
        (Inl e, out, k1) \<Rightarrow> (Inl e, out, k1)
      | (Inr _, out, k1) \<Rightarrow> (case request_servers request xs k1 of (r, out', k2) \<Rightarrow> (r, out @ out', k2)))"

definition run_one_request_per_server ::
  "(string \<Rightarrow> ('k, IoErrorKind, 'k client_connection) call) \<Rightarrow> (ProtoClientCommand \<Rightarrow> bytes) \<Rightarrow> nat \<Rightarrow> nat
     \<Rightarrow> (nat \<Rightarrow> nat) \<Rightarrow> (nat \<Rightarrow> nat) \<Rightarrow> 'k \<Rightarrow> (IoErrorKind, unit) result \<times> console list \<times> 'k" where
  "run_one_request_per_server connect enc num_gc_servers num_normal_servers gc_keys normal_keys k =
     (let greeting = Out (as_bytes (''Sending one request to each of '' @ show_nat num_gc_servers @ '' GC servers and '' @
            show_nat num_normal_servers @ '' normal servers.''))
      in (case request_servers (request_server connect enc ''gc-server-'' ''gc-key-'')
                 (map (\<lambda>i. (i, gc_keys i)) [1..<num_gc_servers + 1]) k of
            (Inl e, out, k1) \<Rightarrow> (Inl e, greeting # out, k1)
          | (Inr _, out, k1) \<Rightarrow>
              (case request_servers (request_server connect enc ''normal-server-'' ''normal-key-'')
                      (map (\<lambda>i. (i, normal_keys i)) [1..<num_normal_servers + 1]) k1 of
                 (r, out', k2) \<Rightarrow> (r, greeting # out @ out', k2))))"

subsection \<open>A sequential set\<close>

text \<open>What a client alone on a server should see: a set, with the answers of each command.\<close>

definition printed_set :: "string set \<Rightarrow> string \<Rightarrow> bool" where
  "printed_set S text_of_set \<longleftrightarrow> (\<exists>es. distinct es \<and> set es = S \<and>
     text_of_set = join_with '', '' (sort (map string_debug es)))"

definition set_reply :: "string set \<Rightarrow> Command \<Rightarrow> string \<Rightarrow> string set \<Rightarrow> bool" where
  "set_reply S c answer S' = (case c of
     CmdAdd v \<Rightarrow> answer = ''ok'' \<and> S' = insert v S
   | CmdRemove v \<Rightarrow> answer = ''ok'' \<and> S' = S - {v}
   | CmdPrintState _ \<Rightarrow> printed_set S answer \<and> S' = S
   | CmdRemoveRandom _ \<Rightarrow>
       if S = {} then answer = ''error: empty crdt'' \<and> S' = S
       else \<exists>e \<in> S. if starts_with ''error:'' e then answer = e \<and> S' = S else answer = ''ok'' \<and> S' = S - {e}
   | _ \<Rightarrow> S' = S)"

fun set_session :: "string set \<Rightarrow> Command list \<Rightarrow> string list \<Rightarrow> string set \<Rightarrow> bool" where
  "set_session S [] [] S' \<longleftrightarrow> S' = S"
| "set_session S (c # cs) (r # rs) S' \<longleftrightarrow> (\<exists>S1. set_reply S c r S1 \<and> set_session S1 cs rs S')"
| "set_session S [] (r # rs) S' \<longleftrightarrow> False"
| "set_session S (c # cs) [] S' \<longleftrightarrow> False"

subsection \<open>The contract of the engine's channel\<close>

text \<open>A write half that keeps what was written, and a client's connection to a server that answers at once.\<close>

definition log_write :: "bytes write_all" where
  "log_write bs w = (Inr (), w @ bs)"

definition loopback ::
  "(string OrSetOp, 'q) engine_channel \<Rightarrow> (bytes \<Rightarrow> (string, ProtoClientCommand) result)
     \<Rightarrow> (bytes \<times> 'q) client_connection" where
  "loopback C decode =
     \<lparr>cc_write = (\<lambda>bs st. (Inr (), serve_client C decode log_write bs st)),
      cc_read = (\<lambda>(stream, q). case recv_response stream of
         Inl e \<Rightarrow> (Inl e, (stream, q)) | Inr (r, rest) \<Rightarrow> (Inr r, (rest, q)))\<rparr>"

definition client_codec ::
  "(ProtoClientCommand \<Rightarrow> bytes) \<Rightarrow> (bytes \<Rightarrow> (string, ProtoClientCommand) result) \<Rightarrow> Command \<Rightarrow> bool" where
  "client_codec enc decode c \<longleftrightarrow>
     decode (enc \<lparr>command = Some c\<rparr>) = Inr \<lparr>command = Some c\<rparr> \<and> length (enc \<lparr>command = Some c\<rparr>) < 2 ^ 32"

fun line_commands :: "string list \<Rightarrow> Command list" where
  "line_commands [] = []"
| "line_commands (line # lines) =
     (case parse_line line of
        Inr (Some cmd) \<Rightarrow> cmd # line_commands lines
      | Inr None \<Rightarrow> []
      | Inl _ \<Rightarrow> line_commands lines)"

fun printed :: "console list \<Rightarrow> bytes list" where
  "printed [] = []"
| "printed (Out bs # out) = bs # printed out"
| "printed (Err _ # out) = printed out"

lemma send_reply_log: "send_reply log_write r w = (True, w @ write_response (as_bytes r))"
  by (simp add: send_reply_def log_write_def write_response_def Let_def)

lemma read_command_frame:
  "client_codec enc decode c \<Longrightarrow>
   read_client_message (send_command enc c @ rest) = Some (enc \<lparr>command = Some c\<rparr>, rest)"
  by (simp add: client_codec_def send_command_frame client_frames.unframe_frame)

lemma serve_client_frame [session_simps]:
  assumes "client_codec enc decode c" "client_response C decode (enc \<lparr>command = Some c\<rparr>) q = (r, q1)"
  shows "serve_client C decode log_write (send_command enc c @ rest) (w, q) =
    serve_client C decode log_write rest (w @ write_response (as_bytes r), q1)"
  by (subst serve_client.simps) (simp add: read_command_frame [OF assms(1)] assms(2) send_reply_log)

lemma serve_client_end [simp, session_simps]: "serve_client C decode write [] st = st"
  by (subst serve_client.simps) (simp add: read_client_message_def read_exact_def)

lemma length_as_bytes [simp]: "length (as_bytes s) = length s"
  by (simp add: as_bytes_def)

lemma exchange_loopback:
  assumes "client_codec enc decode c" "client_response C decode (enc \<lparr>command = Some c\<rparr>) q = (r, q1)"
    and "length r < 2 ^ 32"
  shows "exchange (loopback C decode) (send_command enc c) ([], q) = (Inr (as_bytes r), ([], q1))"
  using serve_client_frame [OF assms(1,2), of "[]" "[]"] recv_response_write [of "as_bytes r" "[]"] assms(3)
  by (simp add: exchange_def loopback_def)

locale served_set =
  fixes C :: "(string OrSetOp, 'q) engine_channel"
    and contents :: "'q \<Rightarrow> string set"
    and ready :: "'q \<Rightarrow> nat \<Rightarrow> bool"
  assumes ready_less: "ready q (Suc n) \<Longrightarrow> ready q n"
    and serves_add: "ready q (Suc n) \<Longrightarrow> \<exists>q'. ec_send C (ClientOperation (Add v)) q = (Inr (), q') \<and>
      contents q' = insert v (contents q) \<and> ready q' n"
    and serves_remove: "ready q (Suc n) \<Longrightarrow> \<exists>q'. ec_send C (ClientOperation (Remove v)) q = (Inr (), q') \<and>
      contents q' = contents q - {v} \<and> ready q' n"
    and serves_questions: "ready q n \<Longrightarrow> rq \<in> {GetRandomElement, PrintState, PrintInternals, PrintMatrix} \<Longrightarrow>
      \<exists>q1 q2 t. ec_send C rq q = (Inr (), q1) \<and> ec_reply C q1 = (Inr t, q2) \<and>
        contents q2 = contents q \<and> ready q2 n \<and>
        (rq = GetRandomElement \<longrightarrow> (if contents q = {} then t = ''error: empty crdt'' else t \<in> contents q)) \<and>
        (rq = PrintState \<longrightarrow> printed_set (contents q) t)"
begin

lemma asked:
  assumes "ready q n" "rq \<in> {GetRandomElement, PrintState, PrintInternals, PrintMatrix}"
  obtains t q' where "send_engine_request_and_wait_response C rq q = (t, q')"
    and "contents q' = contents q" "ready q' n"
    and "rq = GetRandomElement \<Longrightarrow> if contents q = {} then t = ''error: empty crdt'' else t \<in> contents q"
    and "rq = PrintState \<Longrightarrow> printed_set (contents q) t"
  using serves_questions [OF assms] by (auto simp: send_engine_request_and_wait_response_def)

lemma response_served:
  assumes ready: "ready q (Suc n)" and codec: "client_codec enc decode c"
  shows "\<exists>r q'. client_response C decode (enc \<lparr>command = Some c\<rparr>) q = (r, q') \<and>
    set_reply (contents q) c r (contents q') \<and> ready q' n"
proof -
  have dec: "decode (enc \<lparr>command = Some c\<rparr>) = Inr \<lparr>command = Some c\<rparr>"
    using codec by (simp add: client_codec_def)
  note less = ready_less [OF ready]
  show ?thesis
  proof (cases c)
    case (CmdAdd v)
    then show ?thesis
      using serves_add [OF ready, of v] dec
      by (auto simp: client_response_def send_engine_request_def set_reply_def)
  next
    case (CmdRemove v)
    then show ?thesis
      using serves_remove [OF ready, of v] dec
      by (auto simp: client_response_def send_engine_request_def set_reply_def)
  next
    case (CmdRemoveRandom b)
    obtain t q1 where t: "send_engine_request_and_wait_response C GetRandomElement q = (t, q1)"
      "contents q1 = contents q" "ready q1 (Suc n)"
      "if contents q = {} then t = ''error: empty crdt'' else t \<in> contents q"
      using asked [OF ready, of GetRandomElement] by auto
    show ?thesis
    proof (cases "starts_with ''error:'' t")
      case True
      then show ?thesis
        using t ready_less [OF t(3)] dec CmdRemoveRandom
        by (auto simp: client_response_def set_reply_def split: if_splits)
    next
      case False
      then have "contents q \<noteq> {}" using t(4) by (auto simp: starts_with_def)
      then show ?thesis
        using False t serves_remove [OF t(3), of t] dec CmdRemoveRandom
        by (auto simp: client_response_def send_engine_request_def set_reply_def)
    qed
  next
    case (CmdPrintState b)
    then show ?thesis
      using asked [OF less, of PrintState] dec by (fastforce simp: client_response_def set_reply_def)
  next
    case (CmdPrintInternals b)
    then show ?thesis
      using asked [OF less, of PrintInternals] dec by (fastforce simp: client_response_def set_reply_def)
  next
    case (CmdPrintMatrix b)
    then show ?thesis
      using asked [OF less, of PrintMatrix] dec by (fastforce simp: client_response_def set_reply_def)
  qed
qed

lemma session_served:
  assumes "ready q (length cs)" "\<And>c. c \<in> set cs \<Longrightarrow> client_codec enc decode c"
  shows "\<exists>rs q'. serve_client C decode log_write (concat (map (send_command enc) cs)) (w, q) =
      (w @ concat (map (\<lambda>r. write_response (as_bytes r)) rs), q') \<and>
    set_session (contents q) cs rs (contents q')"
  using assms
proof (induction cs arbitrary: q w)
  case Nil
  then show ?case by (intro exI [of _ "[]"] exI [of _ q]) simp
next
  case (Cons c cs)
  have codec: "client_codec enc decode c" using Cons.prems(2) by simp
  obtain r q1 where r: "client_response C decode (enc \<lparr>command = Some c\<rparr>) q = (r, q1)"
    "set_reply (contents q) c r (contents q1)" "ready q1 (length cs)"
    using response_served [OF _ codec, of q "length cs"] Cons.prems(1) by auto
  obtain rs q' where rs: "serve_client C decode log_write (concat (map (send_command enc) cs))
      (w @ write_response (as_bytes r), q1) =
      ((w @ write_response (as_bytes r)) @ concat (map (\<lambda>r. write_response (as_bytes r)) rs), q')"
    "set_session (contents q1) cs rs (contents q')"
    using Cons.IH [OF r(3)] Cons.prems(2) by fastforce
  show ?case
    using rs r(2) by (intro exI [of _ "r # rs"] exI [of _ q']) (auto simp: serve_client_frame [OF codec r(1)])
qed

text \<open>The interactive client against that server: what it prints are the replies, one for each line that is
  a command, up to the first \<^verbatim>\<open>quit\<close>.\<close>

lemma interactive_served:
  assumes "ready q (length (line_commands lines))"
    and "\<And>c. c \<in> set (line_commands lines) \<Longrightarrow> client_codec enc decode c"
  shows "\<exists>rs q'. set_session (contents q) (line_commands lines) rs (contents q') \<and>
    ((\<forall>r \<in> set rs. length r < 2 ^ 32) \<longrightarrow>
      (\<exists>out. run_interactive (loopback C decode) enc lines ([], q) = (Inr (), out, ([], q')) \<and>
        printed out = map as_bytes rs))"
  using assms
proof (induction lines arbitrary: q)
  case Nil
  then show ?case by (intro exI [of _ "[]"] exI [of _ q]) simp
next
  case (Cons line lines)
  show ?case
  proof (cases "parse_line line")
    case (Inl e)
    then have "line_commands (line # lines) = line_commands lines" by simp
    with Cons obtain rs q' where rs: "set_session (contents q) (line_commands lines) rs (contents q')"
      "(\<forall>r \<in> set rs. length r < 2 ^ 32) \<longrightarrow>
        (\<exists>out. run_interactive (loopback C decode) enc lines ([], q) = (Inr (), out, ([], q')) \<and>
          printed out = map as_bytes rs)" by (metis (no_types, lifting))
    then show ?thesis
      using Inl by (intro exI [of _ rs] exI [of _ q']) (auto split: if_splits)
  next
    case (Inr cmd)
    show ?thesis
    proof (cases cmd)
      case None
      then show ?thesis using Inr by (intro exI [of _ "[]"] exI [of _ q]) simp
    next
      case (Some c)
      have codec: "client_codec enc decode c" using Cons.prems(2) Inr Some by simp
      obtain r q1 where r: "client_response C decode (enc \<lparr>command = Some c\<rparr>) q = (r, q1)"
        "set_reply (contents q) c r (contents q1)" "ready q1 (length (line_commands lines))"
        using response_served [OF _ codec, of q "length (line_commands lines)"] Cons.prems(1) Inr Some by auto
      have "\<And>c. c \<in> set (line_commands lines) \<Longrightarrow> client_codec enc decode c"
        using Cons.prems(2) Inr Some by simp
      from Cons.IH [OF r(3) this] obtain rs q' where
        rs: "set_session (contents q1) (line_commands lines) rs (contents q')"
        "(\<forall>r \<in> set rs. length r < 2 ^ 32) \<longrightarrow>
          (\<exists>out. run_interactive (loopback C decode) enc lines ([], q1) = (Inr (), out, ([], q')) \<and>
            printed out = map as_bytes rs)" by blast
      then show ?thesis
        using Inr Some r(2) exchange_loopback [OF codec r(1)]
        by (intro exI [of _ "r # rs"] exI [of _ q']) auto
    qed
  qed
qed

end

subsection \<open>The engine behind its channel\<close>

text \<open>The engine serves its channel in order, so a request of a client alone on the server is handled as
  soon as it is sent; a \<^verbatim>\<open>oneshot\<close> gets the response.  \<open>rng\<close> gives the strategy's random choices.\<close>

record ('c, 'd, 's) live_server =
  sw_open :: bool
  sw_engine :: "('c, 'd) CrdtEngine"
  sw_store :: 's
  sw_response :: "response option"
  sw_served :: nat

definition live_send ::
  "('c, 'op, 'dl, 'h, 'd, 's) engine_env \<Rightarrow> (nat \<Rightarrow> nat) \<Rightarrow> 'op CrdtEngineRequest
     \<Rightarrow> (('c, 'd, 's) live_server, string, unit) call" where
  "live_send E rng rq srv =
     (if \<not> sw_open srv then (Inl ''channel closed'', srv)
      else (case handle_request E (rng (sw_served srv)) rq (sw_engine srv, sw_store srv) of
              (r, eng, s) \<Rightarrow> (Inr (), srv\<lparr>sw_engine := eng, sw_store := s, sw_response := r,
                                          sw_served := Suc (sw_served srv)\<rparr>)))"

definition live_reply :: "(('c, 'd, 's) live_server, string, string) call" where
  "live_reply srv =
     (case sw_response srv of
        Some (Text t) \<Rightarrow> (Inr t, srv\<lparr>sw_response := None\<rparr>)
      | _ \<Rightarrow> (Inl ''channel closed'', srv))"

definition live_channel ::
  "('c, 'op, 'dl, 'h, 'd, 's) engine_env \<Rightarrow> (nat \<Rightarrow> nat) \<Rightarrow> ('op, ('c, 'd, 's) live_server) engine_channel" where
  "live_channel E rng = \<lparr>ec_send = live_send E rng, ec_reply = live_reply\<rparr>"

text \<open>The state of a replica that only its own clock numbers: every dot of its own is at most its counter.\<close>

definition own_dots :: "NodeId \<Rightarrow> Counter \<Rightarrow> 'e OrSet \<Rightarrow> bool" where
  "own_dots nid c s \<longleftrightarrow> orset_inv s \<and> (\<forall>e e' a. (e, a) \<in> live s \<longrightarrow> (e', a) \<in> live s \<longrightarrow> e = e') \<and>
     (\<forall>a. a \<in> dead s \<or> (\<exists>e. (e, a) \<in> live s) \<longrightarrow> node_id a = nid \<longrightarrow> counter a \<le> c)"

definition server_ready :: "(string OrSet, 'd, 's) live_server \<Rightarrow> nat \<Rightarrow> bool" where
  "server_ready srv n \<longleftrightarrow> sw_open srv \<and>
     (let d = dvv_dot (eng_dvv (sw_engine srv)) in
        own_dots (node_id d) (counter d) (eng_crdt (sw_engine srv)) \<and> unat (counter d) + n < 2 ^ 64)"

definition server_contents :: "(string OrSet, 'd, 's) live_server \<Rightarrow> string set" where
  "server_contents srv = {e. contains (eng_crdt (sw_engine srv)) e}"

lemma own_dots_local:
  assumes "own_dots nid c s" "c \<noteq> - 1"
  shows "own_dots nid (c + 1) (apply_local s (Dot_new nid (c + 1)) op) \<and>
    {e. contains (apply_local s (Dot_new nid (c + 1)) op) e} =
      (case op of Add v \<Rightarrow> insert v {e. contains s e} | Remove v \<Rightarrow> {e. contains s e} - {v})"
proof -
  let ?d = "Dot_new nid (c + 1)"
  have less: "c < c + 1" using assms(2) inc_less_eq_triv_imp [of c] by (auto simp: not_le [symmetric])
  have inv: "orset_inv s" and unique: "\<And>e e' a. (e, a) \<in> live s \<Longrightarrow> (e', a) \<in> live s \<Longrightarrow> e = e'"
    and old: "\<And>a. a \<in> dead s \<or> (\<exists>e. (e, a) \<in> live s) \<Longrightarrow> node_id a = nid \<Longrightarrow> counter a \<le> c"
    using assms(1) unfolding own_dots_def by blast+
  have bound: "counter a \<le> c + 1" if "a \<in> dead s \<or> (\<exists>e. (e, a) \<in> live s)" "node_id a = nid" for a
    using old [OF that] less by simp
  have "\<not> (?d \<in> dead s \<or> (\<exists>e. (e, ?d) \<in> live s))"
  proof
    assume "?d \<in> dead s \<or> (\<exists>e. (e, ?d) \<in> live s)"
    from old [OF this] less show False by simp
  qed
  then have fresh: "?d \<notin> dead s" "(e, ?d) \<notin> live s" for e by blast+
  show ?thesis
  proof (cases op)
    case (Add v)
    have i: "orset_inv (apply_local s ?d (Add v))" using inv fresh(1) by (rule orset_inv_add)
    have "counter a \<le> c + 1"
      if "a \<in> dead s \<or> (\<exists>e. (e, a) \<in> insert (v, ?d) (live s))" "node_id a = nid" for a
      using bound [of a] that by (cases "a = ?d") auto
    moreover have "(e, a) \<in> insert (v, ?d) (live s) \<Longrightarrow> (e', a) \<in> insert (v, ?d) (live s) \<Longrightarrow> e = e'" for e e' a
      using unique fresh(2) by (cases "a = ?d") auto
    moreover have "{e. contains (apply_local s ?d (Add v)) e} = insert v {e. contains s e}"
      unfolding contains_iff [OF i] contains_iff [OF inv] live_add by blast
    ultimately show ?thesis
      unfolding Add own_dots_def live_add dead_add OrSetOp.case using i by blast
  next
    case (Remove v)
    have i: "orset_inv (apply_local s ?d (Remove v))" using inv unique by (rule orset_inv_remove)
    have "counter a \<le> c + 1"
      if "a \<in> dead s \<union> {c. (v, c) \<in> live s} \<or> (\<exists>e. (e, a) \<in> {(x, c) \<in> live s. x \<noteq> v})" "node_id a = nid" for a
      using bound [of a] that by blast
    moreover have "(e, a) \<in> {(x, c) \<in> live s. x \<noteq> v} \<Longrightarrow> (e', a) \<in> {(x, c) \<in> live s. x \<noteq> v} \<Longrightarrow> e = e'" for e e' a
      using unique by blast
    moreover have "{e. contains (apply_local s ?d (Remove v)) e} = {e. contains s e} - {v}"
      unfolding contains_iff [OF i] contains_iff [OF inv] live_remove by blast
    ultimately show ?thesis
      unfolding Remove own_dots_def live_remove dead_remove OrSetOp.case using i by blast
  qed
qed

lemma map_insort_key: "map f (insort_key f x xs) = insort (f x) (map f xs)"
  by (induction xs) auto

lemma map_sort_key: "map f (sort_key f xs) = sort (map f xs)"
  by (induction xs) (simp_all add: map_insort_key)

lemma printed_state:
  assumes "orset_inv s"
  shows "printed_set {e. contains s e} (orset_print_state string_debug s)"
  unfolding printed_set_def orset_print_state_def map_sort_key
proof (intro exI [of _ "elements s"] conjI)
  show "distinct (elements s)" by (rule distinct_elements [OF assms])
  show "set (elements s) = {e. contains s e}"
    unfolding set_elements [OF assms] contains_iff [OF assms] by (auto intro: rev_image_eqI)
qed (rule refl)

lemma live_operation:
  assumes "server_ready srv (Suc n)"
  shows "\<exists>srv'. live_send (or_set_env pe pd strat reg G m) rng (ClientOperation op) srv = (Inr (), srv') \<and>
    server_contents srv' = (case op of Add v \<Rightarrow> insert v (server_contents srv) | Remove v \<Rightarrow> server_contents srv - {v}) \<and>
    server_ready srv' n"
proof -
  let ?d = "dvv_dot (eng_dvv (sw_engine srv))"
  have r: "sw_open srv" "own_dots (node_id ?d) (counter ?d) (eng_crdt (sw_engine srv))"
    "unat (counter ?d) + Suc n < 2 ^ 64"
    using assms by (simp_all add: server_ready_def Let_def)
  have "unat (- 1 :: u64) = 2 ^ 64 - 1" by (simp add: unsigned_minus_1_eq_mask mask_eq_exp_minus_1)
  then have room: "counter ?d \<noteq> - 1" using r(3) by auto
  then have "unat (counter ?d + 1) = unat (counter ?d) + 1" by (simp add: unat_succ)
  then show ?thesis
    using r own_dots_local [OF r(2) room, of op, THEN conjunct1] own_dots_local [OF r(2) room, of op, THEN conjunct2]
    by (cases op) (simp_all add: live_send_def server_ready_def server_contents_def or_set_crdt_def Let_def)
qed

lemma live_asked:
  assumes "\<And>k. handle_request E k rq (sw_engine srv, sw_store srv) = (Some (Text t), sw_engine srv, sw_store srv)"
    and "server_ready srv n"
  shows "\<exists>s1 s2. live_send E rng rq srv = (Inr (), s1) \<and> live_reply s1 = (Inr t, s2) \<and>
    server_contents s2 = server_contents srv \<and> server_ready s2 n"
  using assms by (simp add: live_send_def live_reply_def server_contents_def server_ready_def)

lemma random_element:
  assumes "orset_inv s"
  shows "if {e. contains s e} = {} then unwrap_or (get_random_element id s) ''error: empty crdt'' = ''error: empty crdt''
    else unwrap_or (get_random_element id s) ''error: empty crdt'' \<in> {e. contains s e}"
proof -
  have "set (elements s) = {e. contains s e}"
    unfolding set_elements [OF assms] contains_iff [OF assms] by force
  then show ?thesis
  proof (cases "elements s")
    case Nil
    then have "{e. contains s e} = {}" using \<open>set (elements s) = _\<close> by simp
    then show ?thesis by (simp add: get_random_element_def unwrap_or_def Nil)
  next
    case (Cons e es)
    then have "e \<in> {e. contains s e}" using \<open>set (elements s) = _\<close> by (metis list.set_intros(1))
    then show ?thesis by (auto simp: get_random_element_def unwrap_or_def Cons)
  qed
qed

lemma live_question:
  assumes ready: "server_ready srv n" and rq: "rq \<in> {GetRandomElement, PrintState, PrintInternals, PrintMatrix}"
  shows "\<exists>s1 s2 t. live_send (or_set_env pe pd strat reg G m) rng rq srv = (Inr (), s1) \<and> live_reply s1 = (Inr t, s2) \<and>
    server_contents s2 = server_contents srv \<and> server_ready s2 n \<and>
    (rq = GetRandomElement \<longrightarrow>
      (if server_contents srv = {} then t = ''error: empty crdt'' else t \<in> server_contents srv)) \<and>
    (rq = PrintState \<longrightarrow> printed_set (server_contents srv) t)"
proof -
  let ?E = "or_set_env pe pd strat reg G m" and ?s = "eng_crdt (sw_engine srv)"
  have inv: "orset_inv ?s" using ready by (simp add: server_ready_def own_dots_def Let_def)
  note asked = live_asked [OF _ ready, of ?E rq _ rng]
  from rq consider "rq = GetRandomElement" | "rq = PrintState" | "rq = PrintInternals" | "rq = PrintMatrix" by blast
  then show ?thesis
  proof cases
    case 1
    have "handle_request ?E k rq (sw_engine srv, sw_store srv) =
        (Some (Text (unwrap_or (get_random_element id ?s) ''error: empty crdt'')), sw_engine srv, sw_store srv)" for k
      by (simp add: 1 or_set_crdt_def)
    from asked [OF this] show ?thesis
      using random_element [OF inv] unfolding server_contents_def 1 by blast
  next
    case 2
    have "handle_request ?E k rq (sw_engine srv, sw_store srv) =
        (Some (Text (orset_print_state string_debug ?s)), sw_engine srv, sw_store srv)" for k
      by (simp add: 2 or_set_crdt_def)
    from asked [OF this] show ?thesis
      using printed_state [OF inv] unfolding server_contents_def 2 by blast
  next
    case 3
    show ?thesis using asked [of "orset_print_internals string_debug ?s"] unfolding 3 by (simp add: or_set_crdt_def) blast
  next
    case 4
    show ?thesis using asked [of "print_matrix_clock (eng_gc (sw_engine srv))"] unfolding 4
      by (simp add: or_set_env_def) blast
  qed
qed

interpretation live_set: served_set "live_channel (or_set_env pe pd strat reg G m) rng" server_contents server_ready
  for pe pd strat reg G m rng
proof (unfold_locales, unfold live_channel_def engine_channel.simps, goal_cases)
  case (1 srv n)
  then show ?case by (simp add: server_ready_def Let_def)
next
  case (2 srv n v)
  show ?case using live_operation [OF 2, of pe pd strat reg G m rng "Add v"] by simp
next
  case (3 srv n v)
  show ?case using live_operation [OF 3, of pe pd strat reg G m rng "Remove v"] by simp
next
  case (4 srv n rq)
  then show ?case by (rule live_question)
qed

lemma net_run_ready:
  assumes "net_run (server_env pe pd G m) string_op cid OrSet_new S" "pb_documented pe pd"
    and "sw_open srv" "sw_engine srv = replica S i" "unat (know S i i) + n < 2 ^ 64"
  shows "server_ready srv n" "server_contents srv = {e. observed_remove (history S) (know S i) e}"
proof -
  note inv = net_run_inv [OF assms(1,2)]
  note eng = push_pull_replication.inv_engine [OF inv]
  let ?s = "eng_crdt (replica S i)"
  note rep = eng(6) [of i] and hist = eng(8)
  have own: "counter (dvv_dot (eng_dvv (replica S i))) = know S i i"
    using effective_counter_own [OF eng(3) [of i]] by (simp add: know_def eng(2))
  have known_dot: "counter a \<le> know S i i" if "history S a \<noteq> None" "node_id a = i" for a
    using hist [OF that(1)] that(2) by simp
  have "history S a \<noteq> None" if "(e, a) \<in> live ?s" for e a
    using represents_live_added [OF rep that] by auto
  moreover have "history S a \<noteq> None" if "a \<in> dead ?s" for a
  proof -
    from that obtain x e s' where "history S x = Some (Remove e, s')" "(e, a) \<in> live s'"
      using represents_dead [OF rep] unfolding removed_def by blast
    then show ?thesis using representsD(2) [OF rep] unfolding history_ok_def by fastforce
  qed
  moreover have "e = e'" if "(e, a) \<in> live ?s" "(e', a) \<in> live ?s" for e e' a
    using represents_live_added [OF rep that(1)] represents_live_added [OF rep that(2)] by auto
  ultimately have "own_dots i (know S i i) ?s"
    unfolding own_dots_def using representsD(3) [OF rep] known_dot by blast
  then show "server_ready srv n" using assms(3-5) by (simp add: server_ready_def own eng(2))
  show "server_contents srv = {e. observed_remove (history S) (know S i) e}"
    using represents_contains [OF rep] by (simp add: server_contents_def assms(4))
qed

text \<open>The benchmark stops after the number of requests it was given, and never starts with a removal.\<close>

lemma run_bench_count:
  assumes "\<And>msg k. \<exists>r k'. exchange K msg k = (Inr r, k')" "unat count + length choices < 2 ^ 64"
  shows "fst (run_bench K enc (Some n) choices count k) = Inr (if n \<le> count then count
    else min n (count + word_of_nat (length choices)))"
  using assms(2)
proof (induction choices arbitrary: count k)
  case (Cons choice choices)
  obtain key coin where choice: "choice = (key, coin)" by fastforce
  show ?case
  proof (cases "n \<le> count")
    case False
    obtain r k' where r: "exchange K (send_command enc (bench_command count key coin)) k = (Inr r, k')"
      using assms(1) by blast
    have less: "count < n" using False by simp
    then have room: "count \<noteq> - 1" by auto
    have succ: "unat (count + 1) = unat count + 1" using room by (simp add: unat_succ)
    have "count + 1 \<le> n" using less by (rule inc_le)
    moreover have "count + 1 + word_of_nat (length choices) = count + word_of_nat (length (choice # choices))"
      by (simp add: algebra_simps)
    moreover have "min n (count + word_of_nat (length (choice # choices))) = n" if "n = count + 1"
    proof -
      have "unat (count + word_of_nat (length (choice # choices))) = unat count + length (choice # choices)"
        using Cons.prems by (simp add: unat_word_ariths unsigned_of_nat take_bit_eq_mod)
      then have "n \<le> count + word_of_nat (length (choice # choices))"
        using succ that by (simp add: word_le_nat_alt)
      then show ?thesis by simp
    qed
    ultimately show ?thesis
      using Cons.IH [of "count + 1" k'] Cons.prems r False succ
      by (auto simp: choice add.assoc)
  qed (simp add: choice)
qed (auto simp: min_def)

lemma bench_starts_with_add: "\<exists>v. bench_command 0 key coin = CmdAdd v"
  by (simp add: bench_command_def)

subsection \<open>Properties\<close>


text \<open>The server of node \<open>A\<close> in the small execution, and a codec for the one command of the witnesses.\<close>

definition demo_server where
  "demo_server = \<lparr>sw_open = True, sw_engine = replica demo_added ''A'', sw_store = (), sw_response = None, sw_served = 0\<rparr>"

lemma demo_codec:
  "client_codec (\<lambda>_. [5]) (\<lambda>_. Inr \<lparr>command = Some (CmdRemove ''x'')\<rparr>) (CmdRemove ''x'')"
  by (simp add: client_codec_def)

lemma demo_know_A: "know demo_added ''A'' ''A'' = 1"
  by (simp add: know_def demo_added_A effective_counter_event)


text \<open>The interactive client against such a server.  For every list of typed lines, the client prints
  one reply for each line that is a command, up to the first \<^verbatim>\<open>quit\<close> or the end of the input, and
  the replies are those of the sequential set, as long as none is longer than the 4 GiB of a frame.\<close>

theorem interactive_session:
  fixes srv :: "(string OrSet, 'd, 's) live_server"
  assumes "server_ready srv (length (line_commands lines))"
    and "\<And>c. c \<in> set (line_commands lines) \<Longrightarrow> client_codec enc decode c"
  shows "\<exists>rs srv'. set_session {e. contains (eng_crdt (sw_engine srv)) e} (line_commands lines) rs
      {e. contains (eng_crdt (sw_engine srv')) e} \<and>
    ((\<forall>r \<in> set rs. length r < 2 ^ 32) \<longrightarrow>
      (\<exists>out. run_interactive (loopback (live_channel (or_set_env pe pd strat reg G m) rng) decode) enc lines ([], srv)
          = (Inr (), out, ([], srv')) \<and> printed out = map as_bytes rs))"
  using live_set.interactive_served [OF assms, where pe = pe and pd = pd and strat = strat and reg = reg
      and G = G and m = m and rng = rng]
  unfolding server_contents_def by blast

theorem interactive_session_witness:
  "\<exists>out srv'. run_interactive (loopback (live_channel demo_env (\<lambda>_. 0)) (\<lambda>_. Inr \<lparr>command = Some (CmdRemove ''x'')\<rparr>))
      (\<lambda>_. [5]) ['' remove x'', ''bogus'', ''quit'', ''add y''] ([], demo_server) = (Inr (), out, ([], srv')) \<and>
    printed out = [as_bytes ''ok''] \<and> \<not> contains (eng_crdt (sw_engine srv')) ''x''"
proof -
  have cs: "line_commands ['' remove x'', ''bogus'', ''quit'', ''add y''] = [CmdRemove ''x'']" by code_simp
  have "server_ready demo_server (length (line_commands ['' remove x'', ''bogus'', ''quit'', ''add y'']))"
    unfolding cs
    by (rule net_run_ready(1) [OF demo_run_added [unfolded demo_env_def] mem_pb_documented', of _ "''A''"])
      (simp_all add: demo_server_def demo_know_A)
  moreover have "client_codec (\<lambda>_. [5]) (\<lambda>_. Inr \<lparr>command = Some (CmdRemove ''x'')\<rparr>) c"
    if "c \<in> set (line_commands ['' remove x'', ''bogus'', ''quit'', ''add y''])" for c
    using that demo_codec unfolding cs by simp
  ultimately obtain rs srv' where rs: "set_session {e. contains (eng_crdt (sw_engine demo_server)) e} [CmdRemove ''x''] rs
      {e. contains (eng_crdt (sw_engine srv')) e}"
    "(\<forall>r \<in> set rs. length r < 2 ^ 32) \<longrightarrow>
      (\<exists>out. run_interactive (loopback (live_channel demo_env (\<lambda>_. 0)) (\<lambda>_. Inr \<lparr>command = Some (CmdRemove ''x'')\<rparr>))
          (\<lambda>_. [5]) ['' remove x'', ''bogus'', ''quit'', ''add y''] ([], demo_server)
          = (Inr (), out, ([], srv')) \<and> printed out = map as_bytes rs)"
    using interactive_session [of demo_server "['' remove x'', ''bogus'', ''quit'', ''add y'']"
        "\<lambda>_. [5]" "\<lambda>_. Inr \<lparr>command = Some (CmdRemove ''x'')\<rparr>"] unfolding cs demo_env_def by blast
  from rs(1) have "rs = [''ok'']" "\<not> contains (eng_crdt (sw_engine srv')) ''x''"
    by (cases rs; auto simp: set_reply_def; cases "tl rs"; auto)+
  with rs(2) show ?thesis by auto
qed

text \<open>A client is told of every failure.  When the engine is gone, whatever message arrives is answered
  with a text that starts with \<^verbatim>\<open>error:\<close> and changes nothing; so is a message that does not decode or
  has no command, on any server, and the session goes on with the next message.\<close>

theorem session_errors:
  "(\<not> sw_open srv \<longrightarrow> (\<exists>e. client_response (live_channel E rng) decode msg srv = (''error: '' @ e, srv))) \<and>
   (decode msg = Inl e \<longrightarrow> client_response C decode msg q = (''error: '' @ e, q)) \<and>
   (decode msg = Inr \<lparr>command = None\<rparr> \<longrightarrow> client_response C decode msg q = (''error: empty command'', q)) \<and>
   (length msg < 2 ^ 32 \<and> decode msg = Inl e \<longrightarrow>
     serve_client C decode log_write (write_response msg @ rest) (w, q) =
       serve_client C decode log_write rest (w @ write_response (as_bytes (''error: '' @ e)), q))"
proof (intro conjI impI)
  assume "\<not> sw_open srv"
  then show "\<exists>e. client_response (live_channel E rng) decode msg srv = (''error: '' @ e, srv)"
    by (auto simp: client_response_def live_channel_def live_send_def send_engine_request_def
        send_engine_request_and_wait_response_def starts_with_def split: sum.splits option.splits Command.splits)
next
  assume "length msg < 2 ^ 32 \<and> decode msg = Inl e"
  then show "serve_client C decode log_write (write_response msg @ rest) (w, q) =
      serve_client C decode log_write rest (w @ write_response (as_bytes (''error: '' @ e)), q)"
    using client_frames.unframe_frame [of msg rest]
    by (subst serve_client.simps) (simp add: client_response_def send_reply_log)
qed (simp_all add: client_response_def)

theorem session_errors_witness:
  "(\<exists>e. client_response (live_channel demo_env (\<lambda>_. 0)) (\<lambda>_. Inr \<lparr>command = Some (CmdAdd ''y'')\<rparr>) [5]
      (demo_server\<lparr>sw_open := False\<rparr>) = (''error: '' @ e, demo_server\<lparr>sw_open := False\<rparr>)) \<and>
   client_response (live_channel demo_env (\<lambda>_. 0)) (\<lambda>_. Inl ''bad'') [5] demo_server = (''error: bad'', demo_server)"
  using session_errors [of "demo_server\<lparr>sw_open := False\<rparr>" demo_env "\<lambda>_. 0"
      "\<lambda>_. Inr \<lparr>command = Some (CmdAdd ''y'')\<rparr>" "[5]", THEN conjunct1, THEN mp]
    session_errors [where C = "live_channel demo_env (\<lambda>_. 0)" and decode = "\<lambda>_. Inl ''bad''" and e = "''bad''" and msg = "[5]"
      and q = demo_server, THEN conjunct2, THEN conjunct1, THEN mp]
  by simp

text \<open>What the command line accepts: surrounding white space is dropped, the value of \<^verbatim>\<open>add\<close> and
  \<^verbatim>\<open>remove\<close> is everything after the first space (spaces inside it are kept), the other commands take
  no argument, only a blank line is ignored silently, and everything else is reported.\<close>

theorem parse_line_accepts:
  "(parse_line line = Inr (Some (CmdAdd v)) \<longleftrightarrow> trim line = ''add '' @ v) \<and>
   (parse_line line = Inr (Some (CmdRemove v)) \<longleftrightarrow> trim line = ''remove '' @ v) \<and>
   (parse_line line = Inr (Some (CmdRemoveRandom b)) \<longleftrightarrow> b \<and> trim line = ''remove-random'') \<and>
   (parse_line line = Inr (Some (CmdPrintState b)) \<longleftrightarrow> b \<and> trim line = ''print-state'') \<and>
   (parse_line line = Inr None \<longleftrightarrow> trim line = ''quit'' \<or> trim line = ''exit'') \<and>
   (parse_line line = Inl [] \<longleftrightarrow> trim line = [])"
proof (cases "split_once '' '' (trim line)")
  case None
  then have "trim line \<noteq> ''add '' @ v" "trim line \<noteq> ''remove '' @ v" by auto
  with None show ?thesis by (auto simp: parse_line_def numeral_2_eq_2)
next
  case (Some p)
  obtain a b where p: "p = (a, b)" by fastforce
  have eq: "trim line = a @ '' '' @ b" using split_once_Some [of "'' ''"] Some p by blast
  have free: "CHR '' '' \<notin> set a" using split_once_char_free Some p by metis
  have iff: "trim line = k @ '' '' @ v \<longleftrightarrow> a = k \<and> b = v" if "CHR '' '' \<notin> set k" for k v
    using that free unfolding eq by (metis append_Cons append_Nil split_at_append list.inject append_same_eq same_append_eq split_once_char option.inject prod.inject)
  show ?thesis
    using Some p iff [of "''add''" v] iff [of "''remove''" v] eq by (auto simp: parse_line_def numeral_2_eq_2)
qed

end
