(* ===== verification/Discovery.thy ===== *)
theory Discovery
  imports GC_Storage Peers
begin

text \<open>
  Discovery and live membership, \<^verbatim>\<open>src/peers/discovery.rs\<close>: registration keys and their parser,
  the listing of live members, registering and deregistering, and one round of the reconciliation
  loop, which drives the peer tables.

  A time stamp is of a type \<open>'d\<close> with two arguments, \<open>timestamp_millis\<close> and
  \<open>from_timestamp_millis\<close> (the chrono library); \<open>expires\<close> is the clock reading plus the configured
  time to live, \<open>None\<close> when the duration does not fit.  The rest of the state is in the bucket.
\<close>

named_theorems disc_simps \<open>parsing and listing registrations\<close>

record DiscoveryConfig =
  dc_endpoint :: string
  dc_bucket :: string
  dc_region :: string
  dc_access_key :: string
  dc_secret_key :: string
  dc_poll_interval :: nat
  dc_registration_ttl :: nat
  dc_gc_replica :: bool
  dc_connect_node_ids :: "NodeId hset option"

record 'd NodeRegistration =
  reg_node_id :: NodeId
  reg_node_name :: string
  reg_addr :: string
  reg_gc_replica :: bool
  reg_expires_at :: 'd

record Discovery =
  disc_config :: DiscoveryConfig
  disc_node_id :: NodeId
  disc_listen_host :: string
  disc_listen_port :: string

subsection \<open>Registration keys\<close>

definition DISCOVERY_NODES_PREFIX :: string where
  "DISCOVERY_NODES_PREFIX = ''nodes/''"

definition FINAL_DOTS_PREFIX :: string where
  "FINAL_DOTS_PREFIX = ''final_dots/''"

definition registration_key :: "('d \<Rightarrow> int) \<Rightarrow> NodeId \<Rightarrow> 'd \<Rightarrow> bool \<Rightarrow> string \<Rightarrow> string" where
  "registration_key timestamp_millis nid expires_at is_gc addr =
     DISCOVERY_NODES_PREFIX @ nid @ ''__'' @ (if is_gc then ''1'' else ''0'') @ ''__'' @ addr @ ''__''
       @ show_int (timestamp_millis expires_at) @ ''.json''"

definition registration_key_prefix :: "NodeId \<Rightarrow> string" where
  "registration_key_prefix nid = DISCOVERY_NODES_PREFIX @ nid @ ''__''"

definition parse_registration_key ::
  "(int \<Rightarrow> 'd option) \<Rightarrow> string \<Rightarrow> (anyhow, 'd NodeRegistration) result" where
  "parse_registration_key from_timestamp_millis key =
     (case strip_prefix DISCOVERY_NODES_PREFIX key of
        None \<Rightarrow> Inl (BadKey ''invalid discovery key prefix'')
      | Some rest \<Rightarrow>
     (case strip_suffix ''.json'' rest of
        None \<Rightarrow> Inl (BadKey ''invalid discovery key suffix'')
      | Some stem \<Rightarrow>
        let parts = splitn 4 ''__'' stem in
     (case parts of
        [] \<Rightarrow> Inl (BadKey ''missing node_id in discovery key'')
      | nid # parts1 \<Rightarrow>
        if nid = [] then Inl (BadKey ''missing node_id in discovery key'')
        else
     (case parts1 of
        [] \<Rightarrow> Inl (BadKey ''missing gc_replica in discovery key'')
      | marker # parts2 \<Rightarrow>
        if marker \<noteq> ''1'' \<and> marker \<noteq> ''0'' then Inl (BadKey ''invalid gc_replica marker'')
        else
     (case parts2 of
        [] \<Rightarrow> Inl (BadKey ''missing socket address in discovery key'')
      | addr # parts3 \<Rightarrow>
     (case parts3 of
        [] \<Rightarrow> Inl (BadKey ''missing ttl timestamp in discovery key'')
      | ms # _ \<Rightarrow>
     (case parse_i64 ms of
        None \<Rightarrow> Inl (BadKey ''invalid digit'')
      | Some expires_millis \<Rightarrow>
     (case from_timestamp_millis expires_millis of
        None \<Rightarrow> Inl (BadKey ''invalid ttl timestamp in discovery key'')
      | Some expires_at \<Rightarrow>
          Inr \<lparr>reg_node_id = nid, reg_node_name = nid, reg_addr = addr,
               reg_gc_replica = (marker = ''1''), reg_expires_at = expires_at\<rparr>))))))))"

subsection \<open>Live members\<close>

definition registrations_by_node ::
  "(int \<Rightarrow> 'd option) \<Rightarrow> string list \<Rightarrow> (NodeId, 'd NodeRegistration) hmap" where
  "registrations_by_node from_timestamp_millis keys =
     fold (\<lambda>key by_node. case parse_registration_key from_timestamp_millis key of
             Inr reg_key \<Rightarrow> hm_insert (reg_node_id reg_key) reg_key by_node
           | Inl _ \<Rightarrow> by_node) keys []"

definition list_live_registrations ::
  "nat \<Rightarrow> (int \<Rightarrow> 'd option) \<Rightarrow> 's S3 \<Rightarrow> string \<Rightarrow> ('s, anyhow, 'd NodeRegistration list) call" where
  "list_live_registrations fuel from_ts s3 bkt =
     and_then (list_object_keys fuel s3 bkt DISCOVERY_NODES_PREFIX)
       (\<lambda>keys. return_ok (hm_values (registrations_by_node from_ts keys)))"

definition list_live_node_ids ::
  "nat \<Rightarrow> (int \<Rightarrow> 'd option) \<Rightarrow> 's S3 \<Rightarrow> string \<Rightarrow> ('s, anyhow, NodeId list) call" where
  "list_live_node_ids fuel from_ts s3 bkt =
     and_then (list_live_registrations fuel from_ts s3 bkt)
       (\<lambda>regs. return_ok (remdups_adj (sort (map reg_node_id regs))))"

text \<open>\<^verbatim>\<open>DiscoveryMembershipProvider::live_members\<close> of \<^verbatim>\<open>src/gc/coordinator.rs\<close>.\<close>

definition live_members ::
  "nat \<Rightarrow> (int \<Rightarrow> 'd option) \<Rightarrow> 's S3 \<Rightarrow> string \<Rightarrow> ('s, anyhow, NodeId list) call" where
  "live_members fuel from_ts s3 bkt =
     and_then (list_live_node_ids fuel from_ts s3 bkt)
       (\<lambda>regs. return_ok (remdups_adj (sort regs)))"

subsection \<open>The discovery service\<close>

definition discovery_new ::
  "'s S3 \<Rightarrow> DiscoveryConfig \<Rightarrow> NodeId \<Rightarrow> string \<Rightarrow> string \<Rightarrow> ('s, anyhow, Discovery) call" where
  "discovery_new s3 config nid listen_host listen_port =
     and_then (ensure_bucket s3 (dc_bucket config))
       (\<lambda>_. return_ok \<lparr>disc_config = config, disc_node_id = nid,
                      disc_listen_host = listen_host, disc_listen_port = listen_port\<rparr>)"

definition register ::
  "nat \<Rightarrow> ('d \<Rightarrow> int) \<Rightarrow> (nat \<Rightarrow> 'd option) \<Rightarrow> bytes \<Rightarrow> 's S3 \<Rightarrow> Discovery \<Rightarrow> ('s, anyhow, unit) call" where
  "register fuel timestamp_millis expires body s3 self = (\<lambda>s.
     case expires (dc_registration_ttl (disc_config self)) of
       None \<Rightarrow> (Inl BadDuration, s)
     | Some expires_at \<Rightarrow>
         let listen_addr = disc_listen_host self @ '':'' @ disc_listen_port self;
             key = registration_key timestamp_millis (disc_node_id self) expires_at
                     (dc_gc_replica (disc_config self)) listen_addr
         in and_then (list_object_keys fuel s3 (dc_bucket (disc_config self))
                        (registration_key_prefix (disc_node_id self)))
              (\<lambda>current_keys.
                 if current_keys = []
                 then put_object s3 (dc_bucket (disc_config self)) key body ''application/json''
                 else return_ok ()) s)"

definition delete_all :: "'s S3 \<Rightarrow> string \<Rightarrow> string list \<Rightarrow> 's \<Rightarrow> 's" where
  "delete_all s3 bkt keys s = fold (\<lambda>old_key. ignore_err (delete_object s3 bkt old_key)) keys s"

definition final_dot_key :: "string \<Rightarrow> NodeId \<Rightarrow> Counter \<Rightarrow> string" where
  "final_dot_key prefix nid final_dot =
     prefix @ ''/'' @ FINAL_DOTS_PREFIX @ nid @ ''_'' @ show_nat (unat final_dot) @ ''.json''"

definition deregister ::
  "nat \<Rightarrow> 's S3 \<Rightarrow> Discovery \<Rightarrow> string \<Rightarrow> Counter \<Rightarrow> bytes \<Rightarrow> ('s, anyhow, unit) call" where
  "deregister fuel s3 self prefix final_dot final_state =
     and_then (list_object_keys fuel s3 (dc_bucket (disc_config self))
                 (registration_key_prefix (disc_node_id self)))
       (\<lambda>current_keys.
          and_then (put_object s3 (dc_bucket (disc_config self))
                      (final_dot_key prefix (disc_node_id self) final_dot) final_state ''application/json'')
            (\<lambda>_ s. (Inr (), delete_all s3 (dc_bucket (disc_config self)) current_keys s)))"

definition list_live_peers ::
  "nat \<Rightarrow> (int \<Rightarrow> 'd option) \<Rightarrow> 's S3 \<Rightarrow> Discovery \<Rightarrow> ('s, anyhow, 'd NodeRegistration list) call" where
  "list_live_peers fuel from_ts s3 self =
     and_then (list_live_registrations fuel from_ts s3 (dc_bucket (disc_config self)))
       (\<lambda>regs.
          let all = filter (\<lambda>r. reg_node_id r \<noteq> disc_node_id self) regs in
          return_ok (case dc_connect_node_ids (disc_config self) of
                       Some allowed_ids \<Rightarrow> filter (\<lambda>r. reg_node_id r \<in> set allowed_ids) all
                     | None \<Rightarrow> all))"

definition reconcile ::
  "bool \<Rightarrow> (string \<Rightarrow> 'j) \<Rightarrow> NodeId \<Rightarrow> 'd NodeRegistration list
     \<Rightarrow> 'j OutboundTasks \<times> 'h PeerRegistry \<Rightarrow> 'j OutboundTasks \<times> 'h PeerRegistry" where
  "reconcile allow_bidirectional spawn_outbound self_id live_peers st =
     (let (tasks, registry) = st;
          desired = hm_collect (map (\<lambda>r. (reg_node_id r, r)) live_peers);
          current = hs_collect (peer_ids registry);
          desired_ids = hs_collect (hm_keys desired);
          tasks1 = fold (\<lambda>nid ts. case hm_get desired nid of
                        Some registration \<Rightarrow>
                          add_peer allow_bidirectional spawn_outbound self_id ts nid (reg_addr registration)
                      | None \<Rightarrow> ts)
                    (filter (\<lambda>n. n \<notin> set current) desired_ids) tasks
      in fold (\<lambda>nid (ts, reg). case remove_peer ts reg nid of (ts', reg', _) \<Rightarrow> (ts', reg'))
           (filter (\<lambda>n. n \<notin> set desired_ids) current) (tasks1, registry))"

definition discovery_round ::
  "nat \<Rightarrow> ('d \<Rightarrow> int) \<Rightarrow> (int \<Rightarrow> 'd option) \<Rightarrow> (nat \<Rightarrow> 'd option) \<Rightarrow> bytes \<Rightarrow> 's S3 \<Rightarrow> Discovery
     \<Rightarrow> bool \<Rightarrow> (string \<Rightarrow> 'j) \<Rightarrow> 'j OutboundTasks \<times> 'h PeerRegistry \<Rightarrow> 's
     \<Rightarrow> ('j OutboundTasks \<times> 'h PeerRegistry) \<times> 's" where
  "discovery_round fuel to_ts from_ts expires body s3 self allow_bidirectional spawn_outbound st s =
     (case register fuel to_ts expires body s3 self s of
        (Inl _, s1) \<Rightarrow> (st, s1)
      | (Inr _, s1) \<Rightarrow> (case list_live_peers fuel from_ts s3 self s1 of
            (Inl _, s2) \<Rightarrow> (st, s2)
          | (Inr live_peers, s2) \<Rightarrow>
              (reconcile allow_bidirectional spawn_outbound (disc_node_id self) live_peers st, s2)))"

subsection \<open>Registration keys are parsed back\<close>

lemma parse_registration_key_printed [disc_simps]:
  assumes "nid \<noteq> []" "free_of_pair CHR ''_'' nid" "free_of_pair CHR ''_'' addr"
    and "from_ts (to_ts d) = Some d" "- (2 ^ 63) \<le> to_ts d" "to_ts d < 2 ^ 63"
  shows "parse_registration_key from_ts (registration_key to_ts nid d is_gc addr)
    = Inr \<lparr>reg_node_id = nid, reg_node_name = nid, reg_addr = addr, reg_gc_replica = is_gc, reg_expires_at = d\<rparr>"
proof -
  let ?m = "if is_gc then ''1'' else ''0''"
  define stem where "stem = nid @ CHR ''_'' # CHR ''_'' # ?m @ CHR ''_'' # CHR ''_'' # addr @
    CHR ''_'' # CHR ''_'' # show_int (to_ts d)"
  have "strip_prefix DISCOVERY_NODES_PREFIX (registration_key to_ts nid d is_gc addr) = Some (stem @ ''.json'')"
    by (simp add: strip_prefix_Some_iff registration_key_def stem_def)
  moreover have "splitn 4 ''__'' stem = [nid, ?m, addr, show_int (to_ts d)]"
    using assms(2,3) by (simp add: stem_def numeral_eq_Suc split_once_pair)
  ultimately show ?thesis
    using assms by (simp add: parse_registration_key_def Let_def parse_i64_show del: splitn.simps)
qed

lemma parse_registration_key_prefix:
  assumes "parse_registration_key from_ts k = Inr r"
  shows "starts_with (registration_key_prefix (reg_node_id r)) k \<and> free_of_pair CHR ''_'' (reg_node_id r)"
proof -
  from assms obtain rest stem where k: "k = DISCOVERY_NODES_PREFIX @ rest" "rest = stem @ ''.json''"
    and parts: "splitn 4 ''__'' stem = reg_node_id r # tl (splitn 4 ''__'' stem)" "tl (splitn 4 ''__'' stem) \<noteq> []"
    by (auto simp: parse_registration_key_def strip_prefix_Some_iff strip_suffix_Some_iff Let_def
        split: option.splits list.splits if_splits)
  then obtain b where "split_once ''__'' stem = Some (reg_node_id r, b)"
    by (auto simp: eval_nat_numeral split: option.splits)
  from split_once_Some [OF this] split_once_pair_free [OF this] show ?thesis
    unfolding k by (auto simp: registration_key_prefix_def starts_with_iff)
qed

subsection \<open>Who is live\<close>

definition registered_nodes ::
  "(int \<Rightarrow> 'd option) \<Rightarrow> ('s \<Rightarrow> objects) \<Rightarrow> string \<Rightarrow> 's \<Rightarrow> NodeId set" where
  "registered_nodes from_ts objs bkt s =
     {n. \<exists>k r. objs s (bkt, k) \<noteq> None \<and> parse_registration_key from_ts k = Inr r \<and> reg_node_id r = n}"

abbreviation insert_registration ::
  "(int \<Rightarrow> 'd option) \<Rightarrow> string \<Rightarrow> (NodeId, 'd NodeRegistration) hmap \<Rightarrow> (NodeId, 'd NodeRegistration) hmap" where
  "insert_registration from_ts key by_node \<equiv>
     (case parse_registration_key from_ts key of
        Inr reg_key \<Rightarrow> hm_insert (reg_node_id reg_key) reg_key by_node | Inl _ \<Rightarrow> by_node)"

lemma fold_registrations_keys:
  "map_of (fold (insert_registration from_ts) keys m) n \<noteq> None \<longleftrightarrow>
     map_of m n \<noteq> None \<or> (\<exists>k r. k \<in> set keys \<and> parse_registration_key from_ts k = Inr r \<and> reg_node_id r = n)"
proof (induction keys arbitrary: m)
  case (Cons k keys)
  show ?case
  proof (cases "parse_registration_key from_ts k")
    case (Inr r)
    then show ?thesis by (simp only: fold_Cons o_apply Cons.IH sum.case list.set) fastforce
  qed (simp only: fold_Cons o_apply Cons.IH sum.case list.set, fastforce)
qed simp

lemma fold_registrations_ids:
  "hm_ok m \<Longrightarrow> (\<And>n r. map_of m n = Some r \<Longrightarrow> reg_node_id r = n) \<Longrightarrow>
   map_of (fold (insert_registration from_ts) keys m) n = Some r \<Longrightarrow>
   reg_node_id r = n"
proof (induction keys arbitrary: m)
  case (Cons k keys)
  show ?case
  proof (rule Cons.IH [of "insert_registration from_ts k m"])
    show "hm_ok (insert_registration from_ts k m)"
      using Cons.prems(1) by (auto simp: distinct_update split: sum.splits)
    show "\<And>n r. map_of (insert_registration from_ts k m) n = Some r \<Longrightarrow> reg_node_id r = n"
      using Cons.prems(2) by (auto simp del: map_of_eq_Some_iff split: sum.splits if_splits)
  qed (use Cons.prems(3) in simp)
qed simp

lemma fold_registrations_ok: "hm_ok m \<Longrightarrow> hm_ok (fold (insert_registration from_ts) keys m)"
  by (induction keys arbitrary: m) (auto simp: distinct_update split: sum.splits)

lemma registrations_by_node_spec:
  "hm_ok (registrations_by_node from_ts keys)"
  "map_of (registrations_by_node from_ts keys) n = Some r \<Longrightarrow> reg_node_id r = n"
  "map_of (registrations_by_node from_ts keys) n \<noteq> None \<longleftrightarrow>
     (\<exists>k r. k \<in> set keys \<and> parse_registration_key from_ts k = Inr r \<and> reg_node_id r = n)"
  unfolding registrations_by_node_def
  using fold_registrations_ok [of "[]" from_ts keys] fold_registrations_ids [of "[]" from_ts keys n r]
    fold_registrations_keys [of from_ts keys "[]" n]
  by simp_all

lemma list_live_registrations_ok:
  assumes "s3_documented fuel s3 objs"
  shows "\<exists>regs. list_live_registrations fuel from_ts s3 b s = (Inr regs, s) \<and> distinct (map reg_node_id regs) \<and>
           set (map reg_node_id regs) = registered_nodes from_ts objs b s"
proof -
  obtain ks where ks: "list_object_keys fuel s3 b DISCOVERY_NODES_PREFIX s = (Inr ks, s)"
    "set ks = {k. objs s (b, k) \<noteq> None \<and> starts_with DISCOVERY_NODES_PREFIX k}"
    using list_object_keys_ok [OF assms, of b DISCOVERY_NODES_PREFIX s] by blast
  let ?m = "registrations_by_node from_ts ks"
  note spec = registrations_by_node_spec [of from_ts ks]
  have "reg_node_id (snd x) = fst x" if "x \<in> set ?m" for x
    using spec(2) [of "fst x" "snd x"] map_of_is_SomeI [OF spec(1), of "fst x" "snd x"] that by simp
  then have ids: "map reg_node_id (hm_values ?m) = hm_keys ?m" by simp
  have nodes: "starts_with DISCOVERY_NODES_PREFIX k" if "parse_registration_key from_ts k = Inr r" for k r
    using parse_registration_key_prefix [OF that]
    by (auto simp: registration_key_prefix_def starts_with_iff)
  have "n \<in> set (hm_keys ?m) \<longleftrightarrow> map_of ?m n \<noteq> None" for n
    by (simp add: map_of_eq_None_iff)
  then have "set (hm_keys ?m) = registered_nodes from_ts objs b s"
    using spec(3) nodes unfolding ks(2) registered_nodes_def by blast
  with ids spec(1) ks(1) show ?thesis
    by (auto simp: list_live_registrations_def simp del: set_map map_map)
qed

lemma live_members_ok:
  assumes "s3_documented fuel s3 objs"
  shows "\<exists>ms. live_members fuel from_ts s3 b s = (Inr ms, s) \<and> sorted ms \<and> distinct ms \<and>
           set ms = registered_nodes from_ts objs b s"
proof -
  obtain regs where regs: "list_live_registrations fuel from_ts s3 b s = (Inr regs, s)"
    "distinct (map reg_node_id regs)" "set (map reg_node_id regs) = registered_nodes from_ts objs b s"
    using list_live_registrations_ok [OF assms] by blast
  let ?ms = "sort (map reg_node_id regs)"
  have "remdups_adj ?ms = ?ms" using regs(2) by (simp add: remdups_adj_distinct)
  moreover have "sort ?ms = ?ms" by (simp add: sort_key_id_if_sorted)
  ultimately show ?thesis
    using regs by (intro exI [of _ ?ms]) (simp add: live_members_def list_live_node_ids_def)
qed

subsection \<open>Joining and leaving\<close>

lemma objs_delete_all:
  assumes "s3_documented fuel s3 objs"
  shows "objs (delete_all s3 b ks s) = (\<lambda>(b', k). if b' = b \<and> k \<in> set ks then None else objs s (b', k))"
proof (induction ks arbitrary: s)
  case (Cons k ks)
  obtain s' where "delete_object s3 b k s = (Inr (), s')" "objs s' = (objs s)((b, k) := None)"
    using delete_object_ok [OF assms] by blast
  with Cons [of s'] show ?case
    by (auto simp: delete_all_def ignore_err_def fun_eq_iff)
qed (simp add: delete_all_def)

lemma register_ok:
  assumes "s3_documented fuel s3 objs" "expires (dc_registration_ttl (disc_config self)) = Some d"
    and fresh: "\<And>k. starts_with (registration_key_prefix (disc_node_id self)) k \<Longrightarrow>
      objs s (dc_bucket (disc_config self), k) = None"
  shows "\<exists>s'. register fuel to_ts expires body s3 self s = (Inr (), s') \<and>
    objs s' = (objs s)((dc_bucket (disc_config self), registration_key to_ts (disc_node_id self) d
      (dc_gc_replica (disc_config self)) (disc_listen_host self @ '':'' @ disc_listen_port self)) \<mapsto> body)"
proof -
  have "list_object_keys fuel s3 (dc_bucket (disc_config self)) (registration_key_prefix (disc_node_id self)) s
      = (Inr [], s)"
    using list_object_keys_ok [OF assms(1), of "dc_bucket (disc_config self)"
        "registration_key_prefix (disc_node_id self)" s] fresh by (auto simp: set_empty [symmetric] simp del: set_empty)
  then show ?thesis
    using put_object_ok [OF assms(1)] assms(2) by (simp add: register_def Let_def)
qed

lemma register_again:
  assumes "s3_documented fuel s3 objs" "expires (dc_registration_ttl (disc_config self)) = Some d"
    and "objs s (dc_bucket (disc_config self), k) \<noteq> None"
    and "starts_with (registration_key_prefix (disc_node_id self)) k"
  shows "register fuel to_ts expires body s3 self s = (Inr (), s)"
proof -
  obtain ks where "list_object_keys fuel s3 (dc_bucket (disc_config self))
      (registration_key_prefix (disc_node_id self)) s = (Inr ks, s)" "k \<in> set ks"
    using list_object_keys_ok [OF assms(1), of "dc_bucket (disc_config self)"
        "registration_key_prefix (disc_node_id self)" s] assms(3,4) by auto
  then show ?thesis using assms(2) by (auto simp: register_def Let_def)
qed

lemma deregister_ok:
  assumes "s3_documented fuel s3 objs"
  shows "\<exists>s'. deregister fuel s3 self prefix n final_state s = (Inr (), s') \<and>
    (\<forall>b k. objs s' (b, k) =
       (if b = dc_bucket (disc_config self) \<and> starts_with (registration_key_prefix (disc_node_id self)) k
          \<and> objs s (b, k) \<noteq> None then None
        else if b = dc_bucket (disc_config self) \<and> k = final_dot_key prefix (disc_node_id self) n then Some final_state
        else objs s (b, k)))"
proof -
  let ?b = "dc_bucket (disc_config self)"
  obtain ks where ks: "list_object_keys fuel s3 ?b (registration_key_prefix (disc_node_id self)) s = (Inr ks, s)"
    "set ks = {k. objs s (?b, k) \<noteq> None \<and> starts_with (registration_key_prefix (disc_node_id self)) k}"
    using list_object_keys_ok [OF assms, of ?b "registration_key_prefix (disc_node_id self)" s] by blast
  obtain s1 where s1: "put_object s3 ?b (final_dot_key prefix (disc_node_id self) n) final_state ''application/json'' s
      = (Inr (), s1)" "objs s1 = (objs s)((?b, final_dot_key prefix (disc_node_id self) n) \<mapsto> final_state)"
    using put_object_ok [OF assms] by blast
  have "deregister fuel s3 self prefix n final_state s = (Inr (), delete_all s3 ?b ks s1)"
    by (simp add: deregister_def ks(1) s1(1))
  then show ?thesis
    by (intro exI [of _ "delete_all s3 ?b ks s1"]) (simp add: objs_delete_all [OF assms] s1(2) ks(2))
qed

lemma registration_prefix_unique:
  "starts_with (registration_key_prefix a) k \<Longrightarrow> starts_with (registration_key_prefix b) k \<Longrightarrow>
   free_of_pair CHR ''_'' a \<Longrightarrow> free_of_pair CHR ''_'' b \<Longrightarrow> a = b"
  unfolding registration_key_prefix_def starts_with_iff
  by clarsimp (metis option.inject prod.inject split_once_pair)

lemma registered_prefix:
  "parse_registration_key from_ts k = Inr r \<Longrightarrow> free_of_pair CHR ''_'' n \<Longrightarrow>
   reg_node_id r = n \<longleftrightarrow> starts_with (registration_key_prefix n) k"
  using parse_registration_key_prefix registration_prefix_unique by metis

lemma starts_with_longer: "starts_with p q \<or> starts_with q p" if "starts_with p k" "starts_with q k"
  using that unfolding starts_with_iff by (metis append_eq_append_conv2)

lemma final_dots_apart:
  assumes "\<not> starts_with DISCOVERY_NODES_PREFIX (q @ ''/final_dots/'')" and "starts_with (q @ ''/final_dots/'') k"
  shows "\<not> starts_with DISCOVERY_NODES_PREFIX k" and "parse_registration_key from_ts k \<noteq> Inr r"
proof -
  show a: "\<not> starts_with DISCOVERY_NODES_PREFIX k"
  proof
    assume "starts_with DISCOVERY_NODES_PREFIX k"
    then have "starts_with (q @ ''/final_dots/'') DISCOVERY_NODES_PREFIX"
      using starts_with_longer assms by blast
    then have "length (q @ ''/final_dots/'') \<le> length DISCOVERY_NODES_PREFIX"
      unfolding starts_with_iff by (metis le_add1 length_append)
    then show False by (simp add: DISCOVERY_NODES_PREFIX_def)
  qed
  show "parse_registration_key from_ts k \<noteq> Inr r"
    using parse_registration_key_prefix [of from_ts k r] a by (auto simp: registration_key_prefix_def starts_with_iff)
qed

lemma final_dot_key_under: "starts_with (prefix @ ''/final_dots/'') (final_dot_key prefix nid n)"
  by (simp add: final_dot_key_def FINAL_DOTS_PREFIX_def starts_with_iff)

lemma final_dot_written:
  assumes "trim_end_matches CHR ''/'' (key_prefix c) = key_prefix c" "CHR ''_'' \<notin> set nid"
    and "objs s (bucket c, final_dot_key (key_prefix c) nid n) \<noteq> None"
  shows "final_dot_key (key_prefix c) nid n \<in> final_dot_keys objs c s"
    and "parse_final_dot_key c (final_dot_key (key_prefix c) nid n) = Some (nid, n)"
proof -
  have "final_dot_key (key_prefix c) nid n = final_dots_key_prefix c @ nid @ ''_'' @ show_nat (unat n) @ ''.json''"
    using assms(1) by (simp add: final_dot_key_def FINAL_DOTS_PREFIX_def final_dots_key_prefix_def storage_key_def)
  then show "final_dot_key (key_prefix c) nid n \<in> final_dot_keys objs c s"
    "parse_final_dot_key c (final_dot_key (key_prefix c) nid n) = Some (nid, n)"
    using assms(2,3) parse_final_dot_key_eq [of c nid n] by (auto simp: final_dot_keys_def starts_with_iff)
qed

lemma registered_after_writing:
  assumes "nid \<noteq> []" "free_of_pair CHR ''_'' nid" "free_of_pair CHR ''_'' addr"
    and "from_ts (to_ts d) = Some d" "- (2 ^ 63) \<le> to_ts d" "to_ts d < 2 ^ 63"
    and "objs s (b, registration_key to_ts nid d g addr) \<noteq> None"
  shows "nid \<in> registered_nodes from_ts objs b s"
  using parse_registration_key_printed [where from_ts = from_ts and to_ts = to_ts and is_gc = g, OF assms(1-6)] assms(7)
  unfolding registered_nodes_def by force

lemma registered_nodes_after_leaving:
  assumes "\<And>k. objs s2 (b, k) = (if starts_with (registration_key_prefix nid) k \<and> objs s1 (b, k) \<noteq> None then None
      else if k = fin then Some x else objs s1 (b, k))"
    and "free_of_pair CHR ''_'' nid" "\<And>r. parse_registration_key from_ts fin \<noteq> Inr r"
  shows "registered_nodes from_ts objs b s2 = registered_nodes from_ts objs b s1 - {nid}"
proof -
  have "objs s2 (b, k) \<noteq> None \<longleftrightarrow> objs s1 (b, k) \<noteq> None \<and> reg_node_id r \<noteq> nid"
    if "parse_registration_key from_ts k = Inr r" for k r
    using that assms(1) [of k] assms(3) registered_prefix [OF that assms(2)] by auto
  then show ?thesis unfolding registered_nodes_def by blast
qed

lemma new_final_dot_read:
  assumes "s3_documented fuel s3 objs" "k \<in> final_dot_keys objs c s" "parse_final_dot_key c k = Some (p, n)"
    and "\<And>k' m. k' \<in> final_dot_keys objs c s \<Longrightarrow> k' \<noteq> k \<Longrightarrow> parse_final_dot_key c k' \<noteq> Some (p, m)"
  shows "map_of (gv_final_dots (s3_view js objs c s)) p = Some n"
proof -
  let ?ks = "sorted_list_of_set (final_dot_keys objs c s)"
  have ks: "set ?ks = final_dot_keys objs c s"
    using finite_final_dot_keys [OF assms(1)] by simp
  from final_dots_total [of k ?ks "parse_final_dot_key c" p n] assms(2,3) ks
  obtain m where m: "map_of (gv_final_dots (s3_view js objs c s)) p = Some m"
    by (auto simp: s3_view_def)
  with map_of_final_dots [of "parse_final_dot_key c" ?ks p m] ks
  obtain k' where "k' \<in> final_dot_keys objs c s" "parse_final_dot_key c k' = Some (p, m)"
    by (auto simp: s3_view_def)
  with m assms(3,4) show ?thesis by (cases "k' = k") auto
qed

subsection \<open>Properties\<close>





subsection \<open>Reconciliation\<close>

lemma hm_contains_add_peer [peer_simps]:
  "hm_contains (add_peer bi sp self ts n addr) p \<longleftrightarrow> hm_contains ts p \<or> p = n \<and> (bi \<or> self < n)"
  by (auto simp: add_peer_def hm_contains_def)

lemma add_peer_keeps: "hm_contains ts p \<Longrightarrow> hm_get (add_peer bi sp self ts n addr) p = hm_get ts p"
  by (auto simp: add_peer_def hm_contains_def)

lemma fold_add_peer:
  "(\<And>n. n \<in> set ns \<Longrightarrow> hm_get desired n \<noteq> None) \<Longrightarrow>
   hm_contains (fold (\<lambda>nid ts. case hm_get desired nid of
      Some registration \<Rightarrow> add_peer bi sp self ts nid (addr registration) | None \<Rightarrow> ts) ns ts) p
   \<longleftrightarrow> hm_contains ts p \<or> p \<in> set ns \<and> (bi \<or> self < p)"
proof (induction ns arbitrary: ts)
  case (Cons n ns)
  then obtain r where "hm_get desired n = Some r" by fastforce
  moreover have "\<And>m. m \<in> set ns \<Longrightarrow> hm_get desired m \<noteq> None" using Cons.prems by simp
  ultimately show ?case using Cons.IH by (auto simp: hm_contains_add_peer)
qed simp

lemma fold_add_peer_keeps:
  "hm_contains ts p \<Longrightarrow>
   hm_get (fold (\<lambda>nid ts. case hm_get desired nid of
      Some registration \<Rightarrow> add_peer bi sp self ts nid (addr registration) | None \<Rightarrow> ts) ns ts) p = hm_get ts p"
proof (induction ns arbitrary: ts)
  case (Cons n ns)
  let ?ts = "case hm_get desired n of Some r \<Rightarrow> add_peer bi sp self ts n (addr r) | None \<Rightarrow> ts"
  have "hm_get ?ts p = hm_get ts p"
    using Cons.prems by (auto simp: add_peer_keeps split: option.splits)
  moreover from this have "hm_contains ?ts p" using Cons.prems by (simp add: hm_contains_def)
  ultimately show ?case using Cons.IH by simp
qed simp

lemma fold_remove_peer:
  "fold (\<lambda>nid (ts, reg). case remove_peer ts reg nid of (ts', reg', _) \<Rightarrow> (ts', reg')) ns (ts, reg) = (ts', reg') \<Longrightarrow>
   (\<forall>p. hm_get ts' p = (if p \<in> set ns then None else hm_get ts p)) \<and>
   (\<forall>p. registry_get reg' p = (if p \<in> set ns then None else registry_get reg p))"
proof (induction ns arbitrary: ts reg)
  case (Cons n ns)
  then show ?case by (fastforce simp: remove_peer_def peer_simps)
qed simp

lemma desired_keys: "set (hm_keys (hm_collect (map (\<lambda>r. (reg_node_id r, r)) listed))) = reg_node_id ` set listed"
proof -
  let ?desired = "hm_collect (map (\<lambda>r. (reg_node_id r, r)) listed)"
  have "set (hm_keys ?desired) = {p. hm_get ?desired p \<noteq> None}" by (auto simp: map_of_eq_None_iff)
  also have "\<dots> = reg_node_id ` set listed" by (auto simp: map_of_collect map_of_eq_None_iff image_iff)
  finally show ?thesis .
qed

lemma reconcile_outcome:
  "\<exists>tasks' registry'. reconcile bi sp self listed (tasks, registry) = (tasks', registry') \<and>
     (\<forall>p. registry_get registry' p =
        (if p \<in> reg_node_id ` set listed then registry_get registry p else None)) \<and>
     (\<forall>p. hm_contains tasks' p \<longleftrightarrow>
        (hm_contains tasks p \<and> (p \<in> reg_node_id ` set listed \<or> registry_get registry p = None)) \<or>
        (p \<in> reg_node_id ` set listed \<and> registry_get registry p = None \<and> (bi \<or> self < p))) \<and>
     (\<forall>p. hm_contains tasks p \<and> hm_contains tasks' p \<longrightarrow> hm_get tasks' p = hm_get tasks p)"
proof -
  let ?desired = "hm_collect (map (\<lambda>r. (reg_node_id r, r)) listed)"
  let ?ids = "hs_collect (hm_keys ?desired)" and ?current = "hs_collect (peer_ids registry)"
  let ?new = "filter (\<lambda>n. n \<notin> set ?current) ?ids" and ?gone = "filter (\<lambda>n. n \<notin> set ?ids) ?current"
  let ?tasks1 = "fold (\<lambda>nid ts. case hm_get ?desired nid of
      Some registration \<Rightarrow> add_peer bi sp self ts nid (reg_addr registration) | None \<Rightarrow> ts) ?new tasks"
  obtain tasks' registry' where st: "fold (\<lambda>nid (ts, reg). case remove_peer ts reg nid of (ts', reg', _) \<Rightarrow> (ts', reg'))
      ?gone (?tasks1, registry) = (tasks', registry')"
    by fastforce
  then have rec: "reconcile bi sp self listed (tasks, registry) = (tasks', registry')"
    by (simp add: reconcile_def Let_def)
  have ids: "set ?ids = reg_node_id ` set listed" using desired_keys [of listed] by simp
  have current: "p \<in> set ?current \<longleftrightarrow> registry_get registry p \<noteq> None" for p
    by (simp add: set_peer_ids)
  have "hm_get ?desired n \<noteq> None" if "n \<in> set ?new" for n
    using that ids by (auto simp: map_of_eq_None_iff)
  note added = fold_add_peer [where ns = ?new and desired = ?desired and bi = bi and sp = sp and self = self
      and addr = reg_addr and ts = tasks, OF this]
  note kept = fold_add_peer_keeps [where ns = ?new and desired = ?desired and bi = bi and sp = sp and self = self
      and addr = reg_addr and ts = tasks]
  have new: "n \<in> set ?new \<longleftrightarrow> n \<in> reg_node_id ` set listed \<and> registry_get registry n = None" for n
    using ids current [of n] by auto
  have gone: "n \<in> set ?gone \<longleftrightarrow> n \<notin> reg_node_id ` set listed \<and> registry_get registry n \<noteq> None" for n
    using ids current [of n] by auto
  have tasks: "hm_get tasks' p = (if p \<in> set ?gone then None else hm_get ?tasks1 p)" for p
    using fold_remove_peer [OF st] by blast
  have peers: "registry_get registry' p = (if p \<in> set ?gone then None else registry_get registry p)" for p
    using fold_remove_peer [OF st] by blast
  have registry: "registry_get registry' p = (if p \<in> reg_node_id ` set listed then registry_get registry p else None)" for p
    unfolding peers gone by (cases "registry_get registry p = None") simp_all
  have held: "hm_contains tasks' p \<longleftrightarrow>
      (hm_contains tasks p \<and> (p \<in> reg_node_id ` set listed \<or> registry_get registry p = None)) \<or>
      (p \<in> reg_node_id ` set listed \<and> registry_get registry p = None \<and> (bi \<or> self < p))" for p
    using added [of p] unfolding hm_contains_def tasks gone new by auto
  have same: "hm_get tasks' p = hm_get tasks p" if "hm_contains tasks p" "hm_contains tasks' p" for p
    using kept [OF that(1)] that(2) unfolding hm_contains_def tasks by (auto split: if_splits)
  show ?thesis
    using same by (intro exI conjI allI impI) (rule rec, rule registry, rule held, blast)
qed

text \<open>One round of reconciliation against the listed peers: a departed peer that is in the registry leaves
  both tables; a listed peer that is not connected gets an outbound task if this node is the one to
  connect; every other task and connection is untouched, in particular the task of a peer that left
  before it ever got connected, which no later round removes either.\<close>
theorem reconcile_tables:
  "\<exists>tasks' registry'. reconcile bi sp self listed (tasks, registry) = (tasks', registry') \<and>
     (\<forall>p. registry_get registry' p =
        (if p \<in> reg_node_id ` set listed then registry_get registry p else None)) \<and>
     (\<forall>p. hm_contains tasks' p \<longleftrightarrow>
        (hm_contains tasks p \<and> (p \<in> reg_node_id ` set listed \<or> registry_get registry p = None)) \<or>
        (p \<in> reg_node_id ` set listed \<and> registry_get registry p = None \<and> (bi \<or> self < p))) \<and>
     (\<forall>p. hm_contains tasks p \<and> hm_contains tasks' p \<longrightarrow> hm_get tasks' p = hm_get tasks p)"
  by (rule reconcile_outcome)

theorem reconcile_tables_witness:
  "\<exists>tasks' registry'. reconcile False id ''b''
      [\<lparr>reg_node_id = ''c'', reg_node_name = ''c'', reg_addr = ''h:1'', reg_gc_replica = True, reg_expires_at = 0 :: nat\<rparr>]
      ([(''z'', ''h:9'')], [(''a'', True, ())]) = (tasks', registry') \<and>
     hm_contains tasks' ''c'' \<and> hm_contains tasks' ''z'' \<and> registry_get registry' ''a'' = None"
  using reconcile_tables [of False id "''b''"
      "[\<lparr>reg_node_id = ''c'', reg_node_name = ''c'', reg_addr = ''h:1'', reg_gc_replica = True, reg_expires_at = 0 :: nat\<rparr>]"
      "[(''z'', ''h:9'')]" "[(''a'', True, ())]"]
  by (fastforce simp: registry_get_def hm_contains_def less_char_def)

end
