(* ===== verification/Server.thy ===== *)
theory Server
  imports Client_Sessions Discovery
begin

text \<open>
  The server: \<^verbatim>\<open>src/server/mod.rs\<close> and \<^verbatim>\<open>src/server/initializer.rs\<close>, which put the components together.

  A spawned task is an entry of the list of background tasks; what each does is the subject of the theories
  before.  The server's world is a \<open>live_server\<close>: the engine behind its channel and the store, which is the
  S3 service's state that discovery uses too (\<open>on_store\<close>).  The main loop works off a list of events, in
  the order \<^verbatim>\<open>select!\<close> picks them; \<open>None\<close> says that it is still running when they end.
\<close>

named_theorems server_simps \<open>a server's world after a step\<close>

subsection \<open>The server\<close>

record ServerConfig =
  sc_listen_host :: string
  sc_listen_port :: string
  sc_node_name :: string
  sc_gc_replica :: bool
  sc_experiment :: bool
  sc_client_port :: "string option"

record ('j, 'h) Server =
  srv_node_id :: NodeId
  srv_node_name :: string
  srv_gc_replica :: bool
  srv_experiment :: bool
  srv_listen_port :: string
  srv_client_port :: "string option"
  srv_registry :: "'h PeerRegistry"
  srv_discovery :: Discovery
  srv_outbound_tasks :: "'j OutboundTasks"

definition server_new ::
  "'s S3 \<Rightarrow> ServerConfig \<Rightarrow> DiscoveryConfig \<Rightarrow> ('s, anyhow, ('j, 'h) Server) call" where
  "server_new s3 server_config discovery_config =
     (let nid = sc_node_name server_config in
      and_then (discovery_new s3 discovery_config nid (sc_listen_host server_config) (sc_listen_port server_config))
        (\<lambda>discovery. return_ok
           \<lparr>srv_node_id = nid, srv_node_name = sc_node_name server_config,
            srv_gc_replica = sc_gc_replica server_config, srv_experiment = sc_experiment server_config,
            srv_listen_port = sc_listen_port server_config, srv_client_port = sc_client_port server_config,
            srv_registry = registry_new, srv_discovery = discovery, srv_outbound_tasks = []\<rparr>))"

text \<open>The strategy and the engine \<^verbatim>\<open>run\<close> builds; an interval is in nanoseconds.\<close>

definition server_dissemination :: "('j, 'h) Server \<Rightarrow> 'h PushPull" where
  "server_dissemination self = push_pull_new (srv_registry self) (10 ^ 9)"

definition server_engine :: "('j, 'h) Server \<Rightarrow> GcConfig \<Rightarrow> (string OrSet, 'h PushPull) CrdtEngine" where
  "server_engine self config =
     engine_new (srv_node_id self) ''default-orset'' OrSet_new (server_dissemination self) config"

subsection \<open>Start\<close>

datatype background_task =
    ClientListener string
  | NetworkBackground string NodeId string bool
  | DiscoveryLoop
  | GcInitiateLoop nat
  | GcObserveLoop nat
  | EngineLoop
  | PullLoop nat

datatype server_error = SetupFailed anyhow | ChannelClosed string

definition on_store :: "('s, 'e, 'a) call \<Rightarrow> (('c, 'd, 's) live_server, 'e, 'a) call" where
  "on_store m w = (case m (sw_store w) of (r, s) \<Rightarrow> (r, w\<lparr>sw_store := s\<rparr>))"

definition gc_loops :: "nat option \<times> nat \<Rightarrow> background_task list" where
  "gc_loops = (\<lambda>(initiate, observe).
     (case initiate of Some iv \<Rightarrow> [GcInitiateLoop iv] | None \<Rightarrow> []) @ [GcObserveLoop observe])"

text \<open>\<^verbatim>\<open>start_discovery\<close>: the registration, then the loop.\<close>

definition start_discovery ::
  "nat \<Rightarrow> ('t \<Rightarrow> int) \<Rightarrow> (nat \<Rightarrow> 't option) \<Rightarrow> bytes \<Rightarrow> 's S3 \<Rightarrow> ('j, 'h) Server
     \<Rightarrow> (('c, 'd, 's) live_server, anyhow, background_task) call" where
  "start_discovery fuel to_ts expires body s3 server =
     and_then (on_store (register fuel to_ts expires body s3 (srv_discovery server)))
       (\<lambda>_. return_ok DiscoveryLoop)"

text \<open>The engine's task bootstraps before it serves its channel, so a request sent meanwhile waits for the end
  of the bootstrap; \<open>None\<close> when \<open>polls\<close> polls do not end it.\<close>

definition spawn_engine ::
  "nat \<Rightarrow> ('c, 'op, 'dl, 'h, 'd, 's) engine_env \<Rightarrow> ('c, 'd, 's) live_server \<Rightarrow> ('c, 'd, 's) live_server option" where
  "spawn_engine polls E w =
     map_option (\<lambda>(_, eng, s). w\<lparr>sw_engine := eng, sw_store := s\<rparr>)
       (engine_bootstrap polls E (sw_engine w) (sw_store w))"

definition start_background_tasks ::
  "nat \<Rightarrow> (string OrSet, string OrSetOp, 'dl, 'h, 'd, 's) engine_env \<Rightarrow> (nat \<Rightarrow> nat) \<Rightarrow> nat \<Rightarrow> ('t \<Rightarrow> int)
     \<Rightarrow> (nat \<Rightarrow> 't option) \<Rightarrow> bytes \<Rightarrow> 's S3 \<Rightarrow> ('j, 'h) Server \<Rightarrow> (string OrSet, 'd, 's) live_server
     \<Rightarrow> ((server_error, background_task list) result \<times> (string OrSet, 'd, 's) live_server) option" where
  "start_background_tasks polls E rng fuel to_ts expires body s3 server w =
     (let handles = (case srv_client_port server of Some port \<Rightarrow> [ClientListener port] | None \<Rightarrow> []) @
            [NetworkBackground (srv_listen_port server) (srv_node_id server) (srv_node_name server)
               (srv_gc_replica server)]
      in (case start_discovery fuel to_ts expires body s3 server w of
            (Inl e, w1) \<Rightarrow> Some (Inl (SetupFailed e), w1)
          | (Inr discovery_handle, w1) \<Rightarrow>
              let handles = handles @ [discovery_handle] @ gc_loops (start_gc_loops (sw_engine w1)) @ [EngineLoop]
              in (case spawn_engine polls E w1 of
                    None \<Rightarrow> None
                  | Some w2 \<Rightarrow>
                      if srv_experiment server
                      then (case live_send E rng (ClientOperation (Add (''test-'' @ srv_node_id server))) w2 of
                              (Inl e, w3) \<Rightarrow> Some (Inl (ChannelClosed e), w3)
                            | (Inr _, w3) \<Rightarrow> Some (Inr handles, w3))
                      else Some (Inr handles, w2))))"

subsection \<open>Shutdown\<close>

definition await_final_state :: "(('c, 'd, 's) live_server, string, Counter \<times> bytes) call" where
  "await_final_state w =
     (case sw_response w of
        Some (FinalState final_dot final_state) \<Rightarrow> (Inr (final_dot, final_state), w\<lparr>sw_response := None\<rparr>)
      | _ \<Rightarrow> (Inl ''channel closed'', w))"

text \<open>The result is the server, whose table of outbound tasks is drained, and the tasks aborted.\<close>

definition handle_shutdown ::
  "('c, 'op, 'dl, 'h, 'd, 's) engine_env \<Rightarrow> (nat \<Rightarrow> nat) \<Rightarrow> nat \<Rightarrow> 's S3 \<Rightarrow> ('j, 'h) Server \<Rightarrow> background_task list \<Rightarrow> string
     \<Rightarrow> (('c, 'd, 's) live_server, server_error, ('j, 'h) Server \<times> background_task list \<times> 'j list) call" where
  "handle_shutdown E rng fuel s3 self handles gc_prefix w =
     (case live_send E rng DeregistrationState w of
        (Inl e, w1) \<Rightarrow> (Inl (ChannelClosed e), w1)
      | (Inr _, w1) \<Rightarrow> (case await_final_state w1 of
            (Inl e, w2) \<Rightarrow> (Inl (ChannelClosed e), w2)
          | (Inr (final_dot, final_state), w2) \<Rightarrow>
              (case on_store (deregister fuel s3 (srv_discovery self) gc_prefix final_dot final_state) w2 of
                 (_, w3) \<Rightarrow> (Inr (self\<lparr>srv_outbound_tasks := []\<rparr>, handles, hm_values (srv_outbound_tasks self)), w3))))"

subsection \<open>The main loop\<close>

datatype server_event = ReceivedEnvelope Envelope | MetricsTick | Cancelled

definition channel_send :: "('c, 'op, 'dl, 'h, 'd, 's) engine_env \<Rightarrow> (nat \<Rightarrow> nat)
     \<Rightarrow> ('op, string, ('c, 'd, 's) live_server) engine_send" where
  "channel_send E rng w rq = (case live_send E rng rq w of (Inl e, _) \<Rightarrow> Inl e | (Inr _, w1) \<Rightarrow> Inr w1)"

fun main_loop ::
  "('c, 'op, 'dl, 'h, 'd, 's) engine_env \<Rightarrow> (nat \<Rightarrow> nat) \<Rightarrow> nat \<Rightarrow> 's S3 \<Rightarrow> ('j, 'h) Server \<Rightarrow> background_task list \<Rightarrow> string
     \<Rightarrow> server_event list \<Rightarrow> ('c, 'd, 's) live_server
     \<Rightarrow> (server_error, ('j, 'h) Server \<times> background_task list \<times> 'j list) result option \<times> ('c, 'd, 's) live_server" where
  "main_loop E rng fuel s3 self handles prefix [] w = (None, w)"
| "main_loop E rng fuel s3 self handles prefix (ReceivedEnvelope envelope # events) w =
     main_loop E rng fuel s3 self handles prefix events (handle_received_envelope (channel_send E rng) envelope w)"
| "main_loop E rng fuel s3 self handles prefix (MetricsTick # events) w =
     (case live_send E rng LogCrdtMetrics w of
        (Inl e, w1) \<Rightarrow> (Some (Inl (ChannelClosed e)), w1)
      | (Inr _, w1) \<Rightarrow> main_loop E rng fuel s3 self handles prefix events w1)"
| "main_loop E rng fuel s3 self handles prefix (Cancelled # events) w =
     (case handle_shutdown E rng fuel s3 self handles prefix w of (r, w1) \<Rightarrow> (Some r, w1))"

text \<open>\<^verbatim>\<open>run\<close>.\<close>

definition server_run ::
  "nat \<Rightarrow> (string OrSet, string OrSetOp, 'dl, 'h, 'h PushPull, 's) engine_env \<Rightarrow> (nat \<Rightarrow> nat) \<Rightarrow> nat \<Rightarrow> ('t \<Rightarrow> int)
     \<Rightarrow> (nat \<Rightarrow> 't option) \<Rightarrow> bytes \<Rightarrow> 's S3 \<Rightarrow> ('j, 'h) Server \<Rightarrow> GcConfig \<Rightarrow> server_event list \<Rightarrow> 's
     \<Rightarrow> ((server_error, ('j, 'h) Server \<times> background_task list \<times> 'j list) result option
          \<times> (string OrSet, 'h PushPull, 's) live_server) option" where
  "server_run polls E rng fuel to_ts expires body s3 self config events s =
     (let prefix = key_prefix (storage_config config);
          handles = (case push_pull_start_pull_loop (server_dissemination self) of
                       Some iv \<Rightarrow> [PullLoop iv] | None \<Rightarrow> []);
          world = \<lparr>sw_open = True, sw_engine = server_engine self config, sw_store = s, sw_response = None,
                   sw_served = 0\<rparr>
      in (case start_background_tasks polls E rng fuel to_ts expires body s3 self world of
            None \<Rightarrow> None
          | Some (Inl e, w1) \<Rightarrow> Some (Some (Inl e), w1)
          | Some (Inr new_handles, w1) \<Rightarrow>
              Some (main_loop E rng fuel s3 self (handles @ new_handles) prefix events w1)))"

subsection \<open>The loop is the engine's loop\<close>

definition live_step ::
  "('c, 'op, 'dl, 'h, 'd, 's) engine_env \<Rightarrow> (nat \<Rightarrow> nat) \<Rightarrow> 'op CrdtEngineRequest \<Rightarrow> ('c, 'd, 's) live_server
     \<Rightarrow> ('c, 'd, 's) live_server" where
  "live_step E rng rq w =
     (case handle_request E (rng (sw_served w)) rq (sw_engine w, sw_store w) of
        (r, eng, s) \<Rightarrow> w\<lparr>sw_engine := eng, sw_store := s, sw_response := r, sw_served := Suc (sw_served w)\<rparr>)"

fun event_requests :: "server_event \<Rightarrow> 'op CrdtEngineRequest list" where
  "event_requests (ReceivedEnvelope envelope) = envelope_requests envelope"
| "event_requests MetricsTick = [LogCrdtMetrics]"
| "event_requests Cancelled = []"

lemma live_send_open [server_simps]: "sw_open w \<Longrightarrow> live_send E rng rq w = (Inr (), live_step E rng rq w)"
  by (simp add: live_send_def live_step_def split: prod.splits)

lemma live_step_open [simp]: "sw_open (live_step E rng rq w) = sw_open w"
  by (simp add: live_step_def split: prod.splits)

lemma live_step_served [simp]: "sw_served (live_step E rng rq w) = Suc (sw_served w)"
  by (simp add: live_step_def split: prod.splits)

lemma fold_live_step_open [simp]: "sw_open (fold (live_step E rng) rqs w) = sw_open w"
  by (induction rqs arbitrary: w) simp_all

lemma channel_send_open [server_simps]: "sw_open w \<Longrightarrow> channel_send E rng w rq = Inr (live_step E rng rq w)"
  by (simp add: channel_send_def live_send_open)

lemma handle_received_live [server_simps]:
  "sw_open w \<Longrightarrow> handle_received_envelope (channel_send E rng) envelope w =
     fold (live_step E rng) (envelope_requests envelope) w"
  by (auto simp: handle_received_envelope_def envelope_requests_def Let_def channel_send_open
      split: option.splits Payload.splits)

lemma main_loop_running:
  "sw_open w \<Longrightarrow> Cancelled \<notin> set events \<Longrightarrow>
   main_loop E rng fuel s3 self handles prefix (events @ later) w =
     main_loop E rng fuel s3 self handles prefix later
       (fold (live_step E rng) (concat (map event_requests events)) w)"
proof (induction events arbitrary: w)
  case (Cons ev events)
  then show ?case by (cases ev) (simp_all add: server_simps)
qed simp

lemma fold_live_step_serve:
  "(sw_engine (fold (live_step E rng) rqs w), sw_store (fold (live_step E rng) rqs w)) =
     snd (serve E (zip (map rng [sw_served w..<sw_served w + length rqs]) rqs) (sw_engine w, sw_store w))"
proof (induction rqs arbitrary: w)
  case (Cons rq rqs)
  obtain r eng s where h: "handle_request E (rng (sw_served w)) rq (sw_engine w, sw_store w) = (r, eng, s)"
    by (metis prod_cases3)
  have step: "(sw_engine (live_step E rng rq w), sw_store (live_step E rng rq w)) = (eng, s)"
    by (simp add: live_step_def h)
  have "[sw_served w..<sw_served w + length (rq # rqs)] =
      sw_served w # [Suc (sw_served w)..<Suc (sw_served w) + length rqs]"
    by (simp add: upt_conv_Cons del: upt_Suc)
  then show ?case
    using Cons.IH [of "live_step E rng rq w"] step h by (simp del: upt_Suc split: prod.splits)
qed simp

subsection \<open>Leaving\<close>

lemma final_state_of_engine:
  "get_final_state_for_deregistration (or_set_env pe pd strat reg G m) eng =
     (counter (dvv_dot (eng_dvv eng)), encode_delta encode_elem pe (full_state (eng_crdt eng) (eng_dvv eng)))"
  by (simp add: get_final_state_for_deregistration_def or_set_crdt_def causal_context_def full_state_def Let_def)

lemma handle_shutdown_open:
  assumes "sw_open w" "get_final_state_for_deregistration E (sw_engine w) = (final_dot, final_state)"
  shows "\<exists>w'. handle_shutdown E rng fuel s3 self handles prefix w =
      (Inr (self\<lparr>srv_outbound_tasks := []\<rparr>, handles, hm_values (srv_outbound_tasks self)), w') \<and>
    sw_store w' = snd (deregister fuel s3 (srv_discovery self) prefix final_dot final_state (sw_store w)) \<and>
    sw_engine w' = sw_engine w"
  using assms
  by (simp add: handle_shutdown_def live_send_def await_final_state_def on_store_def split: prod.splits)

lemma full_state_decodes:
  assumes "orset_inv s" "dvv_inv dvv" "pb_documented pe pd" "\<And>e. contains s e \<Longrightarrow> is_String e"
  shows "\<exists>dl. decode_delta decode_elem pd (encode_delta encode_elem pe (full_state s dvv)) = Inr dl \<and>
    contains (merge_delta OrSet_new dl) = contains s \<and> dead (merge_delta OrSet_new dl) = dead s"
proof -
  let ?d = "full_state s dvv"
  have "hm_ok (pos_context (delta_to_proto encode_elem ?d))"
    using assms(2) by (simp add: delta_to_proto_def full_state_def)
  with assms(3) obtain p where p: "pd (pe (delta_to_proto encode_elem ?d)) = Inr p"
    "proto_equiv p (delta_to_proto encode_elem ?d)"
    unfolding pb_documented_def by blast
  have "is_String e" if "(e, a) \<in> set (od_adds ?d)" for e a
    using that assms(4) contains_iff [OF assms(1), of e] unfolding set_od_adds_full [OF assms(1)] by blast
  then obtain dl where dl: "decode_delta decode_elem pd (encode_delta encode_elem pe ?d) = Inr dl" "delta_equiv dl ?d"
    using string_codec.delta_roundtrip [of ?d pd pe p] p by blast
  then have "od_adds dl = od_adds ?d" "od_tombstones dl = tombstones s"
    by (simp_all add: delta_equiv_def full_state_def)
  note snapshot = merge_snapshot [OF assms(1) this]
  have "dead (merge_delta OrSet_new dl) = dead s" unfolding dead_def snapshot(3) ..
  with dl(1) snapshot(4) show ?thesis by blast
qed

lemma final_dot_key_unparsed:
  assumes "\<not> starts_with DISCOVERY_NODES_PREFIX (prefix @ ''/final_dots/'')"
  shows "\<not> starts_with DISCOVERY_NODES_PREFIX (final_dot_key prefix nid n)"
    and "parse_registration_key from_ts (final_dot_key prefix nid n) \<noteq> Inr r"
  by (rule final_dots_apart [OF assms final_dot_key_under])+

lemma shutdown_leaves:
  fixes w :: "(string OrSet, 'd, 's) live_server" and self :: "('j, 'h) Server"
  assumes "sw_open w"
    and "s3_documented fuel s3 objs" "free_of_pair CHR ''_'' (disc_node_id (srv_discovery self))"
      "\<not> starts_with DISCOVERY_NODES_PREFIX (prefix @ ''/final_dots/'')"
    and "orset_inv (eng_crdt (sw_engine w))" "dvv_inv (eng_dvv (sw_engine w))" "pb_documented pe pd"
      "\<forall>e. contains (eng_crdt (sw_engine w)) e \<longrightarrow> is_String e"
  obtains w' dl final_state where
    "handle_shutdown (or_set_env pe pd strat reg G m) rng fuel s3 self handles prefix w =
      (Inr (self\<lparr>srv_outbound_tasks := []\<rparr>, handles, hm_values (srv_outbound_tasks self)), w')"
    and "registered_nodes from_ts objs (dc_bucket (disc_config (srv_discovery self))) (sw_store w') =
      registered_nodes from_ts objs (dc_bucket (disc_config (srv_discovery self))) (sw_store w)
        - {disc_node_id (srv_discovery self)}"
    and "objs (sw_store w') (dc_bucket (disc_config (srv_discovery self)),
      final_dot_key prefix (disc_node_id (srv_discovery self)) (counter (dvv_dot (eng_dvv (sw_engine w))))) = Some final_state"
    and "decode_delta decode_elem pd final_state = Inr dl"
    and "contains (merge_delta OrSet_new dl) = contains (eng_crdt (sw_engine w))"
    and "dead (merge_delta OrSet_new dl) = dead (eng_crdt (sw_engine w))"
proof -
  let ?E = "or_set_env pe pd strat reg G m" and ?b = "dc_bucket (disc_config (srv_discovery self))"
  let ?nid = "disc_node_id (srv_discovery self)" and ?eng = "sw_engine w"
  define n where "n = counter (dvv_dot (eng_dvv ?eng))"
  define data where "data = encode_delta encode_elem pe (full_state (eng_crdt ?eng) (eng_dvv ?eng))"
  let ?fin = "final_dot_key prefix ?nid n"
  have final: "get_final_state_for_deregistration ?E ?eng = (n, data)"
    unfolding n_def data_def by (rule final_state_of_engine)
  obtain w' where w': "handle_shutdown ?E rng fuel s3 self handles prefix w =
      (Inr (self\<lparr>srv_outbound_tasks := []\<rparr>, handles, hm_values (srv_outbound_tasks self)), w')"
    "sw_store w' = snd (deregister fuel s3 (srv_discovery self) prefix n data (sw_store w))"
    using handle_shutdown_open [OF assms(1) final, of rng] by blast
  obtain s' where s': "deregister fuel s3 (srv_discovery self) prefix n data (sw_store w) = (Inr (), s')"
    "\<And>k. objs s' (?b, k) = (if starts_with (registration_key_prefix ?nid) k \<and> objs (sw_store w) (?b, k) \<noteq> None then None
        else if k = ?fin then Some data else objs (sw_store w) (?b, k))"
    using deregister_ok [OF assms(2), of "srv_discovery self" prefix n data "sw_store w"] by auto
  have store: "sw_store w' = s'" using w'(2) s'(1) by simp
  note unparsed = final_dot_key_unparsed [OF assms(4)]
  have gone: "registered_nodes from_ts objs ?b s' = registered_nodes from_ts objs ?b (sw_store w) - {?nid}"
    by (rule registered_nodes_after_leaving [OF s'(2) assms(3) unparsed(2)])
  have "\<not> starts_with (registration_key_prefix ?nid) ?fin"
    using unparsed(1) [of ?nid n] by (auto simp: registration_key_prefix_def starts_with_iff)
  then have stored: "objs s' (?b, ?fin) = Some data" using s'(2) [of ?fin] by simp
  obtain dl where dl: "decode_delta decode_elem pd data = Inr dl"
    "contains (merge_delta OrSet_new dl) = contains (eng_crdt ?eng)" "dead (merge_delta OrSet_new dl) = dead (eng_crdt ?eng)"
    using full_state_decodes [OF assms(5-7)] assms(8) unfolding data_def by blast
  show ?thesis
    by (rule that [OF w'(1) _ _ dl, unfolded store, OF gone stored [unfolded n_def]])
qed

subsection \<open>Properties\<close>

text \<open>The server of node \<open>A\<close> in the small execution, over an in-memory service.\<close>

definition demo_discovery :: Discovery where
  "demo_discovery =
     \<lparr>disc_config = \<lparr>dc_endpoint = [], dc_bucket = ''b'', dc_region = [], dc_access_key = [],
        dc_secret_key = [], dc_poll_interval = 30, dc_registration_ttl = 30, dc_gc_replica = False,
        dc_connect_node_ids = None\<rparr>, disc_node_id = ''A'', disc_listen_host = ''h'', disc_listen_port = ''1''\<rparr>"

definition demo_self :: "(unit, channel) Server" where
  "demo_self = \<lparr>srv_node_id = ''A'', srv_node_name = ''A'', srv_gc_replica = False, srv_experiment = False,
      srv_listen_port = ''1'', srv_client_port = None, srv_registry = registry_new,
      srv_discovery = demo_discovery, srv_outbound_tasks = [(''B'', ())]\<rparr>"

definition demo_store_env where
  "demo_store_env = or_set_env mem_pb_enc mem_pb_dec (push_pull_strategy log_send) peer_registry
     (s3_gc_storage 1 mem_json mem_s3 \<lparr>bucket = ''b'', key_prefix = ''gc''\<rparr>) (return_ok [])"

definition demo_world ::
  "(string OrSet, channel PushPull, ((string \<times> string) \<times> bytes) list) live_server" where
  "demo_world = \<lparr>sw_open = True, sw_engine = replica demo_added ''A'', sw_store = [], sw_response = None, sw_served = 0\<rparr>"

text \<open>C18.  The main loop serves.  While the server is not cancelled, its loop is the engine's loop over the
  requests the received envelopes are routed to, in order, with a metrics request per tick: it never ends
  by itself, and engine and store are those after \<open>serve\<close>.  When it is cancelled it shuts down in that state and
  handles no later event.\<close>

theorem main_loop_serves:
  fixes E :: "('c, 'op, 'dl, 'h, 'd, 's) engine_env" and self :: "('j, 'h) Server"
    and w :: "('c, 'd, 's) live_server" and rng fuel s3 handles prefix
  assumes "sw_open w" "Cancelled \<notin> set events"
  defines "rqs \<equiv> concat (map event_requests events) :: 'op CrdtEngineRequest list"
  defines "w' \<equiv> snd (main_loop E rng fuel s3 self handles prefix events w)"
  shows "fst (main_loop E rng fuel s3 self handles prefix events w) = None \<and>
    (sw_engine w', sw_store w') =
      snd (serve E (zip (map rng [sw_served w..<sw_served w + length rqs]) rqs) (sw_engine w, sw_store w)) \<and>
    main_loop E rng fuel s3 self handles prefix (events @ Cancelled # later) w =
      (case handle_shutdown E rng fuel s3 self handles prefix w' of (r, w1) \<Rightarrow> (Some r, w1))"
proof -
  have run: "main_loop E rng fuel s3 self handles prefix events w = (None, fold (live_step E rng) rqs w)"
    using main_loop_running [OF assms(1,2), of E rng fuel s3 self handles prefix "[]"] by (simp add: rqs_def)
  then have "w' = fold (live_step E rng) rqs w" by (simp add: w'_def)
  then show ?thesis
    using run fold_live_step_serve [of E rng rqs w]
    by (simp add: rqs_def main_loop_running [OF assms(1,2)])
qed

theorem main_loop_serves_witness:
  "fst (main_loop demo_store_env (\<lambda>_. 0) 1 mem_s3 demo_self [EngineLoop] ''gc''
     [ReceivedEnvelope (make_pull_request_envelope ''c'' ''B'' False [(''B'', 1)]), MetricsTick] demo_world) = None"
  by (rule main_loop_serves [THEN conjunct1]) (simp_all add: demo_world_def)

text \<open>C17.  A graceful shutdown.  The server asks its engine for the final state, leaves the directory and
  ends every task.  Whatever the storage does, it completes and no outbound task is left.  On a service that
  keeps its contract the node, and only it, is no longer registered, and under its final-dot key with its
  own counter lies a state from which a new replica gets the set and its tombstones.\<close>

theorem graceful_shutdown:
  fixes w :: "(string OrSet, 'd, 's) live_server" and self :: "('j, 'h) Server"
  defines "eng \<equiv> sw_engine w" and "b \<equiv> dc_bucket (disc_config (srv_discovery self))"
    and "nid \<equiv> disc_node_id (srv_discovery self)"
  assumes "sw_open w"
    and "s3_documented fuel s3 objs" "free_of_pair CHR ''_'' nid"
      "\<not> starts_with DISCOVERY_NODES_PREFIX (prefix @ ''/final_dots/'')"
    and "orset_inv (eng_crdt eng)" "dvv_inv (eng_dvv eng)" "pb_documented pe pd"
      "\<forall>e. contains (eng_crdt eng) e \<longrightarrow> is_String e"
  shows "\<exists>w' dl final_state.
    handle_shutdown (or_set_env pe pd strat reg G m) rng fuel s3 self handles prefix w =
      (Inr (self\<lparr>srv_outbound_tasks := []\<rparr>, handles, hm_values (srv_outbound_tasks self)), w') \<and>
    fst (handle_shutdown (or_set_env pe pd strat reg G m) rng any_fuel any_service self handles any_prefix w) =
      Inr (self\<lparr>srv_outbound_tasks := []\<rparr>, handles, hm_values (srv_outbound_tasks self)) \<and>
    registered_nodes from_ts objs b (sw_store w') = registered_nodes from_ts objs b (sw_store w) - {nid} \<and>
    objs (sw_store w') (b, final_dot_key prefix nid (counter (dvv_dot (eng_dvv eng)))) = Some final_state \<and>
    decode_delta decode_elem pd final_state = Inr dl \<and>
    contains (merge_delta OrSet_new dl) = contains (eng_crdt eng) \<and>
    dead (merge_delta OrSet_new dl) = dead (eng_crdt eng)"
proof -
  obtain w1 where "handle_shutdown (or_set_env pe pd strat reg G m) rng any_fuel any_service self handles any_prefix w =
      (Inr (self\<lparr>srv_outbound_tasks := []\<rparr>, handles, hm_values (srv_outbound_tasks self)), w1)"
    using handle_shutdown_open [OF assms(4) final_state_of_engine] by blast
  then have any: "fst (handle_shutdown (or_set_env pe pd strat reg G m) rng any_fuel any_service self handles any_prefix w) =
      Inr (self\<lparr>srv_outbound_tasks := []\<rparr>, handles, hm_values (srv_outbound_tasks self))"
    by simp
  show ?thesis
    by (rule shutdown_leaves [where from_ts = from_ts and strat = strat and reg = reg and G = G and m = m and rng = rng
          and handles = handles, OF assms(4-11) [unfolded eng_def nid_def], folded eng_def b_def nid_def])
      (intro exI conjI any, assumption+)
qed

theorem graceful_shutdown_witness:
  "\<exists>w' dl final_state.
    handle_shutdown demo_store_env (\<lambda>_. 0) 1 mem_s3 demo_self [EngineLoop] ''gc'' demo_world =
      (Inr (demo_self\<lparr>srv_outbound_tasks := []\<rparr>, [EngineLoop], [()]), w') \<and>
    map_of (sw_store w') (''b'', final_dot_key ''gc'' ''A'' 1) = Some final_state \<and>
    decode_delta decode_elem mem_pb_dec final_state = Inr dl \<and> contains (merge_delta OrSet_new dl) ''x''"
proof -
  let ?w = demo_world
  have eng: "sw_engine ?w = replica demo_added ''A''" by (simp add: demo_world_def)
  have crdt: "orset_inv (eng_crdt (sw_engine ?w))"
    by (simp add: eng demo_added_A del: apply_local.simps) (rule orset_inv_add, simp_all)
  have members: "contains (eng_crdt (sw_engine ?w)) e \<longleftrightarrow> e = ''x''" for e
    using contains_iff [OF crdt, of e] by (simp add: eng demo_added_A live_add del: apply_local.simps)
  have "is_String ''x''" by code_simp
  then have strings: "\<forall>e. contains (eng_crdt (sw_engine ?w)) e \<longrightarrow> is_String e" using members by simp
  have apart: "\<not> starts_with DISCOVERY_NODES_PREFIX (''gc'' @ ''/final_dots/'')"
    by (simp add: DISCOVERY_NODES_PREFIX_def starts_with_def)
  have clock: "dvv_inv (eng_dvv (sw_engine ?w))" "counter (dvv_dot (eng_dvv (sw_engine ?w))) = 1"
    by (simp_all add: eng demo_added_A dvv_inv_event dvv_new_def dvv_inv_def effective_counter_def dvv_event_def Let_def)
  have free: "free_of_pair CHR ''_'' (disc_node_id (srv_discovery demo_self))" and up: "sw_open ?w"
    by (simp_all add: demo_self_def demo_discovery_def demo_world_def)
  have names: "dc_bucket (disc_config (srv_discovery demo_self)) = ''b''" "disc_node_id (srv_discovery demo_self) = ''A''"
    "hm_values (srv_outbound_tasks demo_self) = [()]"
    by (simp_all add: demo_self_def demo_discovery_def)
  note shut = graceful_shutdown [where w = ?w and self = demo_self and prefix = "''gc''" and handles = "[EngineLoop]"
      and rng = "\<lambda>_. 0" and strat = "push_pull_strategy log_send" and reg = peer_registry
      and m = "return_ok []" and G = "s3_gc_storage 1 mem_json mem_s3 \<lparr>bucket = ''b'', key_prefix = ''gc''\<rparr>"
      and any_prefix = "''gc''" and any_fuel = 1 and any_service = mem_s3
      and from_ts = "Some :: int \<Rightarrow> int option", OF up mem_s3_documented [folded One_nat_def] free apart crdt clock(1) mem_pb_documented' strings,
      folded demo_store_env_def, unfolded names clock(2)]
  obtain w' dl fs where w': "handle_shutdown demo_store_env (\<lambda>_. 0) 1 mem_s3 demo_self [EngineLoop] ''gc'' demo_world =
      (Inr (demo_self\<lparr>srv_outbound_tasks := []\<rparr>, [EngineLoop], [()]), w')"
    "map_of (sw_store w') (''b'', final_dot_key ''gc'' ''A'' 1) = Some fs"
    "decode_delta decode_elem mem_pb_dec fs = Inr dl"
    "contains (merge_delta OrSet_new dl) = contains (eng_crdt (sw_engine ?w))"
    using shut by - (elim exE conjE, rule that)
  show ?thesis
  proof (intro exI conjI)
    show "contains (merge_delta OrSet_new dl) ''x''" unfolding w'(4) members ..
  qed (rule w')+
qed

end
