(* ===== verification/Deployment.thy ===== *)
theory Deployment
  imports Server
begin

text \<open>
  The two programs that start servers: \<^verbatim>\<open>src/main.rs\<close>, one server over TCP, and
  \<^verbatim>\<open>src/experiment/experiment.rs\<close>, many servers in one process over the simulated network, with a
  fixed topology of who connects to whom.

  The command line is a record (its parser is a library's).  Indices are natural numbers: counts and ports are
  far below the bound of a machine word, the parsed index is read at its width.  A panic is \<open>None\<close>.
  Durations are in nanoseconds.
\<close>

subsection \<open>A single server\<close>

definition from_secs :: "nat \<Rightarrow> nat" where
  "from_secs n = n * 10 ^ 9"

record Cli =
  cli_listen_host :: string
  cli_listen_port :: string
  cli_name :: "string option"
  cli_client_port :: "string option"
  cli_s3_endpoint :: string
  cli_s3_bucket :: string
  cli_s3_region :: string
  cli_s3_access_key :: string
  cli_s3_secret_key :: string
  cli_discovery_interval_secs :: nat
  cli_registration_ttl_secs :: nat
  cli_discovery_connect_node_ids :: "string option"
  cli_gc_replica :: bool
  cli_gc_prefix :: string
  cli_gc_initiate_interval_secs :: nat
  cli_gc_observe_interval_secs :: nat

definition main_node_name :: "Cli \<Rightarrow> string" where
  "main_node_name cli = unwrap_or (cli_name cli) (cli_listen_host cli)"

definition main_connect_node_ids :: "string option \<Rightarrow> NodeId hset option" where
  "main_connect_node_ids raw_ids =
     (case raw_ids of
        None \<Rightarrow> None
      | Some raw \<Rightarrow>
          let ids = hs_collect (filter (\<lambda>i. i \<noteq> []) (map trim (split_at CHR '','' raw)))
          in if ids \<noteq> [] then Some ids else None)"

definition main_discovery_config :: "Cli \<Rightarrow> DiscoveryConfig" where
  "main_discovery_config cli =
     \<lparr>dc_endpoint = cli_s3_endpoint cli, dc_bucket = cli_s3_bucket cli, dc_region = cli_s3_region cli,
      dc_access_key = cli_s3_access_key cli, dc_secret_key = cli_s3_secret_key cli,
      dc_poll_interval = from_secs (cli_discovery_interval_secs cli),
      dc_registration_ttl = from_secs (cli_registration_ttl_secs cli), dc_gc_replica = cli_gc_replica cli,
      dc_connect_node_ids = main_connect_node_ids (cli_discovery_connect_node_ids cli)\<rparr>"

definition main_server_config :: "Cli \<Rightarrow> ServerConfig" where
  "main_server_config cli =
     \<lparr>sc_listen_host = cli_listen_host cli, sc_listen_port = cli_listen_port cli,
      sc_node_name = main_node_name cli, sc_gc_replica = cli_gc_replica cli, sc_experiment = False,
      sc_client_port = cli_client_port cli\<rparr>"

definition main_gc_config :: "Cli \<Rightarrow> GcConfig" where
  "main_gc_config cli =
     \<lparr>gc_replica = cli_gc_replica cli, observe_interval = from_secs (cli_gc_observe_interval_secs cli),
      storage_config = \<lparr>bucket = cli_s3_bucket cli, key_prefix = cli_gc_prefix cli\<rparr>,
      gc_replica_config = (if cli_gc_replica cli
        then Some \<lparr>initiate_interval = from_secs (cli_gc_initiate_interval_secs cli)\<rparr> else None)\<rparr>"

subsection \<open>The experiment\<close>

definition gc_name :: "nat \<Rightarrow> string" where
  "gc_name r = ''gc-server-'' @ show_nat r"

definition normal_name :: "nat \<Rightarrow> string" where
  "normal_name r = ''normal-server-'' @ show_nat r"

text \<open>A replica to start: its address, name, port and flag; the channel of its application is left out.\<close>

type_synonym replica_entry = "string \<times> NodeId \<times> nat \<times> bool"

definition gc_entry :: "string \<Rightarrow> nat \<Rightarrow> replica_entry" where
  "gc_entry listen_host r =
     (let gc_port = 8000 + r in (listen_host @ '':'' @ show_nat gc_port, gc_name r, gc_port, True))"

definition normal_entry :: "string \<Rightarrow> nat \<Rightarrow> replica_entry" where
  "normal_entry listen_host r =
     (let gc_port = 6000 + r in (listen_host @ '':'' @ show_nat gc_port, normal_name r, gc_port, False))"

definition experiment_replicas :: "string \<Rightarrow> nat \<Rightarrow> nat \<Rightarrow> replica_entry list" where
  "experiment_replicas listen_host num_gc num_normal =
     map (gc_entry listen_host) [1..<num_gc + 1] @ map (normal_entry listen_host) [1..<num_normal + 1]"

text \<open>The map of channels of the simulated network: \<open>app_tx\<close> gives the channel made for an entry.\<close>

definition experiment_channels :: "(replica_entry \<Rightarrow> 'q) \<Rightarrow> replica_entry list \<Rightarrow> 'q PeerChannels" where
  "experiment_channels app_tx entries =
     fold (\<lambda>(addr, name, port, flag) m. hm_insert addr (name, flag, app_tx (addr, name, port, flag)) m) entries []"

text \<open>Who connects to whom.  The remainder by zero, the missing prefix and the index that does not parse are
  panics; so is the subtraction from the index 0, where overflow is checked.\<close>

definition compute_connect_node_ids :: "string \<Rightarrow> bool \<Rightarrow> nat \<Rightarrow> nat \<Rightarrow> NodeId hset option" where
  "compute_connect_node_ids node_name is_gc gc_count normal_count =
     (if is_gc
      then (case Option.bind (strip_prefix ''gc-server-'' node_name) parse_u64 of
          None \<Rightarrow> None
        | Some i \<Rightarrow>
            let idx = unat i;
                gc_peers = map gc_name (filter (\<lambda>j. j \<noteq> idx) [1..<gc_count + 1]);
                normal_peers = map normal_name (filter (\<lambda>i. (i - 1) mod gc_count + 1 = idx) [1..<normal_count + 1])
            in if gc_count = 0 \<and> normal_count \<noteq> 0 then None else Some (hs_collect (gc_peers @ normal_peers)))
      else (case Option.bind (strip_prefix ''normal-server-'' node_name) parse_u64 of
          None \<Rightarrow> None
        | Some i \<Rightarrow>
            let idx = unat i in
            if idx = 0 \<or> gc_count = 0 then None
            else let gc_idx = (idx - 1) mod gc_count + 1 in Some (hs_collect [gc_name gc_idx])))"

record ConfigCliInfo =
  ci_endpoint :: string
  ci_bucket :: string
  ci_region :: string
  ci_access_key :: string
  ci_secret_key :: string
  ci_discovery_interval_secs :: nat
  ci_registration_ttl_secs :: nat
  ci_gc_prefix :: string
  ci_listen_host :: string
  ci_gc_observe_interval_secs :: nat
  ci_gc_initiate_interval_secs :: nat
  ci_num_gc_replicas :: nat
  ci_num_normal_replicas :: nat

text \<open>The allowed peers of a replica: \<open>None\<close> is a panic, \<open>Some None\<close> no restriction.\<close>

definition experiment_connect_node_ids :: "ConfigCliInfo \<Rightarrow> string \<Rightarrow> bool \<Rightarrow> NodeId hset option option" where
  "experiment_connect_node_ids info node_name is_gc =
     (if ci_num_normal_replicas info = 0 then Some None
      else map_option Some (compute_connect_node_ids node_name is_gc (ci_num_gc_replicas info)
             (ci_num_normal_replicas info)))"

definition experiment_discovery_config :: "ConfigCliInfo \<Rightarrow> bool \<Rightarrow> NodeId hset option \<Rightarrow> DiscoveryConfig" where
  "experiment_discovery_config info is_gc connect_node_ids =
     \<lparr>dc_endpoint = ci_endpoint info, dc_bucket = ci_bucket info, dc_region = ci_region info,
      dc_access_key = ci_access_key info, dc_secret_key = ci_secret_key info,
      dc_poll_interval = from_secs (ci_discovery_interval_secs info),
      dc_registration_ttl = from_secs (ci_registration_ttl_secs info), dc_gc_replica = is_gc,
      dc_connect_node_ids = connect_node_ids\<rparr>"

definition experiment_server_config :: "ConfigCliInfo \<Rightarrow> string \<Rightarrow> nat \<Rightarrow> bool \<Rightarrow> ServerConfig" where
  "experiment_server_config info node_name listen_port is_gc =
     \<lparr>sc_listen_host = ci_listen_host info, sc_listen_port = show_nat listen_port, sc_node_name = node_name,
      sc_gc_replica = is_gc, sc_experiment = True, sc_client_port = None\<rparr>"

definition experiment_gc_config :: "ConfigCliInfo \<Rightarrow> bool \<Rightarrow> GcConfig" where
  "experiment_gc_config info is_gc =
     \<lparr>gc_replica = is_gc, observe_interval = from_secs (ci_gc_observe_interval_secs info),
      storage_config = \<lparr>bucket = ci_bucket info, key_prefix = ci_gc_prefix info\<rparr>,
      gc_replica_config = (if is_gc
        then Some \<lparr>initiate_interval = from_secs (ci_gc_initiate_interval_secs info)\<rparr> else None)\<rparr>"

text \<open>One server's life, up to what the given events do; \<open>None\<close> as in \<open>server_run\<close>, and for a panic.\<close>

definition launch ::
  "nat \<Rightarrow> (string OrSet, string OrSetOp, 'dl, 'h, 'h PushPull, 's) engine_env \<Rightarrow> (nat \<Rightarrow> nat) \<Rightarrow> nat \<Rightarrow> ('t \<Rightarrow> int)
     \<Rightarrow> (nat \<Rightarrow> 't option) \<Rightarrow> bytes \<Rightarrow> 's S3 \<Rightarrow> ServerConfig \<Rightarrow> DiscoveryConfig \<Rightarrow> GcConfig \<Rightarrow> server_event list \<Rightarrow> 's
     \<Rightarrow> ((server_error, ('j, 'h) Server \<times> background_task list \<times> 'j list) result option \<times> 's) option" where
  "launch polls E rng fuel to_ts expires body s3 server_config discovery_cfg config events s =
     (case server_new s3 server_config discovery_cfg s of
        (Inl e, s1) \<Rightarrow> Some (Some (Inl (SetupFailed e)), s1)
      | (Inr server, s1) \<Rightarrow>
          map_option (\<lambda>(r, w). (r, sw_store w)) (server_run polls E rng fuel to_ts expires body s3 server config events s1))"

definition init_and_run_server where
  "init_and_run_server polls E rng fuel to_ts expires body s3 info node_name listen_port is_gc events s =
     (case experiment_connect_node_ids info node_name is_gc of
        None \<Rightarrow> None
      | Some connect_node_ids \<Rightarrow>
          launch polls E rng fuel to_ts expires body s3
            (experiment_server_config info node_name listen_port is_gc)
            (experiment_discovery_config info is_gc connect_node_ids)
            (experiment_gc_config info is_gc) events s)"

definition main_server where
  "main_server polls E rng fuel to_ts expires body s3 cli events s =
     launch polls E rng fuel to_ts expires body s3 (main_server_config cli) (main_discovery_config cli)
       (main_gc_config cli) events s"

subsection \<open>Names and addresses\<close>

lemma names_inject [simp]: "gc_name m = gc_name n \<longleftrightarrow> m = n" "normal_name m = normal_name n \<longleftrightarrow> m = n"
  "gc_name m \<noteq> normal_name n" "normal_name n \<noteq> gc_name m"
  by (simp_all add: gc_name_def normal_name_def)

lemma parse_index [simp]:
  assumes "n < 2 ^ 64"
  shows "Option.bind (strip_prefix ''gc-server-'' (gc_name n)) parse_u64 = Some (word_of_nat n)"
    and "Option.bind (strip_prefix ''normal-server-'' (normal_name n)) parse_u64 = Some (word_of_nat n)"
proof -
  have "unat (word_of_nat n :: u64) = n" using assms by (simp add: unsigned_of_nat take_bit_eq_mod)
  then have "parse_u64 (show_nat n) = Some (word_of_nat n)" using parse_u64_show [of "word_of_nat n"] by simp
  then show "Option.bind (strip_prefix ''gc-server-'' (gc_name n)) parse_u64 = Some (word_of_nat n)"
    "Option.bind (strip_prefix ''normal-server-'' (normal_name n)) parse_u64 = Some (word_of_nat n)"
    unfolding gc_name_def normal_name_def by (simp_all only: strip_prefix_append Option.bind.simps)
qed

lemma unat_index: "n < 2 ^ 64 \<Longrightarrow> unat (word_of_nat n :: u64) = n"
  by (simp add: unsigned_of_nat take_bit_eq_mod)

text \<open>The peers of a collector and of a plain replica of the experiment.\<close>

lemma gc_peers:
  assumes "1 \<le> j" "j \<le> gcs" "gcs < 2 ^ 64"
  shows "\<exists>ids. compute_connect_node_ids (gc_name j) True gcs normals = Some ids \<and>
    set ids = gc_name ` ({1..gcs} - {j}) \<union> normal_name ` {i \<in> {1..normals}. (i - 1) mod gcs + 1 = j}"
proof -
  have j: "j < 2 ^ 64" using assms by simp
  have "gcs \<noteq> 0" using assms by simp
  then show ?thesis
    by (auto simp: compute_connect_node_ids_def parse_index [OF j] unat_index [OF j] Let_def)
qed

lemma normal_peers:
  assumes "1 \<le> i" "i < 2 ^ 64" "gcs \<noteq> 0"
  shows "compute_connect_node_ids (normal_name i) False gcs normals = Some [gc_name ((i - 1) mod gcs + 1)]"
  using assms
  by (simp add: compute_connect_node_ids_def parse_index [OF assms(2)] unat_index [OF assms(2)] Let_def hs_collect_def)

text \<open>The topology as a relation, over the replicas the experiment starts.\<close>

definition experiment_nodes :: "nat \<Rightarrow> nat \<Rightarrow> (NodeId \<times> bool) set" where
  "experiment_nodes gcs normals = (\<lambda>(addr, name, port, flag). (name, flag)) ` set (experiment_replicas [] gcs normals)"

definition connects :: "nat \<Rightarrow> nat \<Rightarrow> NodeId \<Rightarrow> NodeId \<Rightarrow> bool" where
  "connects gcs normals a b \<longleftrightarrow> (\<exists>flag ids. (a, flag) \<in> experiment_nodes gcs normals \<and>
     compute_connect_node_ids a flag gcs normals = Some ids \<and> b \<in> set ids)"

abbreviation home :: "nat \<Rightarrow> nat \<Rightarrow> nat" where
  "home gcs i \<equiv> (i - 1) mod gcs + 1"

lemma home_range: "gcs \<noteq> 0 \<Longrightarrow> home gcs i \<in> {1..gcs}"
  by (simp add: Suc_leI)

lemma node_entries:
  "experiment_nodes gcs normals = (\<lambda>j. (gc_name j, True)) ` {1..gcs} \<union> (\<lambda>i. (normal_name i, False)) ` {1..normals}"
  by (force simp: experiment_nodes_def experiment_replicas_def gc_entry_def normal_entry_def Let_def)

lemma connectsI:
  "(a, flag) \<in> experiment_nodes gcs normals \<Longrightarrow> compute_connect_node_ids a flag gcs normals = Some ids \<Longrightarrow>
   b \<in> set ids \<Longrightarrow> connects gcs normals a b"
  unfolding connects_def by blast

lemma connects_iff:
  assumes "1 \<le> gcs" "gcs + normals < 2 ^ 64"
  shows "connects gcs normals a b \<longleftrightarrow>
    (\<exists>i \<in> {1..gcs}. \<exists>j \<in> {1..gcs}. i \<noteq> j \<and> a = gc_name i \<and> b = gc_name j) \<or>
    (\<exists>i \<in> {1..normals}. a = gc_name (home gcs i) \<and> b = normal_name i \<or>
       a = normal_name i \<and> b = gc_name (home gcs i))" (is "_ \<longleftrightarrow> ?R")
proof
  assume "connects gcs normals a b"
  then obtain flag ids where n: "(a, flag) \<in> experiment_nodes gcs normals"
    "compute_connect_node_ids a flag gcs normals = Some ids" "b \<in> set ids"
    unfolding connects_def by blast
  from n(1) consider j where "a = gc_name j" "flag" "1 \<le> j" "j \<le> gcs"
    | i where "a = normal_name i" "\<not> flag" "1 \<le> i" "i \<le> normals"
    unfolding node_entries by auto
  then show ?R
  proof cases
    case 1
    have "gcs < 2 ^ 64" using assms(2) by simp
    from gc_peers [OF 1(3,4) this, of normals] n(2) 1(1,2)
    have "set ids = gc_name ` ({1..gcs} - {j}) \<union> normal_name ` {i \<in> {1..normals}. home gcs i = j}" by auto
    then show ?thesis using n(3) 1 by auto
  next
    case 2
    have "i < 2 ^ 64" "gcs \<noteq> 0" using assms 2 by auto
    from normal_peers [OF 2(3) this, of normals] n(2) 2(1,2) have "ids = [gc_name (home gcs i)]" by simp
    then have "i \<in> {1..normals}" "b = gc_name (home gcs i)" using n(3) 2 by auto
    then show ?thesis using 2(1) by blast
  qed
next
  assume ?R
  then consider i j where "i \<in> {1..gcs}" "j \<in> {1..gcs}" "i \<noteq> j" "a = gc_name i" "b = gc_name j"
    | i where "i \<in> {1..normals}" "a = gc_name (home gcs i)" "b = normal_name i"
    | i where "i \<in> {1..normals}" "a = normal_name i" "b = gc_name (home gcs i)" by blast
  then show "connects gcs normals a b"
  proof cases
    case (1 i j)
    then have "1 \<le> i" "i \<le> gcs" "gcs < 2 ^ 64" using assms(2) by auto
    from gc_peers [OF this, of normals] obtain ids where
      "compute_connect_node_ids a True gcs normals = Some ids" "b \<in> set ids" using 1 by auto
    moreover have "(a, True) \<in> experiment_nodes gcs normals" using 1 unfolding node_entries by auto
    ultimately show ?thesis by (intro connectsI)
  next
    case (2 i)
    have "home gcs i \<in> {1..gcs}" using assms(1) by (intro home_range) simp
    then have h: "1 \<le> home gcs i" "home gcs i \<le> gcs" "gcs < 2 ^ 64" using assms(2) by auto
    from gc_peers [OF this, of normals] obtain ids where
      "compute_connect_node_ids a True gcs normals = Some ids" "b \<in> set ids" using 2 by auto
    moreover have "(a, True) \<in> experiment_nodes gcs normals" using h 2(2) unfolding node_entries by auto
    ultimately show ?thesis by (intro connectsI)
  next
    case (3 i)
    then have "1 \<le> i" "i < 2 ^ 64" "gcs \<noteq> 0" using assms by auto
    from normal_peers [OF this, of normals] have
      "compute_connect_node_ids a False gcs normals = Some [b]" using 3 by simp
    moreover have "(a, False) \<in> experiment_nodes gcs normals" using 3 unfolding node_entries by auto
    moreover have "b \<in> set [b]" by simp
    ultimately show ?thesis by (intro connectsI)
  qed
qed

lemma peers_computed:
  assumes "1 \<le> gcs" "gcs + normals < 2 ^ 64" "(a, flag) \<in> experiment_nodes gcs normals"
  shows "\<exists>ids. compute_connect_node_ids a flag gcs normals = Some ids"
proof -
  from assms(3) consider j where "a = gc_name j" "flag" "1 \<le> j" "j \<le> gcs"
    | i where "a = normal_name i" "\<not> flag" "1 \<le> i" "i \<le> normals"
    unfolding node_entries by auto
  then show ?thesis
  proof cases
    case 1
    have "gcs < 2 ^ 64" using assms(2) by simp
    from gc_peers [OF 1(3,4) this, of normals] 1(1,2) show ?thesis by auto
  next
    case 2
    have "i < 2 ^ 64" "gcs \<noteq> 0" using assms 2 by auto
    from normal_peers [OF 2(3) this, of normals] 2(1,2) show ?thesis by auto
  qed
qed

lemma swap_ends:
  assumes "(\<exists>i \<in> A. \<exists>j \<in> A. i \<noteq> j \<and> a = f i \<and> b = f j) \<or>
    (\<exists>i \<in> B. a = f (h i) \<and> b = g i \<or> a = g i \<and> b = f (h i))"
  shows "(\<exists>i \<in> A. \<exists>j \<in> A. i \<noteq> j \<and> b = f i \<and> a = f j) \<or>
    (\<exists>i \<in> B. b = f (h i) \<and> a = g i \<or> b = g i \<and> a = f (h i))"
  using assms by (elim disjE bexE conjE; metis)

lemma node_names:
  "a \<in> fst ` experiment_nodes gcs normals \<longleftrightarrow> a \<in> gc_name ` {1..gcs} \<or> a \<in> normal_name ` {1..normals}"
  unfolding node_entries by force

lemma connects_gc_path:
  assumes "1 \<le> gcs" "gcs + normals < 2 ^ 64" "a \<in> fst ` experiment_nodes gcs normals" "j \<in> {1..gcs}"
  shows "(connects gcs normals)\<^sup>*\<^sup>* a (gc_name j)" "(connects gcs normals)\<^sup>*\<^sup>* (gc_name j) a"
proof -
  note iff = connects_iff [OF assms(1,2)]
  have gc: "(connects gcs normals)\<^sup>*\<^sup>* (gc_name i) (gc_name k)" if "i \<in> {1..gcs}" "k \<in> {1..gcs}" for i k
    using that iff [of "gc_name i" "gc_name k"] by (cases "i = k") (auto intro: r_into_rtranclp)
  have home: "home gcs i \<in> {1..gcs}" for i using assms(1) by (intro home_range) simp
  have normal: "connects gcs normals (normal_name i) (gc_name (home gcs i))"
    "connects gcs normals (gc_name (home gcs i)) (normal_name i)" if "i \<in> {1..normals}" for i
    using that unfolding iff by blast+
  from assms(3) consider i where "a = gc_name i" "i \<in> {1..gcs}" | i where "a = normal_name i" "i \<in> {1..normals}"
    unfolding node_names by blast
  then have "(connects gcs normals)\<^sup>*\<^sup>* a (gc_name j) \<and> (connects gcs normals)\<^sup>*\<^sup>* (gc_name j) a"
  proof cases
    case 1
    then show ?thesis using gc assms(4) by blast
  next
    case 2
    then show ?thesis
      using converse_rtranclp_into_rtranclp [OF normal(1) gc [OF home assms(4)]]
        rtranclp.rtrancl_into_rtrancl [OF gc [OF assms(4) home] normal(2)] by blast
  qed
  then show "(connects gcs normals)\<^sup>*\<^sup>* a (gc_name j)" "(connects gcs normals)\<^sup>*\<^sup>* (gc_name j) a" by blast+
qed

lemma split_join:
  "ids \<noteq> [] \<Longrightarrow> (\<And>i. i \<in> set ids \<Longrightarrow> c \<notin> set i) \<Longrightarrow> split_at c (join_with [c] ids) = ids"
  by (induction "[c]" ids rule: join_with.induct) (simp_all add: split_at_append)

lemma addresses_distinct:
  "distinct (map fst (experiment_replicas host gcs normals)) \<longleftrightarrow> gcs = 0 \<or> normals \<le> 2000"
proof -
  have gc: "map fst (map (gc_entry host) xs) = map (\<lambda>p. host @ '':'' @ show_nat p) (map (\<lambda>r. 8000 + r) xs)" for xs
    by (simp add: gc_entry_def Let_def)
  have normal: "map fst (map (normal_entry host) xs) = map (\<lambda>p. host @ '':'' @ show_nat p) (map (\<lambda>r. 6000 + r) xs)" for xs
    by (simp add: normal_entry_def Let_def)
  have inj: "inj (\<lambda>p. host @ '':'' @ show_nat p)" by (simp add: inj_def)
  have "distinct (map fst (experiment_replicas host gcs normals)) \<longleftrightarrow>
      distinct (map (\<lambda>r. 8000 + r) [1..<gcs + 1] @ map (\<lambda>r. 6000 + r) [1..<normals + 1])"
    unfolding experiment_replicas_def map_append gc normal
    unfolding map_append [symmetric] distinct_map using inj_on_subset [OF inj subset_UNIV] by blast
  also have "\<dots> \<longleftrightarrow> {8001..8000 + gcs} \<inter> {6001..6000 + normals} = {}"
  proof -
    have "(\<lambda>r. 8000 + r) ` {1..<gcs + 1} = {8001..8000 + gcs}" "(\<lambda>r. 6000 + r) ` {1..<normals + 1} = {6001..6000 + normals}"
      by (auto simp: image_iff intro!: bexI [of _ "_ - 8000"] bexI [of _ "_ - 6000"])
    then show ?thesis by (simp add: distinct_map inj_on_def del: upt_Suc)
  qed
  also have "\<dots> \<longleftrightarrow> gcs = 0 \<or> normals \<le> 2000" by (auto simp: disjoint_iff)
  finally show ?thesis .
qed

text \<open>The channel found under an address is the one of the last entry with that address.\<close>

lemma hm_get_channels:
  "hm_get (fold (\<lambda>(addr, name, port, flag) m. hm_insert addr (name, flag, f (addr, name, port, flag)) m) es m) a =
     (case map_of (rev es) a of None \<Rightarrow> hm_get m a | Some (name, port, flag) \<Rightarrow> Some (name, flag, f (a, name, port, flag)))"
proof (induction es arbitrary: m)
  case (Cons e es)
  obtain addr name port flag where e: "e = (addr, name, port, flag)" by (metis prod_cases4)
  show ?case
    unfolding e fold_Cons o_apply prod.case Cons.IH
    by (auto simp: map_add_def split: option.splits)
qed simp

subsection \<open>Properties\<close>

text \<open>C31.  The topology of an experiment.  With at least one collector, no replica's peer list panics, none
  contains the replica itself or a name that is not started; the relation is symmetric, so whichever side's rule
  opens the connection both allow it; every plain replica has exactly one peer, a collector; and any
  two replicas are joined by a path of allowed connections.\<close>

theorem topology_connected:
  assumes "1 \<le> gcs" "gcs + normals < 2 ^ 64"
  shows "(\<forall>(a, flag) \<in> experiment_nodes gcs normals. \<exists>ids. compute_connect_node_ids a flag gcs normals = Some ids \<and>
      a \<notin> set ids \<and> set ids \<subseteq> fst ` experiment_nodes gcs normals) \<and>
    (\<forall>a b. connects gcs normals a b \<longleftrightarrow> connects gcs normals b a) \<and>
    (\<forall>i \<in> {1..normals}. {g. connects gcs normals (normal_name i) g} = {gc_name ((i - 1) mod gcs + 1)}) \<and>
    (\<forall>a \<in> fst ` experiment_nodes gcs normals. \<forall>b \<in> fst ` experiment_nodes gcs normals.
      (connects gcs normals)\<^sup>*\<^sup>* a b)"
proof (intro conjI)
  note iff = connects_iff [OF assms]
  have home: "home gcs i \<in> {1..gcs}" for i using assms(1) by (intro home_range) simp
  have own: "\<not> connects gcs normals a a" for a unfolding iff by auto
  have started: "connects gcs normals a b \<Longrightarrow> b \<in> fst ` experiment_nodes gcs normals" for a b
    unfolding iff node_names using home by blast
  show "\<forall>(a, flag) \<in> experiment_nodes gcs normals. \<exists>ids. compute_connect_node_ids a flag gcs normals = Some ids \<and>
      a \<notin> set ids \<and> set ids \<subseteq> fst ` experiment_nodes gcs normals"
  proof (clarify, intro exI conjI)
    fix a flag assume n: "(a, flag) \<in> experiment_nodes gcs normals"
    define ids where "ids = the (compute_connect_node_ids a flag gcs normals)"
    show c: "compute_connect_node_ids a flag gcs normals = Some ids" using peers_computed [OF assms n] by (auto simp: ids_def)
    show "a \<notin> set ids" using own [of a] connectsI [OF n c] by (rule contrapos_nn)
    show "set ids \<subseteq> fst ` experiment_nodes gcs normals" using started [OF connectsI [OF n c]] by (rule subsetI)
  qed
  have sym: "connects gcs normals a b \<Longrightarrow> connects gcs normals b a" for a b
    unfolding iff by (rule swap_ends [where f = gc_name and g = normal_name and h = "home gcs"])
  show "\<forall>a b. connects gcs normals a b \<longleftrightarrow> connects gcs normals b a" by (intro allI iffI; erule sym)
  show "\<forall>i \<in> {1..normals}. {g. connects gcs normals (normal_name i) g} = {gc_name ((i - 1) mod gcs + 1)}"
    unfolding iff by auto
  have one: "1 \<in> {1..gcs}" using assms(1) by auto
  show "\<forall>a \<in> fst ` experiment_nodes gcs normals. \<forall>b \<in> fst ` experiment_nodes gcs normals.
      (connects gcs normals)\<^sup>*\<^sup>* a b"
    by (intro ballI) (rule rtranclp_trans [OF connects_gc_path(1) [OF assms _ one] connects_gc_path(2) [OF assms _ one]])
qed

theorem topology_connected_witness:
  "(connects 2 3)\<^sup>*\<^sup>* ''normal-server-1'' ''normal-server-2''"
proof -
  have names: "normal_name 1 = ''normal-server-1''" "normal_name 2 = ''normal-server-2''"
    by (simp_all add: normal_name_def show_nat.simps digit_def char_of_def bit_0)
  have "normal_name i \<in> fst ` experiment_nodes 2 3" if "i \<in> {1..3}" for i using that unfolding node_names by blast
  from this [of 1] this [of 2] have nodes: "''normal-server-1'' \<in> fst ` experiment_nodes 2 3"
    "''normal-server-2'' \<in> fst ` experiment_nodes 2 3" unfolding names by simp_all
  have "\<forall>a \<in> fst ` experiment_nodes 2 3. \<forall>b \<in> fst ` experiment_nodes 2 3. (connects 2 3)\<^sup>*\<^sup>* a b"
    by (rule topology_connected [THEN conjunct2, THEN conjunct2, THEN conjunct2]) simp_all
  then show ?thesis using nodes by blast
qed

text \<open>Addresses of an experiment.  The collectors' ports start at 8001 and the others' at 6001, so the
  addresses are distinct exactly when there are at most 2000 plain replicas (or no collector); then every
  address leads to its replica's channel.  With more, the first collector's address leads to the channel
  of plain replica 2001.\<close>

theorem experiment_addresses:
  "(distinct (map fst (experiment_replicas host gcs normals)) \<longleftrightarrow> gcs = 0 \<or> normals \<le> 2000) \<and>
   (normals \<le> 2000 \<longrightarrow> (\<forall>(addr, name, port, flag) \<in> set (experiment_replicas host gcs normals).
      hm_get (experiment_channels tx (experiment_replicas host gcs normals)) addr =
        Some (name, flag, tx (addr, name, port, flag)))) \<and>
   (1 \<le> gcs \<and> 2001 \<le> normals \<longrightarrow>
      (\<exists>q. hm_get (experiment_channels tx (experiment_replicas host gcs normals)) (fst (gc_entry host 1)) =
        Some (normal_name 2001, False, q)))"
proof (intro conjI impI)
  let ?es = "experiment_replicas host gcs normals"
  show "distinct (map fst ?es) \<longleftrightarrow> gcs = 0 \<or> normals \<le> 2000" by (rule addresses_distinct)
  show "\<forall>(addr, name, port, flag) \<in> set ?es. hm_get (experiment_channels tx ?es) addr =
      Some (name, flag, tx (addr, name, port, flag))" if "normals \<le> 2000"
  proof -
    have "distinct (map fst (rev ?es))" using addresses_distinct [of host gcs normals] that by (simp add: rev_map [symmetric])
    then have "map_of (rev ?es) addr = Some x" if "(addr, x) \<in> set ?es" for addr x
      using that by (intro map_of_is_SomeI) simp_all
    then show ?thesis unfolding experiment_channels_def hm_get_channels by fastforce
  qed
  show "\<exists>q. hm_get (experiment_channels tx ?es) (fst (gc_entry host 1)) = Some (normal_name 2001, False, q)"
    if "1 \<le> gcs \<and> 2001 \<le> normals"
  proof -
    let ?ns = "map (normal_entry host) [1..<normals + 1]"
    have "map_of (rev ?ns) (fst (normal_entry host 2001)) = Some (snd (normal_entry host 2001))"
    proof (rule map_of_is_SomeI)
      have "distinct (map fst ?ns)" by (auto simp: distinct_map inj_on_def normal_entry_def Let_def)
      then show "distinct (map fst (rev ?ns))" by (simp add: rev_map [symmetric])
      show "(fst (normal_entry host 2001), snd (normal_entry host 2001)) \<in> set (rev ?ns)"
        using that by (simp del: upt_Suc)
    qed
    moreover have "fst (normal_entry host 2001) = fst (gc_entry host 1)"
      by (simp add: normal_entry_def gc_entry_def Let_def)
    ultimately have "map_of (rev ?es) (fst (gc_entry host 1)) = Some (normal_name 2001, 8001, False)"
      by (simp add: experiment_replicas_def map_add_def del: map_of_eq_Some_iff)
        (simp add: normal_entry_def Let_def)
    then show ?thesis unfolding experiment_channels_def hm_get_channels by simp
  qed
qed

theorem experiment_addresses_witness:
  "distinct (map fst (experiment_replicas ''h'' 3 2000)) \<and> \<not> distinct (map fst (experiment_replicas ''h'' 1 2001)) \<and>
   hm_get (experiment_channels (\<lambda>_. ()) (experiment_replicas ''h'' 1 1)) ''h:8001'' = Some (''gc-server-1'', True, ())"
proof -
  have "gc_entry ''h'' 1 = (''h:8001'', ''gc-server-1'', 8001, True)"
    by (simp add: gc_entry_def gc_name_def Let_def show_nat.simps digit_def char_of_def bit_0)
  then have "(''h:8001'', ''gc-server-1'', 8001, True) \<in> set (experiment_replicas ''h'' 1 1)"
    by (simp add: experiment_replicas_def)
  with experiment_addresses [of "''h''" 1 1 "\<lambda>_. ()", THEN conjunct2, THEN conjunct1] have
    "hm_get (experiment_channels (\<lambda>_. ()) (experiment_replicas ''h'' 1 1)) ''h:8001'' = Some (''gc-server-1'', True, ())"
    by fastforce
  moreover have "distinct (map fst (experiment_replicas ''h'' 3 2000))"
    by (rule experiment_addresses [THEN conjunct1, THEN iffD2]) simp
  moreover have "\<not> distinct (map fst (experiment_replicas ''h'' 1 2001))"
    unfolding experiment_addresses [THEN conjunct1] by simp
  ultimately show ?thesis by blast
qed

text \<open>The list of allowed peers on the command line: ids joined by commas, possibly with blanks around
  them, are read back as that set; a list of blanks only is no restriction at all, like a missing one.\<close>

theorem connect_ids_read_back:
  assumes "\<And>i. i \<in> set ids \<Longrightarrow> CHR '','' \<notin> set i"
  shows "main_connect_node_ids (Some (join_with '','' ids)) =
      (if \<forall>i \<in> set ids. trim i = [] then None else Some (hs_collect (filter (\<lambda>i. i \<noteq> []) (map trim ids))))"
proof (cases "ids = []")
  case True
  then show ?thesis by (simp add: main_connect_node_ids_def trim_def hs_collect_def)
next
  case False
  have "hs_collect xs = [] \<longleftrightarrow> xs = []" for xs :: "string list"
    using set_hs_collect [of xs] by (metis set_empty)
  then show ?thesis
    using split_join [OF False, of "CHR '',''"] assms
    by (auto simp: main_connect_node_ids_def Let_def filter_empty_conv)
qed

theorem connect_ids_read_back_witness:
  "main_connect_node_ids (Some (join_with '','' ['' n1'', ''n2'', '' ''])) = Some (hs_collect [''n1'', ''n2''])"
proof -
  have t: "trim '' n1'' = ''n1''" "trim ''n2'' = ''n2''" "trim '' '' = []" by code_simp+
  show ?thesis
    by (subst connect_ids_read_back) (auto simp: t)
qed

end
