(* ===== verification/Server_Life.thy ===== *)
theory Server_Life
  imports Deployment
begin

text \<open>
  The whole life of a server of an experiment, from its configuration to its shutdown: the theories before
  composed.  The bucket may hold the registrations of other servers but no epoch yet; the server
  registers, bootstraps, adds the value of the experiment, serves and leaves.
\<close>

subsection \<open>The directory and the collector's keys\<close>

lemma registered_after_register:
  assumes "parse_registration_key from_ts k = Inr r" "objs s' = (objs s)((b, k) \<mapsto> body)"
  shows "registered_nodes from_ts objs b s' = insert (reg_node_id r) (registered_nodes from_ts objs b s)"
proof -
  have "objs s' (b, k') \<noteq> None \<longleftrightarrow> k' = k \<or> objs s (b, k') \<noteq> None" for k' using assms(2) by simp
  then show ?thesis unfolding registered_nodes_def using assms(1) by auto
qed

definition gc_directory :: "GcStorageConfig \<Rightarrow> string" where
  "gc_directory c = trim_end_matches CHR ''/'' (key_prefix c) @ ''/''"

lemma gc_keys_inside:
  "starts_with (gc_directory c) (epoch_metadata_key c)" "starts_with (gc_directory c) (epoch_state_key c)"
  "starts_with (gc_directory c) (gc_intent_key c n)"
  by (simp_all add: gc_directory_def epoch_metadata_key_def epoch_state_key_def gc_intent_key_def storage_key_def
      starts_with_iff)

text \<open>A directory without objects is a storage at epoch 0.\<close>

lemma empty_gc_storage:
  assumes "s3_documented fuel s3 objs" "json_documented js"
    and "\<forall>k. starts_with (gc_directory c) k \<longrightarrow> objs s (bucket c, k) = None"
  shows "s3_gc_ok fuel js s3 objs c s" and "gv_metadata (s3_view js objs c s) = default_epoch_metadata"
    and "gv_state (s3_view js objs c s) = default_epoch_state" and "gv_intent (s3_view js objs c s) n = None"
  using assms(1,2) gc_keys_inside [THEN assms(3) [rule_format]] by (simp_all add: s3_gc_ok_def s3_view_def unwrap_or_def)

subsection \<open>The first bootstrap\<close>

definition empty_message :: ProtoOrSetDelta where
  "empty_message =
     \<lparr>pos_adds = [], pos_tombstones = [], pos_context = [], pos_dot_node = [], pos_dot_counter = 0\<rparr>"

lemma first_bootstrap:
  assumes "s3_documented fuel s3 objs" "json_documented js"
    and "\<forall>k. starts_with (gc_directory c) k \<longrightarrow> objs s (bucket c, k) = None"
    and "pd [] = Inr empty_message" "polls \<noteq> 0"
  shows "\<exists>eng'. engine_bootstrap polls (or_set_env pe pd strat reg (s3_gc_storage fuel js s3 c) m)
      (engine_new nid cid OrSet_new d cfg) s = Some (Inr (), eng', s) \<and>
    eng_crdt eng' = OrSet_new \<and> eng_dvv eng' = dvv_new nid"
proof -
  note fresh = empty_gc_storage [OF assms(1), OF assms(2,3)]
  have "decode_delta decode_elem pd [] =
      Inr \<lparr>od_adds = [], od_tombstones = [], od_context = [], od_dot_node = [], od_dot_counter = 0\<rparr>"
    by (simp add: decode_delta_def assms(4) empty_message_def)
  then have "install_snapshot (or_set_crdt pe pd) nid 0 default_epoch_state (gc_fields (engine_new nid cid OrSet_new d cfg)) =
      (Inr (), (coordinator_new cfg)\<lparr>gc_epoch := 0\<rparr>, OrSet_new, dvv_new nid)"
    by (simp add: install_snapshot_def or_set_crdt_def default_epoch_state_def gc_fields_def frontier_dvv_def
        dvv_merge_def effective_map_def merge_delta_def OrSet_new_def hm_retain_def)
  then show ?thesis
    using assms(5) fresh(4) unfolding engine_bootstrap_def
    by (simp add: s3gc.bootstrap_eq [OF fresh(1)] fresh(2,3) default_epoch_metadata_def default_epoch_state_def
        or_set_env_def set_gc_fields_def)
qed

subsection \<open>A server that runs alone\<close>

lemma ticks_change_nothing:
  "sw_open w \<Longrightarrow> \<exists>w'. main_loop E rng fuel s3 self handles prefix (replicate n MetricsTick @ later) w =
      main_loop E rng fuel s3 self handles prefix later w' \<and>
    sw_open w' \<and> sw_engine w' = sw_engine w \<and> sw_store w' = sw_store w"
proof (induction n arbitrary: w)
  case (Suc n)
  let ?w1 = "live_step E rng LogCrdtMetrics w"
  have "sw_engine ?w1 = sw_engine w" "sw_store ?w1 = sw_store w" by (simp_all add: live_step_def)
  then show ?case using Suc.IH [of ?w1] Suc.prems by (simp add: live_send_open)
qed (intro exI conjI; simp)

definition started_tasks :: "('j, 'h) Server \<Rightarrow> GcConfig \<Rightarrow> background_task list" where
  "started_tasks self config =
     [PullLoop (10 ^ 9)] @ (case srv_client_port self of Some port \<Rightarrow> [ClientListener port] | None \<Rightarrow> []) @
     [NetworkBackground (srv_listen_port self) (srv_node_id self) (srv_node_name self) (srv_gc_replica self), DiscoveryLoop] @
     gc_loops (start_gc_loops (server_engine self config)) @ [EngineLoop]"

lemma server_starts:
  fixes self :: "('j, 'h) Server" and config
  defines "d \<equiv> srv_discovery self" and "c \<equiv> storage_config config"
  assumes E_def: "E = or_set_env pe pd (push_pull_strategy send) peer_registry (s3_gc_storage fuel js s3 c) m"
    and "s3_documented fuel s3 objs" "json_documented js" "pd [] = Inr empty_message" "polls \<noteq> 0"
    and "expires (dc_registration_ttl (disc_config d)) = Some t" "srv_experiment self"
    and own: "\<forall>k. starts_with (registration_key_prefix (disc_node_id d)) k \<longrightarrow> objs s (dc_bucket (disc_config d), k) = None"
    and gc: "\<forall>k. starts_with (gc_directory c) k \<longrightarrow> objs s (bucket c, k) = None"
    and apart: "\<not> starts_with (gc_directory c) (registration_key to_ts (disc_node_id d) t
      (dc_gc_replica (disc_config d)) (disc_listen_host d @ '':'' @ disc_listen_port d))"
  obtains w where "\<And>events. server_run polls E rng fuel to_ts expires body s3 self config events s =
      Some (main_loop E rng fuel s3 self (started_tasks self config) (key_prefix c) events w)"
    and "objs (sw_store w) = (objs s)((dc_bucket (disc_config d), registration_key to_ts (disc_node_id d) t
      (dc_gc_replica (disc_config d)) (disc_listen_host d @ '':'' @ disc_listen_port d)) \<mapsto> body)"
    and "sw_open w" "eng_dvv (sw_engine w) = dvv_event (dvv_new (srv_node_id self))"
    and "eng_crdt (sw_engine w) = apply_local OrSet_new (Dot_new (srv_node_id self) 1) (Add (''test-'' @ srv_node_id self))"
proof -
  let ?key = "registration_key to_ts (disc_node_id d) t
      (dc_gc_replica (disc_config d)) (disc_listen_host d @ '':'' @ disc_listen_port d)"
  let ?world = "\<lparr>sw_open = True, sw_engine = server_engine self config, sw_store = s, sw_response = None, sw_served = 0\<rparr>"
  obtain s1 where s1: "register fuel to_ts expires body s3 d s = (Inr (), s1)"
    "objs s1 = (objs s)((dc_bucket (disc_config d), ?key) \<mapsto> body)"
    using register_ok [where expires = expires and self = d and s = s and to_ts = to_ts and body = body,
        OF assms(4,8) own [rule_format]] by blast
  have quiet: "\<forall>k. starts_with (gc_directory c) k \<longrightarrow> objs s1 (bucket c, k) = None"
    using gc apart by (auto simp: s1(2))
  obtain eng where eng: "engine_bootstrap polls E (server_engine self config) s1 = Some (Inr (), eng, s1)"
    "eng_crdt eng = OrSet_new" "eng_dvv eng = dvv_new (srv_node_id self)"
    using first_bootstrap [where pd = pd and objs = objs, OF assms(4,5) quiet assms(6,7)] unfolding E_def server_engine_def by metis
  let ?w1 = "?world\<lparr>sw_store := s1, sw_engine := eng\<rparr>"
  let ?w = "live_step E rng (ClientOperation (Add (''test-'' @ srv_node_id self))) ?w1"
  have "start_discovery fuel to_ts expires body s3 self ?world = (Inr DiscoveryLoop, ?world\<lparr>sw_store := s1\<rparr>)"
    using s1(1) by (simp add: start_discovery_def and_then_def on_store_def return_ok_def d_def)
  moreover have "spawn_engine polls E (?world\<lparr>sw_store := s1\<rparr>) = Some ?w1"
    using eng(1) by (simp add: spawn_engine_def)
  ultimately have start: "start_background_tasks polls E rng fuel to_ts expires body s3 self ?world =
      Some (Inr (tl (started_tasks self config)), ?w)"
    using assms(9) by (simp add: start_background_tasks_def Let_def live_send_open started_tasks_def)
  have w: "objs (sw_store ?w) = (objs s)((dc_bucket (disc_config d), ?key) \<mapsto> body)" "sw_open ?w"
    "eng_dvv (sw_engine ?w) = dvv_event (dvv_new (srv_node_id self))"
    "eng_crdt (sw_engine ?w) = apply_local OrSet_new (Dot_new (srv_node_id self) 1) (Add (''test-'' @ srv_node_id self))"
    using eng(2,3) s1(2) by (simp_all add: live_step_def E_def or_set_crdt_def dvv_new_def)
  show ?thesis
  proof (rule that [OF _ w])
    fix events
    show "server_run polls E rng fuel to_ts expires body s3 self config events s =
        Some (main_loop E rng fuel s3 self (started_tasks self config) (key_prefix c) events ?w)"
      using start by (simp add: server_run_def Let_def c_def started_tasks_def server_dissemination_def
          push_pull_start_pull_loop_def push_pull_new_def)
  qed
qed

text \<open>The engine's environment in an experiment, and the server \<open>Server::new\<close> makes of a configuration.\<close>

definition experiment_env where
  "experiment_env pe pd send fuel js s3 m info is_gc =
     or_set_env pe pd (push_pull_strategy send) peer_registry
       (s3_gc_storage fuel js s3 (storage_config (experiment_gc_config info is_gc))) m"

definition experiment_server :: "ConfigCliInfo \<Rightarrow> NodeId \<Rightarrow> nat \<Rightarrow> bool \<Rightarrow> NodeId hset option \<Rightarrow> ('j, 'h) Server" where
  "experiment_server info name port is_gc ids =
     \<lparr>srv_node_id = name, srv_node_name = name, srv_gc_replica = is_gc, srv_experiment = True,
      srv_listen_port = show_nat port, srv_client_port = None, srv_registry = registry_new,
      srv_discovery = \<lparr>disc_config = experiment_discovery_config info is_gc ids, disc_node_id = name,
        disc_listen_host = ci_listen_host info, disc_listen_port = show_nat port\<rparr>,
      srv_outbound_tasks = []\<rparr>"

lemma experiment_server_new:
  "req_head_bucket s3 (ci_bucket info) s = (Inr (), s) \<Longrightarrow>
   server_new s3 (experiment_server_config info name port is_gc) (experiment_discovery_config info is_gc ids) s =
     (Inr (experiment_server info name port is_gc ids), s)"
  by (simp add: server_new_def discovery_new_def ensure_bucket_def and_then_def return_ok_def Let_def
      experiment_server_def experiment_server_config_def experiment_discovery_config_def)

lemma experiment_server_simps:
  "srv_node_id (experiment_server info name port is_gc ids) = name"
  "srv_experiment (experiment_server info name port is_gc ids)"
  "disc_node_id (srv_discovery (experiment_server info name port is_gc ids)) = name"
  "disc_listen_host (srv_discovery (experiment_server info name port is_gc ids)) = ci_listen_host info"
  "disc_listen_port (srv_discovery (experiment_server info name port is_gc ids)) = show_nat port"
  "dc_bucket (disc_config (srv_discovery (experiment_server info name port is_gc ids))) = ci_bucket info"
  "dc_gc_replica (disc_config (srv_discovery (experiment_server info name port is_gc ids))) = is_gc"
  "dc_registration_ttl (disc_config (srv_discovery (experiment_server info name port is_gc ids))) =
     from_secs (ci_registration_ttl_secs info)"
  "hm_values (srv_outbound_tasks (experiment_server info name port is_gc ids)) = []"
  by (simp_all add: experiment_server_def experiment_discovery_config_def)

lemma init_experiment:
  assumes "req_head_bucket s3 (ci_bucket info) s = (Inr (), s)" "experiment_connect_node_ids info name is_gc = Some ids"
  shows "init_and_run_server polls E rng fuel to_ts expires body s3 info name port is_gc events s =
    map_option (\<lambda>(r, w). (r, sw_store w)) (server_run polls E rng fuel to_ts expires body s3
      (experiment_server info name port is_gc ids) (experiment_gc_config info is_gc) events s)"
  by (simp add: init_and_run_server_def launch_def assms(2) experiment_server_new [OF assms(1)])

text \<open>Where the collector's directory and that of the registrations do not contain each other, nothing is in both.\<close>

lemma directories_apart:
  assumes "\<not> starts_with DISCOVERY_NODES_PREFIX p" "\<not> starts_with p DISCOVERY_NODES_PREFIX" "starts_with p k"
  shows "\<not> starts_with DISCOVERY_NODES_PREFIX k"
  using starts_with_longer [of DISCOVERY_NODES_PREFIX k p] assms by blast

lemma unregistered:
  assumes "\<forall>k. objs s (b, k) \<noteq> None \<longrightarrow> \<not> starts_with (registration_key_prefix name) k" "free_of_pair CHR ''_'' name"
  shows "name \<notin> registered_nodes from_ts objs b s"
  using assms registered_prefix [OF _ assms(2), of from_ts] unfolding registered_nodes_def by blast

lemma test_set:
  "orset_inv (apply_local OrSet_new (Dot_new n 1) (Add v))"
  "contains (apply_local OrSet_new (Dot_new n 1) (Add v)) e \<longleftrightarrow> e = v"
proof -
  show i: "orset_inv (apply_local OrSet_new (Dot_new n 1) (Add v))" by (rule orset_inv_add) simp_all
  show "contains (apply_local OrSet_new (Dot_new n 1) (Add v)) e \<longleftrightarrow> e = v"
    unfolding contains_iff [OF i] by (simp add: live_add del: apply_local.simps)
qed

text \<open>A server whose only operation was the experiment's, cancelled after some ticks.\<close>

lemma alone_stops:
  fixes w :: "(string OrSet, 'd, 's) live_server" and self :: "('j, 'h) Server"
  assumes "sw_open w" "eng_dvv (sw_engine w) = dvv_event (dvv_new nid)"
      "eng_crdt (sw_engine w) = apply_local OrSet_new (Dot_new nid 1) (Add v)"
    and "s3_documented fuel s3 objs" "free_of_pair CHR ''_'' nid"
      "\<not> starts_with DISCOVERY_NODES_PREFIX (prefix @ ''/final_dots/'')"
    and "pb_documented pe pd" "is_String v" "disc_node_id (srv_discovery self) = nid"
  obtains w' dl final_state where
    "main_loop (or_set_env pe pd strat reg G m) rng fuel s3 self handles prefix (replicate n MetricsTick @ Cancelled # later) w =
      (Some (Inr (self\<lparr>srv_outbound_tasks := []\<rparr>, handles, hm_values (srv_outbound_tasks self))), w')"
    and "registered_nodes from_ts objs (dc_bucket (disc_config (srv_discovery self))) (sw_store w') =
      registered_nodes from_ts objs (dc_bucket (disc_config (srv_discovery self))) (sw_store w) - {nid}"
    and "objs (sw_store w') (dc_bucket (disc_config (srv_discovery self)), final_dot_key prefix nid 1) = Some final_state"
    and "decode_delta decode_elem pd final_state = Inr dl" and "{e. contains (merge_delta OrSet_new dl) e} = {v}"
proof -
  let ?E = "or_set_env pe pd strat reg G m"
  obtain w2 where w2: "main_loop ?E rng fuel s3 self handles prefix (replicate n MetricsTick @ Cancelled # later) w =
      main_loop ?E rng fuel s3 self handles prefix (Cancelled # later) w2"
    "sw_open w2" "sw_engine w2 = sw_engine w" "sw_store w2 = sw_store w"
    using ticks_change_nothing [OF assms(1), of ?E rng fuel s3 self handles prefix n "Cancelled # later"] by blast
  have engine: "orset_inv (eng_crdt (sw_engine w2))" "dvv_inv (eng_dvv (sw_engine w2))"
    "\<forall>e. contains (eng_crdt (sw_engine w2)) e \<longrightarrow> is_String e" "counter (dvv_dot (eng_dvv (sw_engine w2))) = 1"
    "{e. contains (eng_crdt (sw_engine w2)) e} = {v}"
    unfolding w2(3) assms(2,3) using assms(8)
    by (simp_all add: test_set dvv_inv_event dvv_inv_new del: apply_local.simps)
  obtain w3 dl final_state where w3: "handle_shutdown ?E rng fuel s3 self handles prefix w2 =
      (Inr (self\<lparr>srv_outbound_tasks := []\<rparr>, handles, hm_values (srv_outbound_tasks self)), w3)"
    "registered_nodes from_ts objs (dc_bucket (disc_config (srv_discovery self))) (sw_store w3) =
      registered_nodes from_ts objs (dc_bucket (disc_config (srv_discovery self))) (sw_store w2) - {nid}"
    "objs (sw_store w3) (dc_bucket (disc_config (srv_discovery self)), final_dot_key prefix nid 1) = Some final_state"
    "decode_delta decode_elem pd final_state = Inr dl" "contains (merge_delta OrSet_new dl) = contains (eng_crdt (sw_engine w2))"
    by (rule shutdown_leaves [where w = w2 and self = self and from_ts = from_ts, unfolded assms(9) engine(4),
          OF w2(2) assms(4,5,6) engine(1,2) assms(7) engine(3)]) (rule that)
  show ?thesis
    by (rule that [OF _ _ w3(3,4)]) (simp_all add: w2(1,4) w3(1,2,5) engine(5))
qed

subsection \<open>Properties\<close>

text \<open>A protobuf codec for which no bytes are the empty message, and a configuration.\<close>

definition demo_pb_enc :: "ProtoOrSetDelta \<Rightarrow> bytes" where
  "demo_pb_enc p = 0 # mem_pb_enc p"

definition demo_pb_dec :: "bytes \<Rightarrow> (wire_error, ProtoOrSetDelta) result" where
  "demo_pb_dec bs = (case bs of [] \<Rightarrow> Inr empty_message | _ # bs' \<Rightarrow> mem_pb_dec bs')"

definition demo_info :: ConfigCliInfo where
  "demo_info = \<lparr>ci_endpoint = [], ci_bucket = ''b'', ci_region = [], ci_access_key = [], ci_secret_key = [],
     ci_discovery_interval_secs = 1, ci_registration_ttl_secs = 1, ci_gc_prefix = ''gc'', ci_listen_host = ''h'',
     ci_gc_observe_interval_secs = 1, ci_gc_initiate_interval_secs = 1, ci_num_gc_replicas = 1,
     ci_num_normal_replicas = 0\<rparr>"



end
