(* ===== verification/Networks.thy ===== *)
theory Networks
  imports Connection Discovery
begin

text \<open>
  The trait \<^verbatim>\<open>Network\<close> of \<^verbatim>\<open>src/network/mod.rs\<close> with its two implementations (\<^verbatim>\<open>TcpNetwork\<close>,
  \<^verbatim>\<open>SimulatedNetwork\<close>), the \<^verbatim>\<open>PeerConnector\<close> that dials through it, and who is connected to whom after the
  servers have reconciled with the directory.

  A spawned task is the function it runs, waiting for what the world gives it: the resolver and the outcomes of
  \<^verbatim>\<open>connect\<close> or \<^verbatim>\<open>accept\<close>, and for the simulated network what comes to be sent.  The registry and the
  application's channel, shared by handle in the code, are its state.
\<close>

subsection \<open>The trait\<close>

record ('o, 'b) network =
  net_spawn_outbound :: "string \<Rightarrow> NodeId \<Rightarrow> NodeId \<Rightarrow> bool \<Rightarrow> 'o"
  net_start_background :: "string \<Rightarrow> NodeId \<Rightarrow> NodeId \<Rightarrow> bool \<Rightarrow> 'b"
  net_allow_bidirectional :: bool

definition default_allow_bidirectional :: bool where
  "default_allow_bidirectional = False"

text \<open>The resolver answers a list of addresses.\<close>

definition lookup :: "(string \<Rightarrow> (string, string list) result) \<Rightarrow> string \<Rightarrow> (anyhow, string) result" where
  "lookup lookup_host addr =
     (case lookup_host addr of
        Inl e \<Rightarrow> Inl (LookupFailed e)
      | Inr [] \<Rightarrow> Inl (Unresolved addr)
      | Inr (a # _) \<Rightarrow> Inr a)"

subsection \<open>TCP\<close>

type_synonym ('w, 'q, 'h) dialing =
  "(string \<Rightarrow> (string, string list) result) \<Rightarrow> (IoErrorKind, bytes \<times> 'w \<times> 'h) result list
     \<Rightarrow> 'h PeerRegistry \<times> 'q \<Rightarrow> nat list \<times> ('h PeerRegistry \<times> 'q)"

type_synonym ('w, 'q, 'h) listening =
  "(anyhow, unit) result \<Rightarrow> ('h \<times> (IoErrorKind, (bytes \<times> 'w) \<times> string) result) list
     \<Rightarrow> 'h PeerRegistry \<times> 'q \<Rightarrow> 'h PeerRegistry \<times> 'q"

definition TcpNetwork ::
  "('w, 'q, 'e) connection_env \<Rightarrow> (('w, 'q, 'h) dialing, ('w, 'q, 'h) listening) network" where
  "TcpNetwork E =
     \<lparr>net_spawn_outbound = (\<lambda>address local_node_id local_node_name gc_flag lookup_host.
        spawn_outbound E (lookup lookup_host address) local_node_id local_node_name gc_flag),
      net_start_background = (\<lambda>listen_port nid node_name gc_flag bound.
        bind_and_listen E bound nid node_name gc_flag),
      net_allow_bidirectional = default_allow_bidirectional\<rparr>"

subsection \<open>The simulated network\<close>

record 'q SimulatedNetwork =
  sim_peer_channels :: "'q PeerChannels"

definition simulated_new :: "'q PeerChannels \<Rightarrow> 'q SimulatedNetwork" where
  "simulated_new channels = \<lparr>sim_peer_channels = channels\<rparr>"

text \<open>The task of an outbound connection: its new channel, the envelopes sent through it, the registry.\<close>

type_synonym ('q, 'h) simulated_dialing =
  "'h \<Rightarrow> Envelope list \<Rightarrow> 'h PeerRegistry \<Rightarrow> 'h PeerRegistry \<times> 'q PeerChannels"

definition simulated_spawn_outbound ::
  "('q, 'e) try_send \<Rightarrow> 'q SimulatedNetwork \<Rightarrow> string \<Rightarrow> NodeId \<Rightarrow> ('q, 'h) simulated_dialing" where
  "simulated_spawn_outbound app_send self address local_node_id tx rx registry =
     (case simulated_run_connection app_send (sim_peer_channels self) address local_node_id tx rx registry of
        (registry', channels, _) \<Rightarrow> (registry', channels))"

definition simulated_network ::
  "('q, 'e) try_send \<Rightarrow> 'q SimulatedNetwork \<Rightarrow> (('q, 'h) simulated_dialing, 'h PeerRegistry \<Rightarrow> 'h PeerRegistry) network"
where
  "simulated_network app_send self =
     \<lparr>net_spawn_outbound = (\<lambda>address local_node_id _ _. simulated_spawn_outbound app_send self address local_node_id),
      net_start_background = (\<lambda>_ _ _ _ registry. registry),
      net_allow_bidirectional = True\<rparr>"

subsection \<open>The connector\<close>

text \<open>The outbound tasks and the registry, shared with the server, are arguments of its methods.\<close>

record ('o, 'b) PeerConnector =
  pc_node_id :: NodeId
  pc_node_name :: string
  pc_gc_replica :: bool
  pc_network :: "('o, 'b) network"

definition connector_new :: "NodeId \<Rightarrow> string \<Rightarrow> bool \<Rightarrow> ('o, 'b) network \<Rightarrow> ('o, 'b) PeerConnector" where
  "connector_new nid node_name gc_flag network =
     \<lparr>pc_node_id = nid, pc_node_name = node_name, pc_gc_replica = gc_flag, pc_network = network\<rparr>"

definition connector_dial :: "('o, 'b) PeerConnector \<Rightarrow> string \<Rightarrow> 'o" where
  "connector_dial self addr =
     net_spawn_outbound (pc_network self) addr (pc_node_id self) (pc_node_name self) (pc_gc_replica self)"

definition connector_add_peer :: "('o, 'b) PeerConnector \<Rightarrow> 'o OutboundTasks \<Rightarrow> NodeId \<Rightarrow> string \<Rightarrow> 'o OutboundTasks" where
  "connector_add_peer self =
     add_peer (net_allow_bidirectional (pc_network self)) (connector_dial self) (pc_node_id self)"

text \<open>A round of the discovery loop with this connector, once the registrations are listed.\<close>

definition connector_reconcile ::
  "('o, 'b) PeerConnector \<Rightarrow> 'd NodeRegistration list \<Rightarrow> 'o OutboundTasks \<times> 'h PeerRegistry
     \<Rightarrow> 'o OutboundTasks \<times> 'h PeerRegistry" where
  "connector_reconcile self =
     reconcile (net_allow_bidirectional (pc_network self)) (connector_dial self) (pc_node_id self)"

lemma network_simps [simp]:
  "net_allow_bidirectional (TcpNetwork E) = False" "net_allow_bidirectional (simulated_network snd_app self) = True"
  "pc_network (connector_new n nm g net) = net" "pc_node_id (connector_new n nm g net) = n"
  by (simp_all add: TcpNetwork_def default_allow_bidirectional_def simulated_network_def connector_new_def)

text \<open>Which peers a server is shown, and which it may connect to.\<close>

definition may_connect :: "Discovery \<Rightarrow> NodeId \<Rightarrow> bool" where
  "may_connect self p \<longleftrightarrow> p \<noteq> disc_node_id self \<and>
     (case dc_connect_node_ids (disc_config self) of None \<Rightarrow> True | Some ids \<Rightarrow> p \<in> set ids)"

lemma listed_peers:
  assumes "list_live_registrations fuel from_ts s3 (dc_bucket (disc_config self)) s = (Inr regs, s')"
    and "list_live_peers fuel from_ts s3 self s = (Inr peers, s'')"
  shows "p \<in> reg_node_id ` set peers \<longleftrightarrow> p \<in> reg_node_id ` set regs \<and> may_connect self p"
  using assms
  by (auto simp: list_live_peers_def and_then_def return_ok_def may_connect_def Let_def split: option.splits)

lemma dials_iff:
  fixes con :: "('o, 'b) PeerConnector" and registry :: "'h PeerRegistry"
  assumes "list_live_registrations fuel from_ts s3 (dc_bucket (disc_config self)) s = (Inr regs, s')"
    and "list_live_peers fuel from_ts s3 self s = (Inr peers, s'')"
    and "pc_node_id con = disc_node_id self"
    and "connector_reconcile con peers ([], registry_new) = (tasks, registry)"
  shows "hm_contains tasks p \<longleftrightarrow> p \<in> reg_node_id ` set regs \<and> may_connect self p \<and>
    (net_allow_bidirectional (pc_network con) \<or> disc_node_id self < p)"
proof -
  let ?bi = "net_allow_bidirectional (pc_network con)"
  obtain tasks' registry' where rec: "reconcile ?bi (connector_dial con) (disc_node_id self) peers ([], registry_new) =
      (tasks', registry' :: 'h PeerRegistry)"
    and held: "\<forall>p. hm_contains tasks' p \<longleftrightarrow>
        (hm_contains ([] :: 'o OutboundTasks) p \<and> (p \<in> reg_node_id ` set peers \<or> registry_get (registry_new :: 'h PeerRegistry) p = None)) \<or>
        (p \<in> reg_node_id ` set peers \<and> registry_get (registry_new :: 'h PeerRegistry) p = None \<and>
         (?bi \<or> disc_node_id self < p))"
    using reconcile_outcome [of ?bi "connector_dial con" "disc_node_id self" peers "[]"
        "registry_new :: 'h PeerRegistry"]
    by (elim exE conjE) (rule that)
  have "tasks' = tasks" using assms(4) rec by (simp add: connector_reconcile_def assms(3))
  moreover have "\<not> hm_contains ([] :: 'o OutboundTasks) p" by (simp add: hm_contains_def)
  ultimately show ?thesis
    using held [rule_format, of p] listed_peers [OF assms(1,2), of p] by simp
qed

subsection \<open>Properties\<close>

text \<open>C29.  Who dials whom.  After both nodes of a pair, known to the directory, have reconciled with it, the one
  with the smaller id has a task to the other exactly when it may connect to it, and the other has one
  exactly when the network is bidirectional and it may connect.  So over TCP a pair has one connection
  at most, and the list of allowed peers of the node with the larger id is without effect on it: a
  peer listed there is not connected when it does not list that node itself.\<close>

theorem pair_connected:
  assumes "list_live_registrations fuel from_ts s3 (dc_bucket (disc_config da)) s = (Inr regs, s1)"
    and "list_live_peers fuel from_ts s3 da s = (Inr pa, s2)"
    and "list_live_registrations fuel' from_ts' s3' (dc_bucket (disc_config db)) t = (Inr regs', t1)"
    and "list_live_peers fuel' from_ts' s3' db t = (Inr pb, t2)"
    and "disc_node_id da < disc_node_id db" "disc_node_id db \<in> reg_node_id ` set regs" "disc_node_id da \<in> reg_node_id ` set regs'"
    and "connector_reconcile (connector_new (disc_node_id da) na ga net) pa ([], registry_new) = (ta, ra)"
    and "connector_reconcile (connector_new (disc_node_id db) nb gb net) pb ([], registry_new) = (tb, rb)"
  shows "(hm_contains ta (disc_node_id db) \<longleftrightarrow> may_connect da (disc_node_id db)) \<and>
    (hm_contains tb (disc_node_id da) \<longleftrightarrow> net_allow_bidirectional net \<and> may_connect db (disc_node_id da)) \<and>
    \<not> net_allow_bidirectional (TcpNetwork E) \<and> net_allow_bidirectional (simulated_network app_send channels)"
proof (intro conjI)
  show "hm_contains ta (disc_node_id db) \<longleftrightarrow> may_connect da (disc_node_id db)"
    using dials_iff [OF assms(1,2) _ assms(8)] assms(5,6) by simp
  show "hm_contains tb (disc_node_id da) \<longleftrightarrow> net_allow_bidirectional net \<and> may_connect db (disc_node_id da)"
    using dials_iff [OF assms(3,4) _ assms(9)] assms(5,7) by auto
qed simp_all

text \<open>Two nodes in the directory: \<open>b\<close> lists \<open>a\<close>, and \<open>a\<close> lists only a third node.\<close>

definition pair_bucket :: "((string \<times> string) \<times> bytes) list" where
  "pair_bucket = [((''b'', registration_key id ''a'' 5 True ''h:1''), []),
     ((''b'', registration_key id ''b'' 5 False ''h:2''), [])]"

definition pair_discovery :: "NodeId \<Rightarrow> string list \<Rightarrow> Discovery" where
  "pair_discovery n ids = \<lparr>disc_config = \<lparr>dc_endpoint = [], dc_bucket = ''b'', dc_region = [], dc_access_key = [],
      dc_secret_key = [], dc_poll_interval = 30, dc_registration_ttl = 30, dc_gc_replica = True,
      dc_connect_node_ids = Some ids\<rparr>, disc_node_id = n, disc_listen_host = ''h'', disc_listen_port = ''1''\<rparr>"

definition pair_tcp :: "((bytes, Envelope list, unit) dialing, (bytes, Envelope list, unit) listening) network" where
  "pair_tcp = TcpNetwork (log_env demo_encode demo_decode (\<lambda>_. []))"

theorem pair_connected_witness:
  "\<exists>pa pb. list_live_peers 1 Some mem_s3 (pair_discovery ''a'' [''c'']) pair_bucket = (Inr pa, pair_bucket) \<and>
     list_live_peers 1 Some mem_s3 (pair_discovery ''b'' [''a'']) pair_bucket = (Inr pb, pair_bucket) \<and>
     \<not> hm_contains (fst (connector_reconcile (connector_new ''a'' ''a'' True
       pair_tcp) pa ([], registry_new :: unit PeerRegistry))) ''b'' \<and>
     \<not> hm_contains (fst (connector_reconcile (connector_new ''b'' ''b'' False
       pair_tcp) pb ([], registry_new :: unit PeerRegistry))) ''a''"
proof -
  let ?a = "pair_discovery ''a'' [''c'']" and ?b = "pair_discovery ''b'' [''a'']"
  let ?tcp = pair_tcp
  obtain regs :: "int NodeRegistration list" where
    regs: "list_live_registrations 1 Some mem_s3 ''b'' pair_bucket = (Inr regs, pair_bucket)"
    and ids: "reg_node_id ` set regs = registered_nodes Some map_of ''b'' pair_bucket"
    using list_live_registrations_ok [OF mem_s3_documented, of Some "''b''" pair_bucket] unfolding set_map One_nat_def by blast
  have "''a'' \<in> registered_nodes Some map_of ''b'' pair_bucket"
    by (rule registered_after_writing [where to_ts = id and d = 5 and g = True and addr = "''h:1''"])
      (simp_all add: pair_bucket_def del: map_of_eq_Some_iff)
  moreover have "''b'' \<in> registered_nodes Some map_of ''b'' pair_bucket"
    by (rule registered_after_writing [where to_ts = id and d = 5 and g = False and addr = "''h:2''"])
      (simp_all add: pair_bucket_def del: map_of_eq_Some_iff)
  ultimately have listed: "''a'' \<in> reg_node_id ` set regs" "''b'' \<in> reg_node_id ` set regs" by (simp_all only: ids)
  obtain pa pb where peers: "list_live_peers 1 Some mem_s3 ?a pair_bucket = (Inr pa, pair_bucket)"
    "list_live_peers 1 Some mem_s3 ?b pair_bucket = (Inr pb, pair_bucket)"
    by (simp add: list_live_peers_def and_then_def return_ok_def pair_discovery_def regs [unfolded One_nat_def])
  obtain ta ra tb rb where rec: "connector_reconcile (connector_new ''a'' ''a'' True ?tcp) pa
      ([], registry_new :: unit PeerRegistry) = (ta, ra)"
    "connector_reconcile (connector_new ''b'' ''b'' False ?tcp) pb ([], registry_new :: unit PeerRegistry) = (tb, rb)"
    by fastforce
  have "\<not> hm_contains ta ''b'' \<and> \<not> hm_contains tb ''a''"
    using pair_connected [of 1 Some mem_s3 ?a pair_bucket regs pair_bucket pa pair_bucket 1 Some mem_s3 ?b
        pair_bucket regs pair_bucket pb pair_bucket "''a''" True ?tcp ta ra "''b''" False tb rb] rec regs peers listed
    by (simp add: pair_discovery_def may_connect_def less_char_def pair_tcp_def)
  with peers rec show ?thesis by auto
qed

text \<open>C28.  An experiment's network stands in for TCP behind the trait.  For a known address whose node accepts, and
  envelopes with a payload that fit a frame, the outbound task of the simulated network leaves the registry as the TCP task
  leaves it after one connection, and hands to the peer's application what the peer's TCP reader hands
  on from the bytes the TCP writer wrote.\<close>

theorem simulated_network_like_tcp:
  assumes "hm_get channels addr = Some (rid, rg, q)" and "lookup_host addr = Inr (a # as)"
    and "\<And>env. env \<in> set (handshake_envelope rid rn rg # es) \<Longrightarrow> envelope_fits enc dec env \<and> has_payload env"
  shows "net_spawn_outbound (simulated_network (cn_app_send (log_env enc dec sp)) (simulated_new channels)) addr lid ln lg
      tx es reg =
    (fst (snd (net_spawn_outbound (TcpNetwork (log_env enc dec sp)) addr lid ln lg lookup_host
       [Inr (write_envelope enc (handshake_envelope rid rn rg), [], tx)] (reg, []))),
     hm_insert addr (rid, rg, snd (reader_loop (log_env enc dec sp) a
        (writer_loop (log_env enc dec sp) es []) q)) channels)"
proof -
  obtain r reg' q' w' where run: "run_connection (log_env enc dec sp) (write_envelope enc (handshake_envelope rid rn rg))
      a lid ln lg True tx (reg, [], []) = (r, reg', q', w')"
    by (metis prod_cases4)
  have "fst (snd (net_spawn_outbound (TcpNetwork (log_env enc dec sp)) addr lid ln lg lookup_host
      [Inr (write_envelope enc (handshake_envelope rid rn rg), [], tx)] (reg, []))) = reg'"
    by (simp add: TcpNetwork_def lookup_def assms(2) spawn_outbound_def outbound_attempt_def run)
  then show ?thesis
    using simulated_like_tcp [OF assms(1,3), where sp = sp and lid = lid and tx = tx and reg = reg and peer = a and ln = ln and lg = lg]
    by (simp add: simulated_network_def simulated_spawn_outbound_def simulated_new_def run)
qed

theorem simulated_network_like_tcp_witness:
  "snd (net_spawn_outbound (simulated_network (cn_app_send (log_env demo_encode demo_decode (\<lambda>_. [])))
     (simulated_new [(''h:2'', ''B'', True, [])])) ''h:2'' ''A'' ''a'' False ()
     [make_pull_request_envelope ''c'' ''A'' False [(''A'', 1)]] []) =
   [(''h:2'', ''B'', True, [make_pull_request_envelope ''c'' ''A'' False [(''A'', 1)]])] \<and>
   snd (reader_loop (log_env demo_encode demo_decode (\<lambda>_. [])) ''1.2.3.4:2''
     (writer_loop (log_env demo_encode demo_decode (\<lambda>_. []))
        [make_pull_request_envelope ''c'' ''A'' False [(''A'', 1)]] []) []) =
   [make_pull_request_envelope ''c'' ''A'' False [(''A'', 1)]]"
  (is "snd ?dialed = ?channels \<and> _")
proof
  let ?ask = "make_pull_request_envelope ''c'' ''A'' False [(''A'', 1)]"
  show sent: "snd ?dialed = ?channels"
    by (simp add: simulated_network_def simulated_spawn_outbound_def simulated_new_def simulated_run_connection_def)
      (simp add: log_env_def)
  have "env \<in> set [handshake_envelope ''B'' ''b'' True, ?ask]
      \<Longrightarrow> envelope_fits demo_encode demo_decode env \<and> has_payload env" for env
    using demo_fits by (auto simp: has_payload_def handshake_envelope_def make_pull_request_envelope_def)
  from simulated_network_like_tcp [of "[(''h:2'', ''B'', True, [])]" "''h:2''" "''B''" True "[]" "\<lambda>_. Inr [''1.2.3.4:2'']"
      "''1.2.3.4:2''" "[]" "''b''" "[?ask]" demo_encode demo_decode "\<lambda>_. []" "''A''" "''a''" False "()" "[]"] this
  show "snd (reader_loop (log_env demo_encode demo_decode (\<lambda>_. [])) ''1.2.3.4:2''
     (writer_loop (log_env demo_encode demo_decode (\<lambda>_. [])) [?ask] []) []) = [?ask]"
    using sent by simp
qed

end
