(* ===== verification/Programs.thy ===== *)
theory Programs
  imports Server_Life Networks
begin

text \<open>
  The entry points around the servers: the program of an experiment (\<^verbatim>\<open>src/experiment/experiment.rs\<close>,
  \<^verbatim>\<open>main\<close>), which wires every replica to the channels of one simulated network, the client program
  (\<^verbatim>\<open>src/client/crdt_client.rs\<close>, \<^verbatim>\<open>main\<close>), and the end of a process
  (\<^verbatim>\<open>src/common/mod.rs\<close>, \<^verbatim>\<open>shutdown_processes\<close>).

  A spawned server is the function it runs, waiting for its events and the store.  What differs between servers outside
  their configuration (the environment of the engine, the random choices) is a function of the name.
\<close>

subsection \<open>The end of a process\<close>

text \<open>The outcomes of the joined tasks in the order in which they end, an error for a task that panicked; the result is
  the token, what is printed and what the program returns.\<close>

definition shutdown_processes ::
  "('e \<Rightarrow> string) \<Rightarrow> bool \<Rightarrow> ('e, unit) result list \<Rightarrow> bool \<times> string list \<times> (anyhow, unit) result" where
  "shutdown_processes debug shutdown join_set =
     (True,
      concat (map (\<lambda>res. case res of Inl e \<Rightarrow> [''task panicked: '' @ debug e] | Inr _ \<Rightarrow> []) join_set),
      Inr ())"

subsection \<open>The experiment\<close>

record ExperimentCli =
  xc_listen_host :: string
  xc_client_port :: "string option"
  xc_s3_endpoint :: string
  xc_s3_bucket :: string
  xc_s3_region :: string
  xc_s3_access_key :: string
  xc_s3_secret_key :: string
  xc_discovery_interval_secs :: nat
  xc_registration_ttl_secs :: nat
  xc_num_gc_replicas :: nat
  xc_num_normal_replicas :: nat
  xc_gc_prefix :: string
  xc_gc_initiate_interval_secs :: nat
  xc_gc_observe_interval_secs :: nat
  xc_metrics_path :: string

definition config_info :: "ExperimentCli \<Rightarrow> ConfigCliInfo" where
  "config_info cli =
     \<lparr>ci_endpoint = xc_s3_endpoint cli, ci_bucket = xc_s3_bucket cli, ci_region = xc_s3_region cli,
      ci_access_key = xc_s3_access_key cli, ci_secret_key = xc_s3_secret_key cli,
      ci_discovery_interval_secs = xc_discovery_interval_secs cli,
      ci_registration_ttl_secs = xc_registration_ttl_secs cli, ci_gc_prefix = xc_gc_prefix cli,
      ci_listen_host = xc_listen_host cli, ci_gc_observe_interval_secs = xc_gc_observe_interval_secs cli,
      ci_gc_initiate_interval_secs = xc_gc_initiate_interval_secs cli,
      ci_num_gc_replicas = xc_num_gc_replicas cli, ci_num_normal_replicas = xc_num_normal_replicas cli\<rparr>"

text \<open>What a server's task prints when its run returns.\<close>

definition server_task_log :: "(server_error \<Rightarrow> string) \<Rightarrow> string \<Rightarrow> (server_error, 'a) result \<Rightarrow> string list" where
  "server_task_log debug node_addr r =
     (case r of
        Inl e \<Rightarrow> [''Error running server '' @ node_addr @ '': '' @ debug e]
      | Inr _ \<Rightarrow> [])"

text \<open>The servers to start, with the channel each is given, and the network they share.  \<open>None\<close> stands for the panic of
  \<^verbatim>\<open>channels_map.get(&node_addr).unwrap()\<close>.\<close>

record ('q, 'r) server_task =
  task_addr :: string
  task_name :: NodeId
  task_app_tx :: 'q
  task_run :: 'r

fun spawn_servers :: "'q PeerChannels \<Rightarrow> (NodeId \<Rightarrow> nat \<Rightarrow> bool \<Rightarrow> 'r) \<Rightarrow> replica_entry list
    \<Rightarrow> ('q, 'r) server_task list option" where
  "spawn_servers channels_map run [] = Some []"
| "spawn_servers channels_map run ((node_addr, node_name, node_port, flag) # replicas) =
     (case hm_get channels_map node_addr of
        None \<Rightarrow> None
      | Some (_, _, app_tx) \<Rightarrow>
          map_option (\<lambda>tasks. \<lparr>task_addr = node_addr, task_name = node_name, task_app_tx = app_tx,
              task_run = run node_name node_port flag\<rparr> # tasks)
            (spawn_servers channels_map run replicas))"

definition experiment_main where
  "experiment_main app_tx polls E rng fuel to_ts expires body s3 cli =
     (let replicas = experiment_replicas (xc_listen_host cli) (xc_num_gc_replicas cli) (xc_num_normal_replicas cli);
          channels_map = experiment_channels app_tx replicas
      in map_option (\<lambda>tasks. (simulated_new channels_map, tasks))
           (spawn_servers channels_map
             (\<lambda>name port flag. init_and_run_server polls (E name) (rng name) fuel to_ts expires (body name) s3
                (config_info cli) name port flag) replicas))"

lemma spawn_servers_Some:
  assumes "\<And>addr name port flag. (addr, name, port, flag) \<in> set es \<Longrightarrow> hm_get chans addr = Some (ch addr)"
  shows "spawn_servers chans run es = Some (map (\<lambda>(addr, name, port, flag).
     \<lparr>task_addr = addr, task_name = name, task_app_tx = snd (snd (ch addr)), task_run = run name port flag\<rparr>) es)"
  using assms
proof (induction es)
  case (Cons e es)
  obtain addr name port flag where e: "e = (addr, name, port, flag)" by (metis prod_cases4)
  have "hm_get chans addr = Some (ch addr)" using Cons.prems [of addr name port flag] by (simp add: e del: map_of_eq_Some_iff)
  moreover have "spawn_servers chans run es = Some (map (\<lambda>(addr, name, port, flag).
     \<lparr>task_addr = addr, task_name = name, task_app_tx = snd (snd (ch addr)), task_run = run name port flag\<rparr>) es)"
    using Cons.prems by (intro Cons.IH) (auto simp del: map_of_eq_Some_iff)
  ultimately show ?case by (simp add: e case_prod_unfold del: map_of_eq_Some_iff)
qed simp

lemma channel_of_entry:
  assumes "(addr, x) \<in> set es"
  shows "\<exists>c. hm_get (experiment_channels tx es) addr = Some c"
proof -
  have "addr \<in> fst ` set (rev es)" using assms by force
  then have "map_of (rev es) addr \<noteq> None" unfolding map_of_eq_None_iff by blast
  then show ?thesis unfolding experiment_channels_def hm_get_channels by (auto split: prod.splits)
qed

subsection \<open>The client program\<close>

datatype Mode =
    Interactive
  | Bench "u64 option"
  | OneRequestPerServer nat nat

record ClientCli =
  cl_addr :: string
  cl_mode :: Mode

datatype client_error = AddressFailed anyhow | StreamFailed IoErrorKind

text \<open>\<open>connect\<close> opens a stream to an address; the lines of the terminal, the random keys and coins are arguments.  The pauses,
  the key space and the probability only shape those.\<close>

definition with_stream ::
  "(string \<Rightarrow> ('k, IoErrorKind, 'k client_connection) call) \<Rightarrow> string
     \<Rightarrow> ('k client_connection \<Rightarrow> 'k \<Rightarrow> (IoErrorKind, unit) result \<times> console list \<times> 'k) \<Rightarrow> 'k
     \<Rightarrow> (IoErrorKind, unit) result \<times> console list \<times> 'k" where
  "with_stream connect addr run k =
     (case connect addr k of
        (Inl e, k1) \<Rightarrow> (Inl e, [], k1)
      | (Inr stream, k1) \<Rightarrow> run stream k1)"

definition client_main ::
  "(string \<Rightarrow> (string, string list) result) \<Rightarrow> (string \<Rightarrow> ('k, IoErrorKind, 'k client_connection) call)
     \<Rightarrow> (ProtoClientCommand \<Rightarrow> bytes) \<Rightarrow> string list \<Rightarrow> (nat \<times> bool) list \<Rightarrow> (nat \<Rightarrow> nat) \<Rightarrow> (nat \<Rightarrow> nat)
     \<Rightarrow> ClientCli \<Rightarrow> 'k \<Rightarrow> (client_error, unit) result \<times> console list \<times> 'k" where
  "client_main lookup_host connect enc lines choices gc_keys normal_keys cli k =
     (case lookup lookup_host (cl_addr cli) of
        Inl e \<Rightarrow> (Inl (AddressFailed e), [], k)
      | Inr addr \<Rightarrow>
          (case (case cl_mode cli of
              Interactive \<Rightarrow> with_stream connect addr (\<lambda>stream. run_interactive stream enc lines) k
            | Bench requests \<Rightarrow> with_stream connect addr (\<lambda>stream k1.
                (case run_bench stream enc requests choices 0 k1 of (r, k2) \<Rightarrow> (map_sum id (\<lambda>_. ()) r, [], k2))) k
            | OneRequestPerServer gcs normals \<Rightarrow>
                run_one_request_per_server connect enc gcs normals gc_keys normal_keys k) of
             (Inl e, out, k1) \<Rightarrow> (Inl (StreamFailed e), out, k1)
           | (Inr _, out, k1) \<Rightarrow> (Inr (), out, k1)))"

lemma client_main_unresolved:
  "lookup lookup_host (cl_addr cli) = Inl e \<Longrightarrow>
   client_main lookup_host connect enc lines choices gc_keys normal_keys cli k = (Inl (AddressFailed e), [], k)"
  by (simp add: client_main_def)

subsection \<open>Properties\<close>


definition demo_experiment :: "nat \<Rightarrow> ExperimentCli" where
  "demo_experiment normals = \<lparr>xc_listen_host = ''h'', xc_client_port = None, xc_s3_endpoint = [], xc_s3_bucket = ''b'',
     xc_s3_region = [], xc_s3_access_key = [], xc_s3_secret_key = [], xc_discovery_interval_secs = 1,
     xc_registration_ttl_secs = 1, xc_num_gc_replicas = 1, xc_num_normal_replicas = normals, xc_gc_prefix = ''gc'',
     xc_gc_initiate_interval_secs = 1, xc_gc_observe_interval_secs = 1, xc_metrics_path = ''m''\<rparr>"

type_synonym demo_store = "((string \<times> string) \<times> bytes) list"

definition demo_engine :: "NodeId \<Rightarrow> (string OrSet, string OrSetOp, string OrSetDelta, unit, unit PushPull, demo_store) engine_env" where
  "demo_engine name = experiment_env demo_pb_enc demo_pb_dec (\<lambda>_ _. Inl ()) 1 mem_json mem_s3 (return_ok []) demo_info True"

definition demo_start :: "nat \<Rightarrow> (string SimulatedNetwork \<times> (string, server_event list \<Rightarrow> demo_store \<Rightarrow>
    ((server_error, (unit, unit) Server \<times> background_task list \<times> unit list) result option \<times> demo_store) option) server_task list) option"
where
  "demo_start normals = experiment_main (\<lambda>(addr, name, _). name) 1 demo_engine (\<lambda>_ _. 0) 1 id (\<lambda>_. Some (0 :: int))
     (\<lambda>_. []) mem_s3 (demo_experiment normals)"


end
