(* ===== verification/Client_Listener.thy ===== *)
theory Client_Listener
  imports Client_Sessions
begin

text \<open>
  Several clients of one server at once: the listener of \<^verbatim>\<open>src/server/client_requests_handler.rs\<close>
  (\<^verbatim>\<open>start_client_handle\<close>) spawns a task per accepted connection, and the tasks' requests reach the engine in
  any order.

  A turn of a task is what it does between two points where another task's request may come first.  A command is one turn, up
  to the answer, except \<^verbatim>\<open>remove-random\<close>: it asks the engine for an element in one turn, and
  removes that element in another.  A schedule is the list of the tasks that take the turns.
\<close>

subsection \<open>The listener and its tasks\<close>

record client_task =
  ct_input :: bytes
  ct_output :: bytes
  ct_picked :: "string option"

definition new_client_task :: "bytes \<Rightarrow> client_task" where
  "new_client_task stream = \<lparr>ct_input = stream, ct_output = [], ct_picked = None\<rparr>"

text \<open>Without a port nothing is started; \<open>Some None\<close> is the panic of a port that does not parse, an address in use ends the task, a
  failed accept is skipped.\<close>

definition start_client_handle ::
  "(string \<Rightarrow> 'a option) \<Rightarrow> ('a \<Rightarrow> (IoErrorKind, unit) result) \<Rightarrow> (IoErrorKind, bytes) result list \<Rightarrow> string option
     \<Rightarrow> client_task list option option" where
  "start_client_handle parse_addr bind accepted client_port =
     map_option (\<lambda>port. map_option (\<lambda>client_addr.
         (case bind client_addr of
            Inl _ \<Rightarrow> []
          | Inr _ \<Rightarrow> concat (map (\<lambda>a. case a of Inr stream \<Rightarrow> [new_client_task stream] | Inl _ \<Rightarrow> []) accepted)))
       (parse_addr (''0.0.0.0:'' @ port))) client_port"

text \<open>One turn; \<open>None\<close> when the task has no whole message left.\<close>

definition answer :: "string \<Rightarrow> client_task \<Rightarrow> client_task" where
  "answer response t = t\<lparr>ct_output := snd (send_reply log_write response (ct_output t)), ct_picked := None\<rparr>"

definition asks_random :: "(string, ProtoClientCommand) result \<Rightarrow> bool" where
  "asks_random r =
     (case r of
        Inl _ \<Rightarrow> False
      | Inr cmd \<Rightarrow> (case command cmd of Some (CmdRemoveRandom _) \<Rightarrow> True | _ \<Rightarrow> False))"

definition client_turn ::
  "(string OrSetOp, 'q) engine_channel \<Rightarrow> (bytes \<Rightarrow> (string, ProtoClientCommand) result) \<Rightarrow> client_task \<Rightarrow> 'q
     \<Rightarrow> (client_task \<times> 'q) option" where
  "client_turn C decode t q =
     (case ct_picked t of
        Some random_element \<Rightarrow>
          (case send_engine_request C (ClientOperation (Remove random_element)) q of
             (response, q1) \<Rightarrow> Some (answer response t, q1))
      | None \<Rightarrow>
          (case read_client_message (ct_input t) of
             None \<Rightarrow> None
           | Some (msg_buf, rest) \<Rightarrow>
               let t = t\<lparr>ct_input := rest\<rparr> in
               if asks_random (decode msg_buf) then
                 (case send_engine_request_and_wait_response C GetRandomElement q of
                    (random_element, q1) \<Rightarrow>
                      if starts_with ''error:'' random_element then Some (answer random_element t, q1)
                      else Some (t\<lparr>ct_picked := Some random_element\<rparr>, q1))
               else (case client_response C decode msg_buf q of
                       (response, q1) \<Rightarrow> Some (answer response t, q1))))"

fun run_listener ::
  "(string OrSetOp, 'q) engine_channel \<Rightarrow> (bytes \<Rightarrow> (string, ProtoClientCommand) result) \<Rightarrow> nat list
     \<Rightarrow> client_task list \<times> 'q \<Rightarrow> client_task list \<times> 'q" where
  "run_listener C decode [] st = st"
| "run_listener C decode (i # schedule) (ts, q) =
     (if i < length ts then
        (case client_turn C decode (ts ! i) q of
           None \<Rightarrow> run_listener C decode schedule (ts, q)
         | Some (t, q1) \<Rightarrow> run_listener C decode schedule (ts[i := t], q1))
      else run_listener C decode schedule (ts, q))"

subsection \<open>The turns of a task make up its loop\<close>

text \<open>What is left of the loop of a task that runs alone from here.\<close>

definition rest_of_loop ::
  "(string OrSetOp, 'q) engine_channel \<Rightarrow> (bytes \<Rightarrow> (string, ProtoClientCommand) result) \<Rightarrow> client_task \<Rightarrow> 'q
     \<Rightarrow> bytes \<times> 'q" where
  "rest_of_loop C decode t q =
     (case ct_picked t of
        None \<Rightarrow> serve_client C decode log_write (ct_input t) (ct_output t, q)
      | Some e \<Rightarrow> (case send_engine_request C (ClientOperation (Remove e)) q of
          (r, q1) \<Rightarrow> serve_client C decode log_write (ct_input t) (ct_output t @ write_response (as_bytes r), q1)))"

lemma answer_simps [simp]:
  "ct_input (answer r t) = ct_input t" "ct_output (answer r t) = ct_output t @ write_response (as_bytes r)"
  "ct_picked (answer r t) = None"
  by (simp_all add: answer_def send_reply_log)

lemma serve_client_turn:
  assumes "read_client_message input = Some (msg, rest)" "client_response C decode msg q = (r, q1)"
  shows "serve_client C decode log_write input (w, q) =
    serve_client C decode log_write rest (w @ write_response (as_bytes r), q1)"
  by (subst serve_client.simps) (simp add: assms send_reply_log)

lemma client_turn_rest:
  assumes "client_turn C decode t q = Some (t', q')"
  shows "rest_of_loop C decode t q = rest_of_loop C decode t' q'"
proof (cases "ct_picked t")
  case (Some e)
  then show ?thesis using assms by (auto simp: client_turn_def rest_of_loop_def split: prod.splits)
next
  case None
  then obtain msg rest where m: "read_client_message (ct_input t) = Some (msg, rest)"
    using assms by (auto simp: client_turn_def split: option.splits)
  obtain r q1 where r: "client_response C decode msg q = (r, q1)" by fastforce
  note loop = serve_client_turn [OF m r]
  show ?thesis
  proof (cases "asks_random (decode msg)")
    case True
    then obtain cmd b where b: "decode msg = Inr cmd" "command cmd = Some (CmdRemoveRandom b)"
      by (auto simp: asks_random_def split: sum.splits option.splits Command.splits)
    obtain e q2 where e: "send_engine_request_and_wait_response C GetRandomElement q = (e, q2)" by fastforce
    show ?thesis
      using assms None r True unfolding rest_of_loop_def
      by (auto simp: client_turn_def client_response_def m b e Let_def loop split: if_splits prod.splits)
  next
    case False
    then show ?thesis
      using assms None loop r by (auto simp: client_turn_def rest_of_loop_def m Let_def)
  qed
qed

lemma client_turn_end:
  assumes "client_turn C decode t q = None"
  shows "rest_of_loop C decode t q = (ct_output t, q)"
proof -
  have "ct_picked t = None" "read_client_message (ct_input t) = None"
    using assms by (auto simp: client_turn_def Let_def split: option.splits prod.splits if_splits)
  then show ?thesis unfolding rest_of_loop_def by (subst serve_client.simps) simp
qed

subsection \<open>What clients see together\<close>

text \<open>A history of the set: commands answered in one turn, elements picked, and picked elements removed.\<close>

datatype act = Answered Command string | Picked string | Removed string

fun act_ok :: "string set \<Rightarrow> act \<Rightarrow> string set \<Rightarrow> bool" where
  "act_ok S (Answered c r) S' \<longleftrightarrow> set_reply S c r S' \<and> (\<forall>b. c = CmdRemoveRandom b \<longrightarrow> S' = S)"
| "act_ok S (Picked e) S' \<longleftrightarrow> e \<in> S \<and> S' = S"
| "act_ok S (Removed e) S' \<longleftrightarrow> S' = S - {e}"

fun set_history :: "string set \<Rightarrow> (nat \<times> act) list \<Rightarrow> string set \<Rightarrow> bool" where
  "set_history S [] S' \<longleftrightarrow> S' = S"
| "set_history S ((i, a) # log) S' \<longleftrightarrow> (\<exists>S1. act_ok S a S1 \<and> set_history S1 log S')"

definition acts_of :: "nat \<Rightarrow> (nat \<times> act) list \<Rightarrow> act list" where
  "acts_of i log = map snd (filter (\<lambda>x. fst x = i) log)"

text \<open>A client's own part of a history, against its commands: what is left of them, the answers, and the element it has picked
  and not yet removed.\<close>

fun follows :: "Command list \<Rightarrow> string option \<Rightarrow> act list \<Rightarrow> (Command list \<times> string list \<times> string option) option" where
  "follows cs p [] = Some (cs, [], p)"
| "follows (c # cs) None (Answered c' r # as) =
     (if c = c' then map_option (\<lambda>(cs', rs, p). (cs', r # rs, p)) (follows cs None as) else None)"
| "follows (CmdRemoveRandom b # cs) None (Picked e # as) = follows cs (Some e) as"
| "follows cs (Some e) (Removed e' # as) =
     (if e = e' then map_option (\<lambda>(cs', rs, p). (cs', ''ok'' # rs, p)) (follows cs None as) else None)"
| "follows _ _ _ = None"

lemma acts_of_simps [simp]:
  "acts_of i [] = []" "acts_of i ((j, a) # log) = (if j = i then a # acts_of i log else acts_of i log)"
  by (simp_all add: acts_of_def)

lemma follows_append:
  assumes "follows cs p as = Some (cs1, rs1, p1)" "follows cs1 p1 bs = Some (cs2, rs2, p2)"
  shows "follows cs p (as @ bs) = Some (cs2, rs1 @ rs2, p2)"
  using assms
  by (induction cs p as arbitrary: rs1 rule: follows.induct) (auto split: if_splits)

lemma follows_subset: "follows cs p as = Some (cs', rs, p') \<Longrightarrow> set cs' \<subseteq> set cs"
  by (induction cs p as arbitrary: rs rule: follows.induct) (auto split: if_splits)

text \<open>A task in the middle of its client's commands.\<close>

definition task_at ::
  "(ProtoClientCommand \<Rightarrow> bytes) \<Rightarrow> Command list \<Rightarrow> bytes \<Rightarrow> string option \<Rightarrow> client_task" where
  "task_at enc cs out p = \<lparr>ct_input = concat (map (send_command enc) cs), ct_output = out, ct_picked = p\<rparr>"

abbreviation replies :: "string list \<Rightarrow> bytes" where
  "replies rs \<equiv> concat (map (\<lambda>r. write_response (as_bytes r)) rs)"

context served_set
begin

text \<open>One turn is one act of the history.\<close>

lemma turn_served:
  assumes ready: "ready q (Suc n)" and codec: "\<And>c. c \<in> set cs \<Longrightarrow> client_codec enc decode c"
    and turn: "client_turn C decode (task_at enc cs out p) q = Some (t', q')"
  shows "\<exists>a cs' rs p'. act_ok (contents q) a (contents q') \<and> ready q' n \<and> follows cs p [a] = Some (cs', rs, p') \<and>
    set cs' \<subseteq> set cs \<and> t' = task_at enc cs' (out @ replies rs) p'"
proof (cases p)
  case (Some e)
  obtain q1 where q1: "ec_send C (ClientOperation (Remove e)) q = (Inr (), q1)" "contents q1 = contents q - {e}" "ready q1 n"
    using serves_remove [OF ready] by blast
  have "t' = task_at enc cs (out @ replies [''ok'']) None" "q' = q1"
    using turn by (auto simp: Some client_turn_def task_at_def send_engine_request_def q1(1) answer_def send_reply_log)
  then show ?thesis
    using q1 by (intro exI [of _ "Removed e"] exI [of _ cs] exI [of _ "[''ok'']"] exI [of _ None]) (simp add: Some)
next
  case None
  show ?thesis
  proof (cases cs)
    case Nil
    then show ?thesis using turn by (simp add: None client_turn_def task_at_def read_client_message_def read_exact_def)
  next
    case (Cons c cs')
    have c: "client_codec enc decode c" using codec Cons by simp
    have dec: "decode (enc \<lparr>command = Some c\<rparr>) = Inr \<lparr>command = Some c\<rparr>" using c by (simp add: client_codec_def)
    have msg: "read_client_message (concat (map (send_command enc) cs)) =
        Some (enc \<lparr>command = Some c\<rparr>, concat (map (send_command enc) cs'))"
      by (simp add: Cons read_command_frame [OF c])
    show ?thesis
    proof (cases "\<exists>b. c = CmdRemoveRandom b")
      case False
      then have plain: "\<not> asks_random (decode (enc \<lparr>command = Some c\<rparr>))"
        unfolding asks_random_def dec by (auto split: Command.splits)
      obtain r q1 where r: "client_response C decode (enc \<lparr>command = Some c\<rparr>) q = (r, q1)"
        "set_reply (contents q) c r (contents q1)" "ready q1 n"
        using response_served [OF ready c] by blast
      have "t' = task_at enc cs' (out @ replies [r]) None" "q' = q1"
        using turn plain r(1) by (auto simp: None client_turn_def task_at_def msg Let_def answer_def send_reply_log)
      then show ?thesis
        using r False by (intro exI [of _ "Answered c r"] exI [of _ cs'] exI [of _ "[r]"] exI [of _ None])
          (auto simp: None Cons)
    next
      case True
      then obtain b where b: "c = CmdRemoveRandom b" by blast
      have random: "asks_random (decode (enc \<lparr>command = Some c\<rparr>))" unfolding asks_random_def dec by (simp add: b)
      obtain e q1 where e: "send_engine_request_and_wait_response C GetRandomElement q = (e, q1)"
        "contents q1 = contents q" "ready q1 (Suc n)"
        "if contents q = {} then e = ''error: empty crdt'' else e \<in> contents q"
        using asked [OF ready, of GetRandomElement] by auto
      show ?thesis
      proof (cases "starts_with ''error:'' e")
        case True
        then have "t' = task_at enc cs' (out @ replies [e]) None" "q' = q1"
          using turn random e(1) by (auto simp: None client_turn_def task_at_def msg Let_def answer_def send_reply_log)
        moreover have "set_reply (contents q) c e (contents q)"
          using e(4) True by (auto simp: set_reply_def b split: if_splits)
        ultimately show ?thesis
          using e(2) ready_less [OF e(3)]
          by (intro exI [of _ "Answered c e"] exI [of _ cs'] exI [of _ "[e]"] exI [of _ None]) (auto simp: None Cons b)
      next
        case False
        then have "e \<in> contents q" using e(4) by (auto simp: starts_with_def split: if_splits)
        moreover have "t' = task_at enc cs' (out @ replies []) (Some e)" "q' = q1"
          using turn random e(1) False by (auto simp: None client_turn_def task_at_def msg Let_def)
        ultimately show ?thesis
          using e(2) ready_less [OF e(3)]
          by (intro exI [of _ "Picked e"] exI [of _ cs'] exI [of _ "[]"] exI [of _ "Some e"]) (auto simp: None Cons b)
      qed
    qed
  qed
qed

text \<open>Any schedule is a history of the set in which every client finds its own commands and answers.\<close>

lemma schedule_served:
  assumes "ready q (length schedule)"
    and "\<And>i c. i < length ts \<Longrightarrow> c \<in> set (css i) \<Longrightarrow> client_codec enc decode c"
    and "\<And>i. i < length ts \<Longrightarrow> ts ! i = task_at enc (css i) (outs i) (ps i)"
  shows "\<exists>log ts' q'. run_listener C decode schedule (ts, q) = (ts', q') \<and> length ts' = length ts \<and>
    set_history (contents q) log (contents q') \<and>
    (\<forall>i < length ts. \<exists>cs rs p. follows (css i) (ps i) (acts_of i log) = Some (cs, rs, p) \<and>
      ts' ! i = task_at enc cs (outs i @ replies rs) p)"
  using assms
proof (induction schedule arbitrary: q ts css outs ps)
  case Nil
  then show ?case by (intro exI [of _ "[]"] exI [of _ ts] exI [of _ q]) simp
next
  case (Cons i schedule)
  have later: "ready q (length schedule)" using ready_less Cons.prems(1) by simp
  show ?case
  proof (cases "i < length ts \<and> client_turn C decode (ts ! i) q \<noteq> None")
    case False
    then have "run_listener C decode (i # schedule) (ts, q) = run_listener C decode schedule (ts, q)"
      by (auto split: option.split)
    then show ?thesis using Cons.IH [OF later Cons.prems(2,3)] by simp
  next
    case True
    then obtain t1 q1 where turn: "client_turn C decode (ts ! i) q = Some (t1, q1)" and i: "i < length ts" by auto
    obtain a cs rs p where a: "act_ok (contents q) a (contents q1)" "ready q1 (length schedule)"
      "follows (css i) (ps i) [a] = Some (cs, rs, p)" "set cs \<subseteq> set (css i)" "t1 = task_at enc cs (outs i @ replies rs) p"
      using turn_served [of q "length schedule" "css i" enc decode "outs i" "ps i" t1 q1] Cons.prems turn i by auto
    let ?ts = "ts[i := t1]"
    have codecs: "client_codec enc decode c" if "j < length ?ts" "c \<in> set ((css(i := cs)) j)" for j c
      using that a(4) Cons.prems(2) i by (auto split: if_splits)
    have tasks: "?ts ! j = task_at enc ((css(i := cs)) j) ((outs(i := outs i @ replies rs)) j) ((ps(i := p)) j)"
      if "j < length ?ts" for j
      using that a(5) Cons.prems(3) by (auto simp: nth_list_update)
    have "\<exists>log ts' q'. run_listener C decode schedule (?ts, q1) = (ts', q') \<and> length ts' = length ?ts \<and>
      set_history (contents q1) log (contents q') \<and>
      (\<forall>j < length ?ts. \<exists>cs' rs' p'. follows ((css(i := cs)) j) ((ps(i := p)) j) (acts_of j log) = Some (cs', rs', p') \<and>
        ts' ! j = task_at enc cs' ((outs(i := outs i @ replies rs)) j @ replies rs') p')"
      by (rule Cons.IH [OF a(2)]) (erule (1) codecs, erule tasks)
    then obtain log ts' q' where log: "run_listener C decode schedule (?ts, q1) = (ts', q')" "length ts' = length ?ts"
      "set_history (contents q1) log (contents q')"
      "\<forall>j < length ?ts. \<exists>cs' rs' p'. follows ((css(i := cs)) j) ((ps(i := p)) j) (acts_of j log) = Some (cs', rs', p') \<and>
        ts' ! j = task_at enc cs' ((outs(i := outs i @ replies rs)) j @ replies rs') p'"
      by blast
    have "\<exists>cs' rs' p'. follows (css j) (ps j) (acts_of j ((i, a) # log)) = Some (cs', rs', p') \<and>
        ts' ! j = task_at enc cs' (outs j @ replies rs') p'" if j: "j < length ts" for j
    proof (cases "j = i")
      case True
      have "\<exists>cs' rs' p'. follows cs p (acts_of i log) = Some (cs', rs', p') \<and>
          ts' ! i = task_at enc cs' ((outs i @ replies rs) @ replies rs') p'"
        using log(4) [rule_format, of i] i by (simp only: length_list_update fun_upd_same)
      then obtain cs' rs' p' where own: "follows cs p (acts_of i log) = Some (cs', rs', p')"
        "ts' ! i = task_at enc cs' ((outs i @ replies rs) @ replies rs') p'" by blast
      then show ?thesis using follows_append [OF a(3) own(1)] True by (intro exI [of _ cs'] exI [of _ "rs @ rs'"] exI [of _ p']) simp
    next
      case False
      then show ?thesis using log(4) [rule_format, of j] j by simp
    qed
    then have own: "\<forall>j < length ts. \<exists>cs rs p. follows (css j) (ps j) (acts_of j ((i, a) # log)) = Some (cs, rs, p) \<and>
        ts' ! j = task_at enc cs (outs j @ replies rs) p" by blast
    have run: "run_listener C decode (i # schedule) (ts, q) = (ts', q')" using turn i log(1) by simp
    have history: "set_history (contents q) ((i, a) # log) (contents q')" using a(1) log(3) by auto
    have len: "length ts' = length ts" using log(2) by simp
    show ?thesis using run history len own by blast
  qed
qed

text \<open>When no task can take a turn, every command is answered.\<close>

lemma quiet_tasks:
  assumes "client_turn C decode (task_at enc cs out p) q = None" "\<And>c. c \<in> set cs \<Longrightarrow> client_codec enc decode c"
  shows "cs = [] \<and> p = None"
proof (cases cs)
  case Nil
  then show ?thesis using assms(1) by (cases p) (auto simp: client_turn_def task_at_def split: prod.splits)
next
  case (Cons c cs')
  have "client_codec enc decode c" using assms(2) Cons by simp
  from read_command_frame [OF this] show ?thesis
    using assms(1) Cons by (auto simp: client_turn_def task_at_def Let_def split: option.splits prod.splits if_splits)
qed

text \<open>Two clients that remove a random element of a set with one element, turn by turn.\<close>

lemma both_answered:
  assumes "ready q 2" "contents q = {x}" "\<not> starts_with ''error:'' x" "client_codec enc decode (CmdRemoveRandom b)"
  shows "\<exists>q'. run_listener C decode [0, 1, 0, 1]
      ([task_at enc [CmdRemoveRandom b] [] None, task_at enc [CmdRemoveRandom b] [] None], q) =
      ([task_at enc [] (replies [''ok'']) None, task_at enc [] (replies [''ok'']) None], q') \<and> contents q' = {}"
proof -
  let ?c = "CmdRemoveRandom b"
  have random: "asks_random (decode (enc \<lparr>command = Some ?c\<rparr>))"
    using assms(4) by (simp add: asks_random_def client_codec_def)
  have msg: "read_client_message (send_command enc ?c) = Some (enc \<lparr>command = Some ?c\<rparr>, [])"
    using read_command_frame [OF assms(4), of "[]"] by simp
  have pick: "\<exists>q'. client_turn C decode (task_at enc [?c] [] None) q = Some (task_at enc [] [] (Some x), q') \<and>
      contents q' = {x} \<and> ready q' 2" if q: "ready q 2" "contents q = {x}" for q
  proof -
    obtain e q' where e: "send_engine_request_and_wait_response C GetRandomElement q = (e, q')" "contents q' = contents q"
      "ready q' 2" "if contents q = {} then e = ''error: empty crdt'' else e \<in> contents q"
      using asked [OF q(1), of GetRandomElement] by auto
    then have "e = x" using q(2) by simp
    then show ?thesis using e q assms(3) random msg by (simp add: client_turn_def task_at_def Let_def)
  qed
  have remove: "\<exists>q'. client_turn C decode (task_at enc [] [] (Some x)) q = Some (task_at enc [] (replies [''ok'']) None, q') \<and>
      contents q' = contents q - {x} \<and> ready q' n" if q: "ready q (Suc n)" for q n
    using serves_remove [OF q, of x]
    by (auto simp: client_turn_def task_at_def send_engine_request_def answer_def send_reply_log)
  obtain q1 where q1: "client_turn C decode (task_at enc [?c] [] None) q = Some (task_at enc [] [] (Some x), q1)"
    "contents q1 = {x}" "ready q1 2" using pick [OF assms(1,2)] by blast
  obtain q2 where q2: "client_turn C decode (task_at enc [?c] [] None) q1 = Some (task_at enc [] [] (Some x), q2)"
    "contents q2 = {x}" "ready q2 (Suc (Suc 0))" using pick [OF q1(3,2)] by (auto simp: numeral_2_eq_2)
  obtain q3 where q3: "client_turn C decode (task_at enc [] [] (Some x)) q2 = Some (task_at enc [] (replies [''ok'']) None, q3)"
    "contents q3 = {}" "ready q3 (Suc 0)" using remove [OF q2(3)] q2(2) by auto
  obtain q4 where q4: "client_turn C decode (task_at enc [] [] (Some x)) q3 = Some (task_at enc [] (replies [''ok'']) None, q4)"
    "contents q4 = {}" using remove [OF q3(3)] q3(2) by auto
  show ?thesis using q1(1) q2(1) q3(1) q4 by (intro exI [of _ q4]) simp
qed

end

subsection \<open>Properties\<close>


definition demo_random :: "bytes \<Rightarrow> (string, ProtoClientCommand) result" where
  "demo_random _ = Inr \<lparr>command = Some (CmdRemoveRandom True)\<rparr>"

lemma demo_random_codec: "client_codec (\<lambda>_. [5]) demo_random (CmdRemoveRandom True)"
  by (simp add: client_codec_def demo_random_def)


text \<open>C30.  Removals of random elements are not atomic.  Two clients that ask at the same time to remove a random element of a
  set with one element are both answered \<^verbatim>\<open>ok\<close>, though one element went; a set
  that serves one command after the other never answers so.\<close>

theorem remove_random_race:
  fixes srv :: "(string OrSet, 'd, 's) live_server"
  assumes "server_ready srv 2" "{e. contains (eng_crdt (sw_engine srv)) e} = {x}" "\<not> starts_with ''error:'' x"
    and "client_codec enc decode (CmdRemoveRandom b)"
  shows "\<exists>ts srv'. run_listener (live_channel (or_set_env pe pd strat reg G m) rng) decode [0, 1, 0, 1]
      (replicate 2 (new_client_task (send_command enc (CmdRemoveRandom b))), srv) = (ts, srv') \<and>
    map ct_output ts = [write_response (as_bytes ''ok''), write_response (as_bytes ''ok'')] \<and>
    {e. contains (eng_crdt (sw_engine srv')) e} = {} \<and>
    (\<nexists>S. set_session {x} [CmdRemoveRandom b, CmdRemoveRandom b] [''ok'', ''ok''] S)"
proof -
  have "server_contents srv = {x}" using assms(2) by (simp add: server_contents_def)
  from live_set.both_answered [where pe = pe and pd = pd and strat = strat and reg = reg and G = G and m = m and rng = rng,
      OF assms(1) this assms(3,4)]
  show ?thesis by (auto simp: new_client_task_def task_at_def numeral_2_eq_2 server_contents_def set_reply_def starts_with_def split: if_splits)
qed

theorem remove_random_race_witness:
  "\<exists>ts srv'. run_listener (live_channel demo_env (\<lambda>_. 0)) demo_random [0, 1, 0, 1]
      (replicate 2 (new_client_task (send_command (\<lambda>_. [5]) (CmdRemoveRandom True))), demo_server) = (ts, srv') \<and>
    map ct_output ts = [write_response (as_bytes ''ok''), write_response (as_bytes ''ok'')] \<and>
    {e. contains (eng_crdt (sw_engine srv')) e} = {}"
proof -
  have server: "sw_open demo_server" "sw_engine demo_server = replica demo_added ''A''" by (simp_all add: demo_server_def)
  have "unat (know demo_added ''A'' ''A'') + 2 < 2 ^ 64" by (simp add: demo_know_A)
  from net_run_ready(1) [OF demo_run_added [unfolded demo_env_def] mem_pb_documented' server this]
  have ready: "server_ready demo_server 2" .
  have one: "{e. contains (eng_crdt (sw_engine demo_server)) e} = {''x''}"
    unfolding server(2) demo_added_A(1)
    by (auto simp: contains_def apply_local.simps OrSet_new_def any_live_dot_def hm_or_def hm_contains_def split: if_splits)
  have plain: "\<not> starts_with ''error:'' ''x''" by (simp add: starts_with_def)
  show ?thesis
    using remove_random_race [OF ready one plain demo_random_codec, where pe = mem_pb_enc and pd = mem_pb_dec and
        strat = "push_pull_strategy log_send" and reg = peer_registry and
        G = "idle_storage default_epoch_metadata default_epoch_state" and m = "\<lambda>s. (Inr [], s)" and rng = "\<lambda>_. 0"]
    unfolding demo_env_def by (elim exE conjE) (intro exI conjI; assumption)
qed

end
