(* ===== verification/Metrics.thy ===== *)
theory Metrics
  imports GC_Coordinator Framing
begin

text \<open>
  The structured events of \<^verbatim>\<open>src/logging/\<close> (the macro \<^verbatim>\<open>metric!\<close>, the layer that writes
  events to a file as lines of JSON, the console layer beside it), and the events the program emits, each as the call of the
  macro at its place.

  An event is what the tracing library hands to a layer: target, level, and the recorded fields in their order.  A line of the
  file is the JSON object of the entry; the text of an object is the JSON library's.  A floating-point
  value and its JSON form (\<open>json_f64\<close>) belong to that library too.
\<close>

subsection \<open>Events\<close>

datatype Level = ERROR | WARN | INFO | DEBUG | TRACE

datatype 'f field_value = F64 'f | I64 "64 word" | U64 u64 | Bool bool | Str string | Debug string

datatype 'f json = JBool bool | JInt int | JFloat 'f | JString string | JNull

record 'f event =
  ev_target :: string
  ev_level :: Level
  ev_fields :: "(string \<times> 'f field_value) list"

text \<open>\<^verbatim>\<open>metric!(key = value, ...)\<close>\<close>

definition metric :: "(string \<times> 'f field_value) list \<Rightarrow> 'f event" where
  "metric kvs = \<lparr>ev_target = ''metrics'', ev_level = TRACE, ev_fields = kvs\<rparr>"

subsection \<open>The layers\<close>

text \<open>The visitor: one method per kind of value, each inserts under the field's name.\<close>

fun json_value :: "('f \<Rightarrow> 'f json) \<Rightarrow> 'f field_value \<Rightarrow> 'f json" where
  "json_value json_f64 (F64 x) = json_f64 x"
| "json_value json_f64 (I64 i) = JInt (sint i)"
| "json_value json_f64 (U64 n) = JInt (uint n)"
| "json_value json_f64 (Bool b) = JBool b"
| "json_value json_f64 (Str s) = JString s"
| "json_value json_f64 (Debug s) = JString s"

definition visit_fields :: "('f \<Rightarrow> 'f json) \<Rightarrow> (string \<times> 'f field_value) list \<Rightarrow> (string, 'f json) hmap" where
  "visit_fields json_f64 kvs = fold (\<lambda>(name, v) m. hm_insert name (json_value json_f64 v) m) kvs []"

fun as_str :: "'f json \<Rightarrow> string option" where
  "as_str (JString s) = Some s"
| "as_str _ = None"

definition recorded_events :: "string list" where
  "recorded_events = [''gc_coordinator_metrics'', ''client_operation'', ''knowledge_matrix'', ''network_topology'',
     ''or_set_metrics'', ''send_envelope'', ''receive_envelope'']"

record 'f metrics_entry =
  me_timestamp :: string
  me_level :: Level
  me_fields :: "(string, 'f json) hmap"

text \<open>The file's lock is poisoned after a panic of a holder; a line that cannot be written is lost.\<close>

definition on_event ::
  "('f \<Rightarrow> 'f json) \<Rightarrow> string \<Rightarrow> bool \<Rightarrow> ('f metrics_entry \<Rightarrow> 'w \<Rightarrow> (IoErrorKind, unit) result \<times> 'w) \<Rightarrow> 'f event \<Rightarrow> 'w \<Rightarrow> 'w"
where
  "on_event json_f64 now locked writeln event file =
     (if ev_target event \<noteq> ''metrics'' then file
      else let visited = visit_fields json_f64 (ev_fields event);
               entry = \<lparr>me_timestamp = now, me_level = ev_level event, me_fields = visited\<rparr>
           in if \<not> (\<exists>n \<in> set recorded_events. Option.bind (hm_get visited ''event'') as_str = Some n) then file
              else if locked then snd (writeln entry file) else file)"

text \<open>The console layer: the filter \<^verbatim>\<open>info\<close> and the filter on the target, both before the layer.\<close>

definition info_enabled :: "Level \<Rightarrow> bool" where
  "info_enabled l \<longleftrightarrow> l \<in> {ERROR, WARN, INFO}"

definition console_receives :: "'f event \<Rightarrow> bool" where
  "console_receives event \<longleftrightarrow> info_enabled (ev_level event) \<and> ev_target event \<noteq> ''metrics''"

text \<open>Opening the file: the directory is made when the path has a parent; \<open>None\<close> is a panic.\<close>

definition metrics_layer_new ::
  "(string \<Rightarrow> string option) \<Rightarrow> (string \<Rightarrow> ('s, IoErrorKind, unit) call) \<Rightarrow> (string \<Rightarrow> ('s, IoErrorKind, 'w) call)
     \<Rightarrow> string \<Rightarrow> 's \<Rightarrow> ('w option \<times> 's)" where
  "metrics_layer_new path_parent create_dir_all open_append path s =
     (case (case path_parent path of None \<Rightarrow> (Inr (), s) | Some parent \<Rightarrow> create_dir_all parent s) of
        (Inl _, s1) \<Rightarrow> (None, s1)
      | (Inr _, s1) \<Rightarrow> (case open_append path s1 of
            (Inl _, s2) \<Rightarrow> (None, s2)
          | (Inr file, s2) \<Rightarrow> (Some file, s2)))"

subsection \<open>The events of the program\<close>

text \<open>The report of a replica's set.\<close>

definition or_set_log_metrics :: "u64 \<Rightarrow> 'e OrSet \<Rightarrow> DotVersionVector \<Rightarrow> u64 \<Rightarrow> 'f event" where
  "or_set_log_metrics rnd s dvv epoch =
     (let num_adds = word_of_nat (length (adds s));
          num_tombstones = word_of_nat (length (tombstones s));
          clock = join_with '', '' (map (\<lambda>(node, c). node @ '':'' @ show_nat (unat c)) (effective_map dvv))
      in metric [(''event'', Str ''or_set_metrics''), (''node_id'', Str (node_id (dvv_dot dvv))),
           (''dissemination_round'', U64 rnd), (''adds'', U64 num_adds),
           (''tombstones'', U64 num_tombstones), (''vector_clock'', Str clock), (''epoch'', U64 epoch)])"

text \<open>The report of a collector: the size of its matrix and the timestamp a collection would use now.  Its reads of the store
  may fail, and then there is no event.\<close>

definition matrix_size :: "Matrix \<Rightarrow> nat" where
  "matrix_size mc = sum_list (map (\<lambda>(node, ctx). length node + sum_list (map (\<lambda>n. length n + 8) (hm_keys ctx))) mc)"

definition coordinator_log_metrics ::
  "'s GcStorage \<Rightarrow> ('s, anyhow, NodeId list) call \<Rightarrow> GcCoordinator \<Rightarrow> u64 \<Rightarrow> NodeId \<Rightarrow> DotVersionVector
     \<Rightarrow> ('s, anyhow, 'f event list) call" where
  "coordinator_log_metrics G live_members self rnd nid dvv =
     (if \<not> gc_replica (gc_config self) then return_ok []
      else and_then
        (case matrix_clock self of
           Some mc \<Rightarrow> and_then live_members (\<lambda>m1. and_then (read_final_dots G) (\<lambda>final_dots.
             return_ok (matrix_size mc, fst (compute_stable_timestamp self nid m1 final_dots (effective_map dvv)))))
         | None \<Rightarrow> return_ok (0, []))
        (\<lambda>(matrix_clock_size_bytes, v_stable). return_ok
           [metric [(''node_id'', Str nid), (''event'', Str ''gc_coordinator_metrics''),
              (''dissemination_round'', U64 rnd),
              (''v_stable'', Str (map_debug string_debug (show_nat \<circ> unat) v_stable)),
              (''matrix_clock_size_bytes'', U64 (word_of_nat matrix_clock_size_bytes))]]))"

definition knowledge_matrix_event :: "NodeId \<Rightarrow> Matrix \<Rightarrow> 'f event" where
  "knowledge_matrix_event nid km = metric [(''node_id'', Str nid), (''event'', Str ''knowledge_matrix''),
     (''knowledge_matrix'', Str (string_debug (join_with '','' (hm_keys km))))]"

definition client_operation_event :: "NodeId \<Rightarrow> u64 \<Rightarrow> Dot \<Rightarrow> 'f event" where
  "client_operation_event nid millis d = metric [(''node_id'', Str nid), (''event'', Str ''client_operation''),
     (''duration_millis'', U64 millis), (''node_id'', Str nid), (''dot_counter'', U64 (counter d))]"

definition receive_envelope_event :: "NodeId \<Rightarrow> nat \<Rightarrow> 'f event" where
  "receive_envelope_event nid len = metric [(''node_id'', Str nid), (''event'', Str ''receive_envelope''),
     (''size_bytes'', U64 (word_of_nat len))]"

definition send_envelope_event :: "NodeId \<Rightarrow> nat \<Rightarrow> 'f event" where
  "send_envelope_event nid len = metric [(''node_id'', Str nid), (''event'', Str ''send_envelope''),
     (''size_bytes'', U64 (word_of_nat len))]"

definition network_topology_event :: "NodeId \<Rightarrow> bool \<Rightarrow> NodeId hset option \<Rightarrow> 'f event" where
  "network_topology_event node_name is_gc connect_node_ids =
     metric [(''event'', Str ''network_topology''), (''node_id'', Str node_name), (''gc_replica'', Bool is_gc),
       (''connect_node_ids'', Str (case connect_node_ids of Some ids \<Rightarrow> join_with '','' ids | None \<Rightarrow> []))]"

definition gc_performed_event :: "nat \<Rightarrow> nat \<Rightarrow> 'f event" where
  "gc_performed_event size_before size_after =
     metric [(''event'', Str ''gc_performed''),
       (''tombstones_reclaimed'', U64 (word_of_nat (size_before - size_after)))]"

definition observe_epoch_event :: "NodeId \<Rightarrow> u64 \<Rightarrow> (anyhow, bool) result \<Rightarrow> 'f event" where
  "observe_epoch_event nid millis r = metric [(''node_id'', Str nid), (''event'', Str ''gc_observe_epoch_change''),
     (''duration_millis'', U64 millis), (''epoch_changed'', Bool (case r of Inr changed \<Rightarrow> changed | Inl _ \<Rightarrow> False))]"

definition initiate_gc_event ::
  "(GcInitiationAbortReason \<Rightarrow> string) \<Rightarrow> NodeId \<Rightarrow> u64 \<Rightarrow> (anyhow, GcInitiationAbortReason option) result \<Rightarrow> 'f event" where
  "initiate_gc_event debug nid millis r =
     (case (case r of Inr (Some reason) \<Rightarrow> (True, debug reason) | Inr None \<Rightarrow> (False, ''None'') | Inl _ \<Rightarrow> (True, ''None'')) of
        (abort, abort_reason) \<Rightarrow> metric [(''node_id'', Str nid), (''event'', Str ''gc_initiate''),
          (''duration_millis'', U64 millis), (''abort'', Bool abort), (''abort_reason'', Str abort_reason)])"

definition bootstrap_event :: "NodeId \<Rightarrow> u64 \<Rightarrow> 'f event" where
  "bootstrap_event nid millis = metric [(''node_id'', Str nid), (''event'', Str ''new_replica_bootstrap''),
     (''duration_millis'', U64 millis)]"

definition interactive_event :: "string \<Rightarrow> u64 \<Rightarrow> 'f event" where
  "interactive_event line millis = metric [(''event'', Str ''interactive_command''), (''command'', Str line),
     (''duration_millis'', U64 millis)]"

definition bench_event :: "string \<Rightarrow> u64 \<Rightarrow> 'f event" where
  "bench_event str_command millis = metric [(''event'', Str ''bench_command''), (''command'', Str str_command),
     (''duration_millis'', U64 millis)]"

text \<open>The collections reclaim what they drop: the sizes around \<open>perform_gc\<close>.\<close>

definition perform_gc_event :: "'e OrSet \<Rightarrow> DotVersionVector \<Rightarrow> 'f event" where
  "perform_gc_event s frontier =
     gc_performed_event (length (tombstones s)) (length (tombstones (perform_gc s frontier)))"

subsection \<open>What is written\<close>

text \<open>Fields of the same name carry the same value.\<close>

definition consistent :: "(string \<times> 'f field_value) list \<Rightarrow> bool" where
  "consistent kvs \<longleftrightarrow> list_all (\<lambda>(k, v). list_all (\<lambda>(k', v'). k = k' \<longrightarrow> v = v') kvs) kvs"

lemma visit_get:
  "hm_get (fold (\<lambda>(name, v) m. hm_insert name (json_value jf v) m) kvs m) k =
     (case map_of (rev kvs) k of Some v \<Rightarrow> Some (json_value jf v) | None \<Rightarrow> hm_get m k)"
  by (induction kvs arbitrary: m)
    (auto simp: map_add_def update_conv split: option.splits simp del: map_of_eq_Some_iff)

lemma visited_field:
  assumes "consistent kvs" "(k, v) \<in> set kvs"
  shows "hm_get (visit_fields jf kvs) k = Some (json_value jf v)"
proof -
  obtain v' where v': "map_of (rev kvs) k = Some v'"
    using assms(2) map_of_eq_None_iff [of "rev kvs" k] by (cases "map_of (rev kvs) k") force+
  then have "(k, v') \<in> set kvs" using map_of_SomeD [OF v'] by simp
  then have "v' = v" using assms unfolding consistent_def list_all_iff by fast
  then show ?thesis unfolding visit_fields_def visit_get using v' by simp
qed

lemma on_metric:
  assumes "consistent kvs" "(''event'', Str name) \<in> set kvs"
  shows "on_event jf now True writeln (metric kvs) lines =
    (if name \<in> set recorded_events
     then snd (writeln \<lparr>me_timestamp = now, me_level = TRACE, me_fields = visit_fields jf kvs\<rparr> lines) else lines)"
  using visited_field [OF assms, of jf] by (auto simp: on_event_def metric_def Let_def simp del: map_of_eq_Some_iff)

lemma reclaimed_le: "length (tombstones (perform_gc s frontier)) \<le> length (tombstones s)"
  by (simp add: perform_gc_def hm_retain_def)

subsection \<open>Properties\<close>

definition append_line :: "'f metrics_entry \<Rightarrow> 'f metrics_entry list \<Rightarrow> (IoErrorKind, unit) result \<times> 'f metrics_entry list" where
  "append_line entry lines = (Inr (), lines @ [entry])"

text \<open>C33.  What the metrics file holds.  An event of the macro is written, as one line with all its fields at their values, exactly
  when its name is one of the seven the layer lists, and it never reaches the console.  So the report of a
  set is written, and one of a collector when its reads succeed; what a collection reclaims, the attempts at one, the observation of
  epochs, a bootstrap and everything the client measures are emitted and dropped.\<close>

theorem metrics_written:
  "(consistent kvs \<and> (''event'', Str name) \<in> set kvs \<longrightarrow>
      \<not> console_receives (metric kvs) \<and>
      (if name \<in> set recorded_events
       then \<exists>entry. on_event jf now True append_line (metric kvs) lines = lines @ [entry] \<and> me_timestamp entry = now \<and>
         (\<forall>(k, v) \<in> set kvs. hm_get (me_fields entry) k = Some (json_value jf v))
       else on_event jf now True append_line (metric kvs) lines = lines)) \<and>
   (\<exists>entry. on_event jf now True append_line (or_set_log_metrics rnd s dvv epoch) lines = lines @ [entry] \<and>
      hm_get (me_fields entry) ''tombstones'' = Some (JInt (uint (word_of_nat (length (tombstones s)) :: u64)))) \<and>
   (\<forall>evs st'. coordinator_log_metrics G live_members self rnd nid dvv st = (Inr evs, st') \<longrightarrow>
      length (fold (on_event jf now True append_line) evs lines) =
        length lines + (if gc_replica (gc_config self) then 1 else 0)) \<and>
   (\<forall>event \<in> {perform_gc_event s frontier, observe_epoch_event nid millis observed, initiate_gc_event debug nid millis initiated,
        bootstrap_event nid millis, interactive_event line millis, bench_event str_command millis}.
      on_event jf now True append_line event lines = lines)"
proof (intro conjI impI)
  show "\<forall>evs st'. coordinator_log_metrics G live_members self rnd nid dvv st = (Inr evs, st') \<longrightarrow>
      length (fold (on_event jf now True append_line) evs lines) =
        length lines + (if gc_replica (gc_config self) then 1 else 0)"
    by (auto simp: coordinator_log_metrics_def and_then_def return_ok_def on_metric consistent_def recorded_events_def
        append_line_def split: prod.splits sum.splits option.splits)
next
  assume kvs: "consistent kvs \<and> (''event'', Str name) \<in> set kvs"
  show "\<not> console_receives (metric kvs)" by (simp add: console_receives_def metric_def)
  show "if name \<in> set recorded_events
       then \<exists>entry. on_event jf now True append_line (metric kvs) lines = lines @ [entry] \<and> me_timestamp entry = now \<and>
         (\<forall>(k, v) \<in> set kvs. hm_get (me_fields entry) k = Some (json_value jf v))
       else on_event jf now True append_line (metric kvs) lines = lines"
    using kvs visited_field [of kvs _ _ jf] by (auto simp: on_metric append_line_def simp del: map_of_eq_Some_iff)
next
  let ?ev = "or_set_log_metrics rnd s dvv epoch :: 'a event"
  have ev: "?ev = metric (ev_fields ?ev)" by (simp add: or_set_log_metrics_def metric_def Let_def)
  have kvs: "consistent (ev_fields ?ev)" "(''event'', Str ''or_set_metrics'') \<in> set (ev_fields ?ev)"
    "(''tombstones'', U64 (word_of_nat (length (tombstones s)))) \<in> set (ev_fields ?ev)"
    by (simp_all add: or_set_log_metrics_def metric_def consistent_def)
  have "''or_set_metrics'' \<in> set recorded_events" by (simp add: recorded_events_def)
  then show "\<exists>entry. on_event jf now True append_line ?ev lines = lines @ [entry] \<and>
      hm_get (me_fields entry) ''tombstones'' = Some (JInt (uint (word_of_nat (length (tombstones s)) :: u64)))"
    using on_metric [OF kvs(1,2), of jf now append_line lines, folded ev] visited_field [OF kvs(1,3), of jf]
    by (simp add: append_line_def del: map_of_eq_Some_iff)
next
  show "\<forall>event \<in> {perform_gc_event s frontier, observe_epoch_event nid millis observed,
        initiate_gc_event debug nid millis initiated, bootstrap_event nid millis, interactive_event line millis,
        bench_event str_command millis}. on_event jf now True append_line event lines = lines"
    by (auto simp: perform_gc_event_def gc_performed_event_def observe_epoch_event_def initiate_gc_event_def bootstrap_event_def
        interactive_event_def bench_event_def on_metric consistent_def recorded_events_def split: prod.splits)
qed

text \<open>A set with one tombstone, reported and then collected: the file has the report only.\<close>

definition removed_once :: "string OrSet" where
  "removed_once = \<lparr>adds = [], tombstones = [(Dot_new ''A'' 1, Dot_new ''A'' 2)]\<rparr>"

theorem metrics_written_witness:
  "\<exists>entry. on_event (\<lambda>x :: unit. JFloat x) ''t'' True append_line
      (perform_gc_event removed_once (frontier_dvv ''A'' [(''A'', 2)]))
      (on_event (\<lambda>x :: unit. JFloat x) ''t'' True append_line (or_set_log_metrics 3 removed_once (dvv_new ''A'') 0) []) = [entry] \<and>
    hm_get (me_fields entry) ''tombstones'' = Some (JInt 1) \<and>
    tombstones (perform_gc removed_once (frontier_dvv ''A'' [(''A'', 2)])) = [] \<and>
    \<not> console_receives (metric [(''event'', Str ''gc_performed'')] :: unit event)"
proof -
  note written = metrics_written [where kvs = "[(''event'', Str ''gc_performed'')]" and name = "''gc_performed''"
      and jf = "\<lambda>x :: unit. JFloat x" and now = "''t''" and s = removed_once and rnd = 3
      and dvv = "dvv_new ''A''" and epoch = 0 and frontier = "frontier_dvv ''A'' [(''A'', 2)]" and millis = 0 and nid = "''A''"
      and observed = "Inr True" and initiated = "Inr None" and debug = "\<lambda>_. []" and line = "[]" and str_command = "[]"]
  obtain entry where entry: "on_event (\<lambda>x :: unit. JFloat x) ''t'' True append_line (or_set_log_metrics 3 removed_once (dvv_new ''A'') 0) [] = [entry]"
    "hm_get (me_fields entry) ''tombstones'' = Some (JInt 1)"
    using written [where lines = "[]", THEN conjunct2, THEN conjunct1] by (auto simp: removed_once_def simp del: map_of_eq_Some_iff)
  moreover have "on_event (\<lambda>x :: unit. JFloat x) ''t'' True append_line
      (perform_gc_event removed_once (frontier_dvv ''A'' [(''A'', 2)])) [entry] = [entry]"
    by (rule bspec [OF written [where lines = "[entry]", THEN conjunct2, THEN conjunct2, THEN conjunct2]]) simp
  moreover have "tombstones (perform_gc removed_once (frontier_dvv ''A'' [(''A'', 2)])) = []"
    by (simp add: removed_once_def perform_gc_def hm_retain_def dominates_dot_def effective_counter_def frontier_dvv_def
        Dot_new_def hm_or_def Let_def)
  moreover have "\<not> console_receives (metric [(''event'', Str ''gc_performed'')] :: unit event)"
    using written [where lines = "[]", THEN conjunct1] by (simp add: consistent_def)
  ultimately show ?thesis by auto
qed

end
