(* ===== verification/Unit_Tests.thy ===== *)
theory Unit_Tests
  imports Codec_Models GC_Coordinator
begin

text \<open>
  The unit tests the repository keeps beside its code, on the model: those of
  \<^verbatim>\<open>src/logical_clocks/dot_version_vector.rs\<close>, \<^verbatim>\<open>src/crdt/or_set.rs\<close> and
  \<^verbatim>\<open>src/gc/coordinator.rs\<close>.  A test is the conjunction of its assertions, a mutable variable is rebound, a
  snapshot is a second name; the definitions have the tests' names.  That they hold shows that the definitions of the
  components behave as the authors of the code expect of the functions they translate.

  The protobuf codec of the two tests that go through bytes is an argument; the byte-level codec of
  \<open>Codec_Models\<close> stands for it when they are run.
\<close>

subsection \<open>Helpers\<close>

definition create_dvv_with_counter :: "string \<Rightarrow> nat \<Rightarrow> DotVersionVector" where
  "create_dvv_with_counter node n = fold (\<lambda>_ dvv. dvv_event dvv) [0..<n] (dvv_new node)"

definition assert_dot_outside_context :: "DotVersionVector \<Rightarrow> bool" where
  "assert_dot_outside_context dvv \<longleftrightarrow>
     (if counter (dvv_dot dvv) = 0 then True
      else hm_or (dvv_context dvv) (node_id (dvv_dot dvv)) 0 < counter (dvv_dot dvv))"

abbreviation insert_context :: "DotVersionVector \<Rightarrow> NodeId \<Rightarrow> Counter \<Rightarrow> DotVersionVector" where
  "insert_context dvv node c \<equiv> dvv\<lparr>dvv_context := hm_insert node c (dvv_context dvv)\<rparr>"

definition engine_apply_local ::
  "string OrSet \<times> DotVersionVector \<Rightarrow> string OrSetOp \<Rightarrow> string OrSet \<times> DotVersionVector" where
  "engine_apply_local = (\<lambda>(s, dvv) op.
     (let dvv = dvv_event dvv; d = Dot_new (node_id (dvv_dot dvv)) (counter (dvv_dot dvv))
      in (apply_local s d op, dvv)))"

definition engine_merge_delta ::
  "string OrSet \<times> DotVersionVector \<Rightarrow> string OrSetDelta \<Rightarrow> string OrSet \<times> DotVersionVector" where
  "engine_merge_delta = (\<lambda>(s, dvv) delta.
     (case causal_context delta of (ctx, node, c) \<Rightarrow>
        (merge_delta s delta, dvv_merge dvv \<lparr>dvv_dot = Dot_new node c, dvv_context = ctx\<rparr>)))"

subsection \<open>The logical clock\<close>

text \<open>The loop of \<open>accumulate_multiple_deltas\<close>: the assertions so far, the two clocks.\<close>

definition accumulate_batch ::
  "nat \<Rightarrow> bool \<times> DotVersionVector \<times> DotVersionVector \<Rightarrow> bool \<times> DotVersionVector \<times> DotVersionVector" where
  "accumulate_batch batch = (\<lambda>(ok, source, sink).
     (let source = dvv_event (dvv_event source); delta = dvv_delta_since source (effective_map sink);
          sink = dvv_merge sink delta
      in (ok \<and> effective_counter sink ''S'' = (word_of_nat batch + 1) * 2 \<and> assert_dot_outside_context sink,
          source, sink)))"

definition new_dvv_has_zero_counter_and_empty_context :: "bool" where
  "new_dvv_has_zero_counter_and_empty_context \<longleftrightarrow>
    (let dvv = dvv_new ''A'' in counter (dvv_dot dvv) = 0 \<and> node_id (dvv_dot dvv) = ''A'' \<and> dvv_context dvv = [])"

definition effective_counter_of_new_dvv_is_zero :: "bool" where
  "effective_counter_of_new_dvv_is_zero \<longleftrightarrow>
    (let dvv = dvv_new ''A'' in effective_counter dvv ''A'' = 0 \<and> effective_counter dvv ''B'' = 0)"

definition single_event :: "bool" where
  "single_event \<longleftrightarrow>
    (let dvv = dvv_event (dvv_new ''A'')
     in counter (dvv_dot dvv) = 1 \<and> effective_counter dvv ''A'' = 1 \<and> assert_dot_outside_context dvv)"

definition multiple_events_monotonic :: "bool" where
  "multiple_events_monotonic \<longleftrightarrow>
    (fst (fold (\<lambda>i (ok, dvv). let dvv = dvv_event dvv
       in (ok \<and> counter (dvv_dot dvv) = word_of_nat i \<and> effective_counter dvv ''A'' = word_of_nat i \<and> assert_dot_outside_context dvv, dvv))
       [1..<11] (True, dvv_new ''A'')))"

definition event_retires_previous_dot_into_context :: "bool" where
  "event_retires_previous_dot_into_context \<longleftrightarrow>
    (let dvv2 = dvv_event (dvv_event (dvv_new ''A'')); dvv3 = dvv_event dvv2
     in counter (dvv_dot dvv2) = 2 \<and> hm_or (dvv_context dvv2) ''A'' 0 = 1 \<and>
        counter (dvv_dot dvv3) = 3 \<and> hm_or (dvv_context dvv3) ''A'' 0 = 2)"

definition event_does_not_affect_other_nodes :: "bool" where
  "event_does_not_affect_other_nodes \<longleftrightarrow>
    (let dvv = dvv_event (dvv_new ''A'') in effective_counter dvv ''B'' = 0)"

definition invariant_new :: "bool" where
  "invariant_new \<longleftrightarrow>
    (let dvv = dvv_new ''A'' in counter (dvv_dot dvv) = 0 \<and> dvv_context dvv = [])"

definition invariant_after_events :: "bool" where
  "invariant_after_events \<longleftrightarrow>
    (list_all (\<lambda>n. assert_dot_outside_context (create_dvv_with_counter ''A'' n)) [1..<11])"

definition invariant_after_merge :: "bool" where
  "invariant_after_merge \<longleftrightarrow>
    (let a = create_dvv_with_counter ''A'' 3; b = create_dvv_with_counter ''B'' 5; a = dvv_merge a b
     in assert_dot_outside_context a)"

definition invariant_after_merge_then_event :: "bool" where
  "invariant_after_merge_then_event \<longleftrightarrow>
    (let a = create_dvv_with_counter ''A'' 3; b = create_dvv_with_counter ''B'' 5; a = dvv_event (dvv_merge a b)
     in assert_dot_outside_context a)"

definition invariant_complex_scenario :: "bool" where
  "invariant_complex_scenario \<longleftrightarrow>
    (let a = create_dvv_with_counter ''A'' 2; b = create_dvv_with_counter ''B'' 3; c = create_dvv_with_counter ''C'' 1;
         a = dvv_merge a b; a = dvv_merge a c; a = dvv_event a; b = dvv_merge b a; b = dvv_event b
     in assert_dot_outside_context a \<and> assert_dot_outside_context b)"

definition effective_counter_combines_dot_and_context :: "bool" where
  "effective_counter_combines_dot_and_context \<longleftrightarrow>
    (let dvv = create_dvv_with_counter ''A'' 3
     in effective_counter dvv ''A'' = 3 \<and> hm_or (dvv_context dvv) ''A'' 0 = 2)"

definition effective_counter_for_remote_uses_context_only :: "bool" where
  "effective_counter_for_remote_uses_context_only \<longleftrightarrow>
    (let a = create_dvv_with_counter ''A'' 2; b = create_dvv_with_counter ''B'' 5; a = dvv_merge a b
     in effective_counter a ''B'' = 5 \<and> hm_or (dvv_context a) ''B'' 0 = 5)"

definition effective_map_includes_dot_and_context :: "bool" where
  "effective_map_includes_dot_and_context \<longleftrightarrow>
    (let a = create_dvv_with_counter ''A'' 3; b = create_dvv_with_counter ''B'' 2; a = dvv_merge a b; eff = effective_map a
     in hm_get eff ''A'' = Some 3 \<and> hm_get eff ''B'' = Some 2)"

definition effective_map_excludes_zero_dot :: "bool" where
  "effective_map_excludes_zero_dot \<longleftrightarrow>
    (let a = dvv_new ''A''; eff = effective_map a in \<not> hm_contains eff ''A'')"

definition merge_acquires_new_nodes :: "bool" where
  "merge_acquires_new_nodes \<longleftrightarrow>
    (let a = create_dvv_with_counter ''A'' 2; b = create_dvv_with_counter ''B'' 3; a = dvv_merge a b
     in effective_counter a ''B'' = 3 \<and> assert_dot_outside_context a)"

definition merge_takes_pointwise_maximum :: "bool" where
  "merge_takes_pointwise_maximum \<longleftrightarrow>
    (let a = create_dvv_with_counter ''A'' 5; b = dvv_new ''B''; b = insert_context b ''A'' 2; a = dvv_merge a b
     in effective_counter a ''A'' = 5 \<and> assert_dot_outside_context a)"

definition merge_does_not_decrease_counters :: "bool" where
  "merge_does_not_decrease_counters \<longleftrightarrow>
    (let a = create_dvv_with_counter ''A'' 5; b = dvv_new ''B''; before = effective_counter a ''A''; a = dvv_merge a b
     in effective_counter a ''A'' \<ge> before)"

definition merge_is_commutative_on_effective_knowledge :: "bool" where
  "merge_is_commutative_on_effective_knowledge \<longleftrightarrow>
    (let a = create_dvv_with_counter ''A'' 3; b = create_dvv_with_counter ''B'' 2; a1 = dvv_merge a b; b1 = dvv_merge b a
     in list_all (\<lambda>n. effective_counter a1 n = effective_counter b1 n) [''A'', ''B''])"

definition merge_is_idempotent :: "bool" where
  "merge_is_idempotent \<longleftrightarrow>
    (let a = create_dvv_with_counter ''A'' 3; b = create_dvv_with_counter ''B'' 2; a = dvv_merge a b;
         snapshot = effective_map a; a = dvv_merge a b
     in hm_eq (effective_map a) snapshot)"

definition merge_is_associative_on_effective_knowledge :: "bool" where
  "merge_is_associative_on_effective_knowledge \<longleftrightarrow>
    (let a = create_dvv_with_counter ''A'' 3; b = create_dvv_with_counter ''B'' 2; c = create_dvv_with_counter ''C'' 4;
         ab_c = dvv_merge (dvv_merge a b) c; bc = dvv_merge b c; a_bc = dvv_merge a bc
     in list_all (\<lambda>n. effective_counter ab_c n = effective_counter a_bc n) [''A'', ''B'', ''C''])"

definition merge_self_does_not_change_effective_knowledge :: "bool" where
  "merge_self_does_not_change_effective_knowledge \<longleftrightarrow>
    (let a = create_dvv_with_counter ''A'' 3; before = effective_map a; a2 = dvv_merge a a
     in hm_eq (effective_map a2) before \<and> assert_dot_outside_context a2)"

definition merge_does_not_create_events :: "bool" where
  "merge_does_not_create_events \<longleftrightarrow>
    (let a = create_dvv_with_counter ''A'' 3; b = create_dvv_with_counter ''B'' 5; eff_before = effective_counter a ''A'';
         a2 = dvv_merge a b
     in effective_counter a2 ''A'' = eff_before)"

definition merge_three_nodes_full_sync :: "bool" where
  "merge_three_nodes_full_sync \<longleftrightarrow>
    (let a = create_dvv_with_counter ''A'' 2; b = create_dvv_with_counter ''B'' 3; c = create_dvv_with_counter ''C'' 1;
         a_snap = a; b_snap = b; c_snap = c;
         a = dvv_merge a b_snap; a = dvv_merge a c_snap; b = dvv_merge b a_snap; b = dvv_merge b c_snap;
         c = dvv_merge c a_snap; c = dvv_merge c b_snap
     in list_all (\<lambda>n. effective_counter a n = effective_counter b n \<and> effective_counter b n = effective_counter c n)
          [''A'', ''B'', ''C''])"

definition merge_remote_knows_more_about_us :: "bool" where
  "merge_remote_knows_more_about_us \<longleftrightarrow>
    (let a = create_dvv_with_counter ''A'' 3; b = insert_context (dvv_new ''B'') ''A'' 10; a = dvv_merge a b
     in assert_dot_outside_context a \<and> effective_counter a ''A'' = 10)"

definition equal_dvvs_are_equal :: "bool" where
  "equal_dvvs_are_equal \<longleftrightarrow>
    (let a = create_dvv_with_counter ''A'' 3; b = a in partial_cmp a b = Some Equal)"

definition fresh_dvvs_different_nodes_are_equal :: "bool" where
  "fresh_dvvs_different_nodes_are_equal \<longleftrightarrow>
    (let a = dvv_new ''A''; b = dvv_new ''B'' in partial_cmp a b = Some Equal)"

definition more_events_is_greater_same_node :: "bool" where
  "more_events_is_greater_same_node \<longleftrightarrow>
    (let a = create_dvv_with_counter ''A'' 2; b = create_dvv_with_counter ''A'' 5
     in partial_cmp a b = Some Less \<and> partial_cmp b a = Some Greater)"

definition independent_nodes_with_events_are_concurrent :: "bool" where
  "independent_nodes_with_events_are_concurrent \<longleftrightarrow>
    (let a = create_dvv_with_counter ''A'' 1; b = create_dvv_with_counter ''B'' 1 in is_concurrent_with a b)"

definition after_merge_and_event_is_greater :: "bool" where
  "after_merge_and_event_is_greater \<longleftrightarrow>
    (let a = create_dvv_with_counter ''A'' 2; b = create_dvv_with_counter ''B'' 3; c = dvv_event (dvv_merge a b)
     in partial_cmp c a = Some Greater \<and> partial_cmp c b = Some Greater)"

definition concurrent_after_independent_events :: "bool" where
  "concurrent_after_independent_events \<longleftrightarrow>
    (let a = create_dvv_with_counter ''A'' 1; b = create_dvv_with_counter ''B'' 1; a_snap = a;
         a = dvv_merge a b; b = dvv_merge b a_snap; a = dvv_event a; b = dvv_event b
     in is_concurrent_with a b)"

definition partial_order_after_one_sided_sync :: "bool" where
  "partial_order_after_one_sided_sync \<longleftrightarrow>
    (let a = create_dvv_with_counter ''A'' 2; b = create_dvv_with_counter ''B'' 1; a = dvv_merge a b
     in partial_cmp a b = Some Greater \<and> partial_cmp b a = Some Less)"

definition concurrent_three_way :: "bool" where
  "concurrent_three_way \<longleftrightarrow>
    (let a = create_dvv_with_counter ''A'' 1; b = create_dvv_with_counter ''B'' 1; c = create_dvv_with_counter ''C'' 1
     in is_concurrent_with a b \<and> is_concurrent_with b c \<and> is_concurrent_with a c)"

definition partial_cmp_with_unknown_nodes :: "bool" where
  "partial_cmp_with_unknown_nodes \<longleftrightarrow>
    (let a = create_dvv_with_counter ''A'' 5; b = dvv_new ''B''
     in partial_cmp a b = Some Greater \<and> partial_cmp b a = Some Less)"

definition partial_ord_antisymmetry :: "bool" where
  "partial_ord_antisymmetry \<longleftrightarrow>
    (let a = create_dvv_with_counter ''A'' 3; b = create_dvv_with_counter ''A'' 5
     in partial_cmp a b = Some Less \<and> partial_cmp b a = Some Greater)"

definition partial_ord_reflexive :: "bool" where
  "partial_ord_reflexive \<longleftrightarrow>
    (let a = create_dvv_with_counter ''A'' 7 in partial_cmp a a = Some Equal)"

definition causality_is_transitive :: "bool" where
  "causality_is_transitive \<longleftrightarrow>
    (let a = create_dvv_with_counter ''A'' 1; b = dvv_event a; c = dvv_event b
     in partial_cmp a b = Some Less \<and> partial_cmp b c = Some Less \<and> partial_cmp a c = Some Less)"

definition descends_self :: "bool" where
  "descends_self \<longleftrightarrow>
    (let a = create_dvv_with_counter ''A'' 3 in descends a a)"

definition descends_after_merge :: "bool" where
  "descends_after_merge \<longleftrightarrow>
    (let a = create_dvv_with_counter ''A'' 2; b = create_dvv_with_counter ''B'' 3; a = dvv_merge a b
     in descends a b \<and> \<not> descends b a)"

definition does_not_descend_concurrent :: "bool" where
  "does_not_descend_concurrent \<longleftrightarrow>
    (let a = create_dvv_with_counter ''A'' 1; b = create_dvv_with_counter ''B'' 1 in \<not> descends a b \<and> \<not> descends b a)"

definition dominates_dot_after_event :: "bool" where
  "dominates_dot_after_event \<longleftrightarrow>
    (let a = create_dvv_with_counter ''A'' 3 in dominates_dot a (Dot_new ''A'' 2) \<and> dominates_dot a (Dot_new ''A'' 3))"

definition does_not_dominate_future_dot :: "bool" where
  "does_not_dominate_future_dot \<longleftrightarrow>
    (let a = create_dvv_with_counter ''A'' 3 in \<not> dominates_dot a (Dot_new ''A'' 4))"

definition dominates_remote_dot_after_merge :: "bool" where
  "dominates_remote_dot_after_merge \<longleftrightarrow>
    (let a = create_dvv_with_counter ''A'' 1; b = create_dvv_with_counter ''B'' 5; a = dvv_merge a b
     in dominates_dot a (Dot_new ''B'' 3) \<and> dominates_dot a (Dot_new ''B'' 5) \<and> \<not> dominates_dot a (Dot_new ''B'' 6))"

definition dominates_dot_counter_zero :: "bool" where
  "dominates_dot_counter_zero \<longleftrightarrow>
    (let a = dvv_new ''A'' in dominates_dot a (Dot_new ''A'' 0) \<and> dominates_dot a (Dot_new ''B'' 0))"

definition delta_since_empty_knowledge :: "bool" where
  "delta_since_empty_knowledge \<longleftrightarrow>
    (let a = create_dvv_with_counter ''A'' 3; delta = dvv_delta_since a [] in counter (dvv_dot delta) = 3)"

definition delta_since_up_to_date :: "bool" where
  "delta_since_up_to_date \<longleftrightarrow>
    (let a = create_dvv_with_counter ''A'' 3; remote = hm_insert ''A'' 3 []; delta = dvv_delta_since a remote
     in counter (dvv_dot delta) = 0)"

definition delta_since_partial_knowledge :: "bool" where
  "delta_since_partial_knowledge \<longleftrightarrow>
    (let a = create_dvv_with_counter ''A'' 5; b = create_dvv_with_counter ''B'' 3; a = dvv_merge a b;
         remote = hm_insert ''A'' 5 []; delta = dvv_delta_since a remote
     in effective_counter delta ''B'' = 3 \<and> counter (dvv_dot delta) = 0)"

definition delta_merge_brings_peer_up_to_date :: "bool" where
  "delta_merge_brings_peer_up_to_date \<longleftrightarrow>
    (let a = create_dvv_with_counter ''A'' 4; b = create_dvv_with_counter ''B'' 2; a = dvv_merge a b;
         c = dvv_new ''C''; delta = dvv_delta_since a (effective_map c); c = dvv_merge c delta
     in effective_counter c ''A'' = 4 \<and> effective_counter c ''B'' = 2 \<and> assert_dot_outside_context c)"

definition full_delta_is_clone :: "bool" where
  "full_delta_is_clone \<longleftrightarrow>
    (let a = create_dvv_with_counter ''A'' 3 in a = full_delta a)"

definition accumulate_multiple_deltas :: "bool" where
  "accumulate_multiple_deltas \<longleftrightarrow>
    (case fold accumulate_batch [0..<5] (True, dvv_new ''S'', dvv_new ''T'') of
     (ok, source, sink) \<Rightarrow> ok \<and> effective_counter sink ''S'' = 10)"

definition delta_crdt_protocol_round_trip :: "bool" where
  "delta_crdt_protocol_round_trip \<longleftrightarrow>
    (let a = create_dvv_with_counter ''A'' 3; b = create_dvv_with_counter ''B'' 2;
         a = dvv_merge a (full_delta b); b = dvv_merge b (full_delta a); a = dvv_event a; a = dvv_event a;
         delta = dvv_delta_since a (effective_map b); b = dvv_merge b delta
     in effective_counter b ''A'' = 5 \<and> descends b a \<and> assert_dot_outside_context b)"

definition replicated_counter_scenario :: "bool" where
  "replicated_counter_scenario \<longleftrightarrow>
    (let r1 = dvv_new ''R1''; r2 = dvv_new ''R2''; r3 = dvv_new ''R3'';
         r1 = dvv_event r1; r1 = dvv_event r1; r2 = dvv_event r2; r2 = dvv_merge r2 r1; r2 = dvv_event r2;
         r3 = dvv_event r3; r3 = dvv_merge r3 r2;
         total = sum_list (map (effective_counter r3) [''R1'', ''R2'', ''R3''])
     in total = 5 \<and> assert_dot_outside_context r1 \<and> assert_dot_outside_context r2 \<and> assert_dot_outside_context r3)"

definition network_partition_and_heal :: "bool" where
  "network_partition_and_heal \<longleftrightarrow>
    (let a = dvv_new ''A''; b = dvv_new ''B''; a = dvv_event a; b = dvv_event b; a_snap = a;
         a = dvv_merge a b; b = dvv_merge b a_snap;
         a = dvv_event a; a = dvv_event a; b = dvv_event b; b = dvv_event b; b = dvv_event b
     in is_concurrent_with a b \<and>
       (let a_snap = a; a = dvv_merge a b; b = dvv_merge b a_snap
        in descends a b \<and> descends b a \<and> assert_dot_outside_context a \<and> assert_dot_outside_context b))"

definition late_joiner_catches_up :: "bool" where
  "late_joiner_catches_up \<longleftrightarrow>
    (let a = create_dvv_with_counter ''A'' 10; b = create_dvv_with_counter ''B'' 7; a = dvv_merge a b;
         c = dvv_merge (dvv_new ''C'') (full_delta a)
     in effective_counter c ''A'' = 10 \<and> effective_counter c ''B'' = 7 \<and> assert_dot_outside_context c)"

definition conflicting_writes_detected :: "bool" where
  "conflicting_writes_detected \<longleftrightarrow>
    (let a = create_dvv_with_counter ''A'' 1; b = create_dvv_with_counter ''B'' 1; a_snap = a;
         a = dvv_merge a b; b = dvv_merge b a_snap; a = dvv_event a; b = dvv_event b
     in is_concurrent_with a b \<and> \<not> dominates_dot b (dvv_dot a) \<and> \<not> dominates_dot a (dvv_dot b) \<and>
       (let a_snap = a; a = dvv_merge a b; b = dvv_merge b a_snap in descends a b \<and> descends b a))"

definition dot_domination_for_dedup :: "bool" where
  "dot_domination_for_dedup \<longleftrightarrow>
    (let a = create_dvv_with_counter ''A'' 5; b = create_dvv_with_counter ''B'' 3; a = dvv_merge a b
     in dominates_dot a (Dot_new ''B'' 2) \<and> dominates_dot a (Dot_new ''B'' 3) \<and> \<not> dominates_dot a (Dot_new ''B'' 4))"

definition chain_of_gossip :: "bool" where
  "chain_of_gossip \<longleftrightarrow>
    (let a = create_dvv_with_counter ''A'' 3; b = dvv_event (dvv_merge (dvv_new ''B'') a);
         c = dvv_event (dvv_merge (dvv_new ''C'') b); d = dvv_event (dvv_merge (dvv_new ''D'') c)
     in effective_counter d ''A'' = 3 \<and> descends d a \<and> descends d b \<and> descends d c \<and> assert_dot_outside_context d)"

definition merge_concurrent_creates_common_descendant :: "bool" where
  "merge_concurrent_creates_common_descendant \<longleftrightarrow>
    (let a = create_dvv_with_counter ''A'' 2; b = create_dvv_with_counter ''B'' 3
     in is_concurrent_with a b \<and>
       (let ma = dvv_merge a b; mb = dvv_merge b a in descends ma a \<and> descends ma b \<and> descends mb a \<and> descends mb b))"

definition dot_equality :: "bool" where
  "dot_equality \<longleftrightarrow>
    (Dot_new ''A'' 3 = Dot_new ''A'' 3 \<and> Dot_new ''A'' 3 \<noteq> Dot_new ''A'' 4 \<and> Dot_new ''A'' 3 \<noteq> Dot_new ''B'' 3)"

definition dot_in_hashset :: "bool" where
  "dot_in_hashset \<longleftrightarrow>
    (let s = []; s = hs_insert (Dot_new ''A'' 1) s; s = hs_insert (Dot_new ''A'' 1) s; s = hs_insert (Dot_new ''A'' 2) s
     in length s = 2)"

definition clone_is_independent :: "bool" where
  "clone_is_independent \<longleftrightarrow>
    (let a = create_dvv_with_counter ''A'' 3; b = a; a = dvv_event a in counter (dvv_dot b) = 3 \<and> counter (dvv_dot a) = 4)"

definition five_node_cluster_full_replication :: "bool" where
  "five_node_cluster_full_replication \<longleftrightarrow>
    (let names = map (\<lambda>i. ''N'' @ show_nat i) [0..<5];
         dvvs = map (\<lambda>i. fold (\<lambda>_ dvv. dvv_event dvv) [0..<i + 1] (dvv_new (names ! i))) [0..<5];
         snaps = dvvs; dvvs = map (\<lambda>dvv. fold (\<lambda>snap dvv. dvv_merge dvv snap) snaps dvv) dvvs
     in list_all (\<lambda>i. list_all (\<lambda>j. effective_counter (dvvs ! i) (names ! j) = effective_counter (dvvs ! 0) (names ! j)) [0..<5] \<and>
            assert_dot_outside_context (dvvs ! i)) [1..<5] \<and>
        list_all (\<lambda>i. effective_counter (dvvs ! 0) (names ! i) = word_of_nat (i + 1)) [0..<5])"

definition rapid_event_sync_interleave :: "bool" where
  "rapid_event_sync_interleave \<longleftrightarrow>
    (let (a, b) = fold (\<lambda>round (a, b). let a = dvv_event a; b = dvv_event b
           in if round mod 5 = 0 then (let a = dvv_merge a b; b = dvv_merge b a in (a, b)) else (a, b))
         [1..<21::nat] (dvv_new ''A'', dvv_new ''B'');
         a = dvv_merge a b; b = dvv_merge b a
     in effective_counter a ''A'' = 20 \<and> effective_counter a ''B'' = 20 \<and> effective_counter b ''A'' = 20 \<and>
        effective_counter b ''B'' = 20 \<and> assert_dot_outside_context a \<and> assert_dot_outside_context b)"

definition merge_two_fresh_dvvs :: "bool" where
  "merge_two_fresh_dvvs \<longleftrightarrow>
    (let a = dvv_new ''A''; b = dvv_new ''B''; a = dvv_merge a b
     in effective_counter a ''A'' = 0 \<and> effective_counter a ''B'' = 0 \<and> counter (dvv_dot a) = 0)"

definition effective_counter_unknown_returns_zero :: "bool" where
  "effective_counter_unknown_returns_zero \<longleftrightarrow>
    (let a = dvv_new ''A'' in effective_counter a ''UNKNOWN'' = 0)"

definition event_after_merge_preserves_remote_knowledge :: "bool" where
  "event_after_merge_preserves_remote_knowledge \<longleftrightarrow>
    (let a = create_dvv_with_counter ''A'' 2; b = create_dvv_with_counter ''B'' 4; a = dvv_merge a b;
         b_before = effective_counter a ''B''; a = dvv_event a
     in effective_counter a ''B'' = b_before \<and> assert_dot_outside_context a)"

definition state_transfer_fast_forward :: "bool" where
  "state_transfer_fast_forward \<longleftrightarrow>
    (let a = create_dvv_with_counter ''A'' 3; remote = insert_context (dvv_new ''B'') ''A'' 10; a = dvv_merge a remote
     in assert_dot_outside_context a \<and> effective_counter a ''A'' = 10 \<and>
       (let a = dvv_event a in effective_counter a ''A'' = 11 \<and> assert_dot_outside_context a))"

definition mutual_full_sync_yields_equal_effective_maps :: "bool" where
  "mutual_full_sync_yields_equal_effective_maps \<longleftrightarrow>
    (let a = create_dvv_with_counter ''A'' 4; b = create_dvv_with_counter ''B'' 7; c = create_dvv_with_counter ''C'' 2;
         a = dvv_merge a c; b = dvv_merge b c; a_snap = a; b_snap = b; a = dvv_merge a b_snap; b = dvv_merge b a_snap
     in list_all (\<lambda>n. effective_counter a n = effective_counter b n) [''A'', ''B'', ''C''])"

definition vv_lt_strict_progress :: "bool" where
  "vv_lt_strict_progress \<longleftrightarrow>
    (let prev = hm_insert ''A'' 2 []; new = hm_insert ''B'' 1 (hm_insert ''A'' 2 []) in vv_lt prev new)"

definition vv_lt_rejects_no_progress :: "bool" where
  "vv_lt_rejects_no_progress \<longleftrightarrow>
    (let prev = hm_insert ''A'' 2 []; new = hm_insert ''A'' 2 [] in \<not> vv_lt prev new)"

subsection \<open>The set\<close>

definition add_uses_dot :: "bool" where
  "add_uses_dot \<longleftrightarrow>
    (let (s, dvv) = engine_apply_local (OrSet_new, dvv_new ''A'') (Add ''x'')
     in contains s ''x'' \<and> counter (dvv_dot dvv) = 1)"

definition remove_clears_element :: "bool" where
  "remove_clears_element \<longleftrightarrow>
    (let (s, dvv) = engine_apply_local (OrSet_new, dvv_new ''A'') (Add ''x'')
     in counter (dvv_dot dvv) = 1 \<and>
       (let (s, dvv) = engine_apply_local (s, dvv) (Remove ''x'') in counter (dvv_dot dvv) = 2 \<and> \<not> contains s ''x''))"

definition concurrent_add_wins :: "bool" where
  "concurrent_add_wins \<longleftrightarrow>
    (let (a_set, a_dvv) = engine_apply_local (OrSet_new, dvv_new ''A'') (Add ''x''); b_dvv = dvv_new ''B'';
         delta_a = delta_since a_set (effective_map b_dvv) a_dvv;
         (b_set, b_dvv) = engine_merge_delta (OrSet_new, b_dvv) delta_a
     in contains b_set ''x'' \<and>
       (let (b_set, b_dvv) = engine_apply_local (b_set, b_dvv) (Remove ''x'');
            remove_delta = delta_since b_set (effective_map a_dvv) b_dvv;
            (a_set, a_dvv) = engine_apply_local (a_set, a_dvv) (Add ''x'');
            readd_delta = delta_since a_set (effective_map b_dvv) a_dvv;
            (a_set, a_dvv) = engine_merge_delta (a_set, a_dvv) remove_delta;
            (b_set, b_dvv) = engine_merge_delta (b_set, b_dvv) readd_delta
        in contains a_set ''x'' \<and> contains b_set ''x''))"

definition delta_roundtrip_through_bytes :: "(ProtoOrSetDelta \<Rightarrow> bytes) \<Rightarrow> (bytes \<Rightarrow> (wire_error, ProtoOrSetDelta) result) \<Rightarrow> bool" where
  "delta_roundtrip_through_bytes pb_enc pb_dec \<longleftrightarrow>
    (let (s, dvv) = engine_apply_local (OrSet_new, dvv_new ''A'') (Add ''hello''); delta = delta_since s [] dvv
     in (case decode_delta decode_elem pb_dec (encode_delta encode_elem pb_enc delta) of
           Inl e \<Rightarrow> False
         | Inr decoded \<Rightarrow>
             let (remote_set, remote_dvv) = engine_merge_delta (OrSet_new, dvv_new ''B'') decoded
             in contains remote_set ''hello'' \<and> effective_counter remote_dvv ''A'' = 1))"

definition full_state_sync :: "(ProtoOrSetDelta \<Rightarrow> bytes) \<Rightarrow> (bytes \<Rightarrow> (wire_error, ProtoOrSetDelta) result) \<Rightarrow> bool" where
  "full_state_sync pb_enc pb_dec \<longleftrightarrow>
    (let a = engine_apply_local (OrSet_new, dvv_new ''A'') (Add ''x''); a = engine_apply_local a (Add ''y'');
         (a_set, a_dvv) = engine_apply_local a (Remove ''x''); st = full_state a_set a_dvv
     in od_tombstones st \<noteq> [] \<and> od_dot_counter st = counter (dvv_dot a_dvv) \<and>
       (case decode_delta decode_elem pb_dec (encode_delta encode_elem pb_enc st) of
          Inl e \<Rightarrow> False
        | Inr decoded \<Rightarrow>
            let (b_set, b_dvv) = engine_merge_delta (OrSet_new, dvv_new ''B'') decoded
            in \<not> contains b_set ''x'' \<and> contains b_set ''y'' \<and> effective_counter b_dvv ''A'' = 3))"

definition incremental_delta_only_contains_new_ops :: "bool" where
  "incremental_delta_only_contains_new_ops \<longleftrightarrow>
    (let (s, dvv) = engine_apply_local (OrSet_new, dvv_new ''A'') (Add ''x'')
     in length (adds s) = 1 \<and> length (tombstones s) = 0 \<and>
       (let (s, dvv) = engine_apply_local (s, dvv) (Remove ''x'') in length (adds s) = 0 \<and> length (tombstones s) = 1))"

definition delta_since_empty_remote_equals_full_state :: "bool" where
  "delta_since_empty_remote_equals_full_state \<longleftrightarrow>
    (let s = engine_apply_local (OrSet_new, dvv_new ''A'') (Add ''x''); s = engine_apply_local s (Add ''y'');
         (s, dvv) = engine_apply_local s (Remove ''x''); delta = delta_since s [] dvv; full = full_state s dvv
     in length (od_adds delta) = length (od_adds full) \<and> length (od_tombstones delta) = length (od_tombstones full))"

definition delta_since_up_to_date_remote_is_empty :: "bool" where
  "delta_since_up_to_date_remote_is_empty \<longleftrightarrow>
    (let s = engine_apply_local (OrSet_new, dvv_new ''A'') (Add ''x''); (s, dvv) = engine_apply_local s (Add ''y'');
         delta = delta_since s (effective_map dvv) dvv
     in od_adds delta = [] \<and> od_tombstones delta = [])"

definition delta_since_sends_only_missing_adds :: "bool" where
  "delta_since_sends_only_missing_adds \<longleftrightarrow>
    (let (a_set, a_dvv) = engine_apply_local (OrSet_new, dvv_new ''A'') (Add ''x''); snapshot_knowledge = effective_map a_dvv;
         (a_set, a_dvv) = engine_apply_local (a_set, a_dvv) (Add ''y''); delta = delta_since a_set snapshot_knowledge a_dvv
     in length (od_adds delta) = 1 \<and> fst (od_adds delta ! 0) = ''y'' \<and> od_tombstones delta = [])"

definition delta_since_sends_only_missing_tombstones :: "bool" where
  "delta_since_sends_only_missing_tombstones \<longleftrightarrow>
    (let a = engine_apply_local (OrSet_new, dvv_new ''A'') (Add ''x''); (a_set, a_dvv) = engine_apply_local a (Add ''y'');
         b_knowledge = effective_map a_dvv; (a_set, a_dvv) = engine_apply_local (a_set, a_dvv) (Remove ''x'');
         delta = delta_since a_set b_knowledge a_dvv
     in od_adds delta = [] \<and> length (od_tombstones delta) = 1)"

definition perform_gc_removes_eligible_tombstones :: "bool" where
  "perform_gc_removes_eligible_tombstones \<longleftrightarrow>
    (let s = engine_apply_local (OrSet_new, dvv_new ''A'') (Add ''x''); (s, dvv) = engine_apply_local s (Remove ''x'')
     in length (tombstones s) = 1 \<and>
       (let frontier = insert_context (dvv_new ''F'') ''A'' 2 in tombstones (perform_gc s frontier) = []))"

definition perform_gc_keeps_non_eligible_tombstones :: "bool" where
  "perform_gc_keeps_non_eligible_tombstones \<longleftrightarrow>
    (let s = engine_apply_local (OrSet_new, dvv_new ''A'') (Add ''x''); (s, dvv) = engine_apply_local s (Remove ''x'')
     in length (tombstones s) = 1 \<and>
       (let frontier = insert_context (dvv_new ''F'') ''A'' 1 in length (tombstones (perform_gc s frontier)) = 1))"

definition delta_since_pull_response_converges :: "bool" where
  "delta_since_pull_response_converges \<longleftrightarrow>
    (let b = (OrSet_new, dvv_new ''B''); a = engine_apply_local (OrSet_new, dvv_new ''A'') (Add ''x'');
         a = engine_apply_local a (Add ''y''); (a_set, a_dvv) = engine_apply_local a (Remove ''x'');
         b_knowledge = effective_map (snd b); resp = delta_since a_set b_knowledge a_dvv;
         (b_set, b_dvv) = engine_merge_delta b resp
     in \<not> contains b_set ''x'' \<and> contains b_set ''y'' \<and> effective_counter b_dvv ''A'' = 3)"

definition delta_since_partial_pull_response_converges :: "bool" where
  "delta_since_partial_pull_response_converges \<longleftrightarrow>
    (let b_dvv = dvv_new ''B''; (a_set, a_dvv) = engine_apply_local (OrSet_new, dvv_new ''A'') (Add ''x'');
         delta_x = delta_since a_set (effective_map b_dvv) a_dvv;
         (b_set, b_dvv) = engine_merge_delta (OrSet_new, b_dvv) delta_x
     in contains b_set ''x'' \<and>
       (let a = engine_apply_local (a_set, a_dvv) (Add ''y''); (a_set, a_dvv) = engine_apply_local a (Remove ''x'');
            b_knowledge = effective_map b_dvv; resp = delta_since a_set b_knowledge a_dvv;
            (b_set, b_dvv) = engine_merge_delta (b_set, b_dvv) resp
        in length (od_adds resp) = 1 \<and> length (od_tombstones resp) = 1 \<and> \<not> contains b_set ''x'' \<and> contains b_set ''y'' \<and>
           effective_counter b_dvv ''A'' = 3))"

subsection \<open>The membership check of a collection\<close>

definition no_new_members_same_lists :: "bool" where
  "no_new_members_same_lists \<longleftrightarrow>
    (let old = [''1'', ''2'', ''3'']; new = [''1'', ''2'', ''3''] in \<not> new_member_exists old new)"

definition no_new_members_subset :: "bool" where
  "no_new_members_subset \<longleftrightarrow>
    (let old = [''1'', ''2'', ''3'']; new = [''1'', ''2''] in \<not> new_member_exists old new)"

definition detects_single_new_member :: "bool" where
  "detects_single_new_member \<longleftrightarrow>
    (let old = [''1'', ''2'', ''3'']; new = [''1'', ''2'', ''3'', ''4''] in new_member_exists old new)"

definition detects_multiple_new_members :: "bool" where
  "detects_multiple_new_members \<longleftrightarrow>
    (let old = [''1'', ''2'']; new = [''1'', ''2'', ''3'', ''4''] in new_member_exists old new)"

definition empty_old_with_new_members :: "bool" where
  "empty_old_with_new_members \<longleftrightarrow>
    (let old = []; new = [''1''] in new_member_exists old new)"

definition both_empty :: "bool" where
  "both_empty \<longleftrightarrow>
    (let old = []; new = [] in \<not> new_member_exists old new)"

definition order_does_not_matter :: "bool" where
  "order_does_not_matter \<longleftrightarrow>
    (let old = [''1'', ''2'', ''3'']; new = [''3'', ''2'', ''1''] in \<not> new_member_exists old new)"

definition detects_new_member_with_reordering :: "bool" where
  "detects_new_member_with_reordering \<longleftrightarrow>
    (let old = [''1'', ''2'', ''3'']; new = [''3'', ''4'', ''2'', ''1''] in new_member_exists old new)"

definition handles_duplicates_in_new :: "bool" where
  "handles_duplicates_in_new \<longleftrightarrow>
    (let old = [''1'', ''2'', ''3'']; new = [''1'', ''2'', ''2'', ''3''] in \<not> new_member_exists old new)"

subsection \<open>The tests hold\<close>

lemma new_dvv_has_zero_counter_and_empty_context_holds: "new_dvv_has_zero_counter_and_empty_context"
  by code_simp

lemma effective_counter_of_new_dvv_is_zero_holds: "effective_counter_of_new_dvv_is_zero"
  by code_simp

lemma single_event_holds: "single_event"
  by code_simp

lemma multiple_events_monotonic_holds: "multiple_events_monotonic"
  by code_simp

lemma event_retires_previous_dot_into_context_holds: "event_retires_previous_dot_into_context"
  by code_simp

lemma event_does_not_affect_other_nodes_holds: "event_does_not_affect_other_nodes"
  by code_simp

lemma invariant_new_holds: "invariant_new"
  by code_simp

lemma invariant_after_events_holds: "invariant_after_events"
  by code_simp

lemma invariant_after_merge_holds: "invariant_after_merge"
  by code_simp

lemma invariant_after_merge_then_event_holds: "invariant_after_merge_then_event"
  by code_simp

lemma invariant_complex_scenario_holds: "invariant_complex_scenario"
  by code_simp

lemma effective_counter_combines_dot_and_context_holds: "effective_counter_combines_dot_and_context"
  by code_simp

lemma effective_counter_for_remote_uses_context_only_holds: "effective_counter_for_remote_uses_context_only"
  by code_simp

lemma effective_map_includes_dot_and_context_holds: "effective_map_includes_dot_and_context"
  by code_simp

lemma effective_map_excludes_zero_dot_holds: "effective_map_excludes_zero_dot"
  by code_simp

lemma merge_acquires_new_nodes_holds: "merge_acquires_new_nodes"
  by code_simp

lemma merge_takes_pointwise_maximum_holds: "merge_takes_pointwise_maximum"
  by code_simp

lemma merge_does_not_decrease_counters_holds: "merge_does_not_decrease_counters"
  by code_simp

lemma merge_is_commutative_on_effective_knowledge_holds: "merge_is_commutative_on_effective_knowledge"
  by code_simp

lemma merge_is_idempotent_holds: "merge_is_idempotent"
  by code_simp

lemma merge_is_associative_on_effective_knowledge_holds: "merge_is_associative_on_effective_knowledge"
  by code_simp

lemma merge_self_does_not_change_effective_knowledge_holds: "merge_self_does_not_change_effective_knowledge"
  by code_simp

lemma merge_does_not_create_events_holds: "merge_does_not_create_events"
  by code_simp

lemma merge_three_nodes_full_sync_holds: "merge_three_nodes_full_sync"
  by code_simp

lemma merge_remote_knows_more_about_us_holds: "merge_remote_knows_more_about_us"
  by code_simp

lemma equal_dvvs_are_equal_holds: "equal_dvvs_are_equal"
  by code_simp

lemma fresh_dvvs_different_nodes_are_equal_holds: "fresh_dvvs_different_nodes_are_equal"
  by code_simp

lemma more_events_is_greater_same_node_holds: "more_events_is_greater_same_node"
  by code_simp

lemma independent_nodes_with_events_are_concurrent_holds: "independent_nodes_with_events_are_concurrent"
  by code_simp

lemma after_merge_and_event_is_greater_holds: "after_merge_and_event_is_greater"
  by code_simp

lemma concurrent_after_independent_events_holds: "concurrent_after_independent_events"
  by code_simp

lemma partial_order_after_one_sided_sync_holds: "partial_order_after_one_sided_sync"
  by code_simp

lemma concurrent_three_way_holds: "concurrent_three_way"
  by code_simp

lemma partial_cmp_with_unknown_nodes_holds: "partial_cmp_with_unknown_nodes"
  by code_simp

lemma partial_ord_antisymmetry_holds: "partial_ord_antisymmetry"
  by code_simp

lemma partial_ord_reflexive_holds: "partial_ord_reflexive"
  by code_simp

lemma causality_is_transitive_holds: "causality_is_transitive"
  by code_simp

lemma descends_self_holds: "descends_self"
  by code_simp

lemma descends_after_merge_holds: "descends_after_merge"
  by code_simp

lemma does_not_descend_concurrent_holds: "does_not_descend_concurrent"
  by code_simp

lemma dominates_dot_after_event_holds: "dominates_dot_after_event"
  by code_simp

lemma does_not_dominate_future_dot_holds: "does_not_dominate_future_dot"
  by code_simp

lemma dominates_remote_dot_after_merge_holds: "dominates_remote_dot_after_merge"
  by code_simp

lemma dominates_dot_counter_zero_holds: "dominates_dot_counter_zero"
  by code_simp

lemma delta_since_empty_knowledge_holds: "delta_since_empty_knowledge"
  by code_simp

lemma delta_since_up_to_date_holds: "delta_since_up_to_date"
  by code_simp

lemma delta_since_partial_knowledge_holds: "delta_since_partial_knowledge"
  by code_simp

lemma delta_merge_brings_peer_up_to_date_holds: "delta_merge_brings_peer_up_to_date"
  by code_simp

lemma full_delta_is_clone_holds: "full_delta_is_clone"
  by code_simp

lemma accumulated:
  "accumulate_batch 0 (True, dvv_new ''S'', dvv_new ''T'') = (True,
     \<lparr>dvv_dot = Dot_new ''S'' 2, dvv_context = [(''S'', 1)]\<rparr>, \<lparr>dvv_dot = Dot_new ''T'' 0, dvv_context = [(''S'', 2)]\<rparr>)"
  "accumulate_batch 1 (True, \<lparr>dvv_dot = Dot_new ''S'' 2, dvv_context = [(''S'', 1)]\<rparr>,
       \<lparr>dvv_dot = Dot_new ''T'' 0, dvv_context = [(''S'', 2)]\<rparr>) = (True,
     \<lparr>dvv_dot = Dot_new ''S'' 4, dvv_context = [(''S'', 3)]\<rparr>, \<lparr>dvv_dot = Dot_new ''T'' 0, dvv_context = [(''S'', 4)]\<rparr>)"
  "accumulate_batch 2 (True, \<lparr>dvv_dot = Dot_new ''S'' 4, dvv_context = [(''S'', 3)]\<rparr>,
       \<lparr>dvv_dot = Dot_new ''T'' 0, dvv_context = [(''S'', 4)]\<rparr>) = (True,
     \<lparr>dvv_dot = Dot_new ''S'' 6, dvv_context = [(''S'', 5)]\<rparr>, \<lparr>dvv_dot = Dot_new ''T'' 0, dvv_context = [(''S'', 6)]\<rparr>)"
  "accumulate_batch 3 (True, \<lparr>dvv_dot = Dot_new ''S'' 6, dvv_context = [(''S'', 5)]\<rparr>,
       \<lparr>dvv_dot = Dot_new ''T'' 0, dvv_context = [(''S'', 6)]\<rparr>) = (True,
     \<lparr>dvv_dot = Dot_new ''S'' 8, dvv_context = [(''S'', 7)]\<rparr>, \<lparr>dvv_dot = Dot_new ''T'' 0, dvv_context = [(''S'', 8)]\<rparr>)"
  "accumulate_batch 4 (True, \<lparr>dvv_dot = Dot_new ''S'' 8, dvv_context = [(''S'', 7)]\<rparr>,
       \<lparr>dvv_dot = Dot_new ''T'' 0, dvv_context = [(''S'', 8)]\<rparr>) = (True,
     \<lparr>dvv_dot = Dot_new ''S'' 10, dvv_context = [(''S'', 9)]\<rparr>, \<lparr>dvv_dot = Dot_new ''T'' 0, dvv_context = [(''S'', 10)]\<rparr>)"
  unfolding accumulate_batch_def prod.case Let_def by code_simp+

lemma accumulate_multiple_deltas_holds: "accumulate_multiple_deltas"
proof -
  have batches: "[0..<5] = [0, 1, 2, 3, 4 :: nat]" by (simp add: upt_rec)
  show ?thesis
    unfolding accumulate_multiple_deltas_def batches fold_simps(2) accumulated fold_simps(1) prod.case by code_simp
qed

lemma delta_crdt_protocol_round_trip_holds: "delta_crdt_protocol_round_trip"
  by code_simp

lemma replicated_counter_scenario_holds: "replicated_counter_scenario"
  by code_simp

lemma network_partition_and_heal_holds: "network_partition_and_heal"
  by code_simp

lemma late_joiner_catches_up_holds: "late_joiner_catches_up"
  by code_simp

lemma conflicting_writes_detected_holds: "conflicting_writes_detected"
  by code_simp

lemma dot_domination_for_dedup_holds: "dot_domination_for_dedup"
  by code_simp

lemma chain_of_gossip_holds: "chain_of_gossip"
  by code_simp

lemma merge_concurrent_creates_common_descendant_holds: "merge_concurrent_creates_common_descendant"
  by code_simp

lemma dot_equality_holds: "dot_equality"
  by code_simp

lemma dot_in_hashset_holds: "dot_in_hashset"
  by code_simp

lemma clone_is_independent_holds: "clone_is_independent"
  by code_simp

lemma five_node_cluster_full_replication_holds: "five_node_cluster_full_replication"
proof -
  have batches: "[0..<5] = [0, 1, 2, 3, 4 :: nat]" by (simp add: upt_rec)
  have "map (\<lambda>i. ''N'' @ show_nat i) [0..<5] = [''N0'', ''N1'', ''N2'', ''N3'', ''N4'']"
    unfolding batches by (simp add: show_nat.simps digit_def char_of_def bit_0)
  then show ?thesis unfolding five_node_cluster_full_replication_def by (simp only:) code_simp
qed

lemma rapid_event_sync_interleave_holds: "rapid_event_sync_interleave"
  by code_simp

lemma merge_two_fresh_dvvs_holds: "merge_two_fresh_dvvs"
  by code_simp

lemma effective_counter_unknown_returns_zero_holds: "effective_counter_unknown_returns_zero"
  by code_simp

lemma event_after_merge_preserves_remote_knowledge_holds: "event_after_merge_preserves_remote_knowledge"
  by code_simp

lemma state_transfer_fast_forward_holds: "state_transfer_fast_forward"
  by code_simp

lemma mutual_full_sync_yields_equal_effective_maps_holds: "mutual_full_sync_yields_equal_effective_maps"
  by code_simp

lemma vv_lt_strict_progress_holds: "vv_lt_strict_progress"
  by code_simp

lemma vv_lt_rejects_no_progress_holds: "vv_lt_rejects_no_progress"
  by code_simp

lemma add_uses_dot_holds: "add_uses_dot"
  by code_simp

lemma remove_clears_element_holds: "remove_clears_element"
  by code_simp

lemma concurrent_add_wins_holds: "concurrent_add_wins"
  by code_simp

lemma delta_roundtrip_through_bytes_holds: "delta_roundtrip_through_bytes mem_pb_enc mem_pb_dec"
proof -
  have added: "engine_apply_local (OrSet_new, dvv_new ''A'') (Add ''hello'') =
      (\<lparr>adds = [(''hello'', [Dot_new ''A'' 1])], tombstones = []\<rparr>, \<lparr>dvv_dot = Dot_new ''A'' 1, dvv_context = []\<rparr>)"
    by code_simp
  show ?thesis
    unfolding delta_roundtrip_through_bytes_def added Let_def prod.case encode_delta_def decode_delta_def mem_pb_roundtrip
    by code_simp
qed

lemma three_operations:
  "engine_apply_local (OrSet_new, dvv_new ''A'') (Add ''x'') =
      (\<lparr>adds = [(''x'', [Dot_new ''A'' 1])], tombstones = []\<rparr>, \<lparr>dvv_dot = Dot_new ''A'' 1, dvv_context = []\<rparr>)"
  "engine_apply_local (\<lparr>adds = [(''x'', [Dot_new ''A'' 1])], tombstones = []\<rparr>, \<lparr>dvv_dot = Dot_new ''A'' 1, dvv_context = []\<rparr>)
      (Add ''y'') = (\<lparr>adds = [(''x'', [Dot_new ''A'' 1]), (''y'', [Dot_new ''A'' 2])], tombstones = []\<rparr>,
      \<lparr>dvv_dot = Dot_new ''A'' 2, dvv_context = [(''A'', 1)]\<rparr>)"
  "engine_apply_local (\<lparr>adds = [(''x'', [Dot_new ''A'' 1]), (''y'', [Dot_new ''A'' 2])], tombstones = []\<rparr>,
      \<lparr>dvv_dot = Dot_new ''A'' 2, dvv_context = [(''A'', 1)]\<rparr>) (Remove ''x'') =
      (\<lparr>adds = [(''y'', [Dot_new ''A'' 2])], tombstones = [(Dot_new ''A'' 1, Dot_new ''A'' 3)]\<rparr>,
       \<lparr>dvv_dot = Dot_new ''A'' 3, dvv_context = [(''A'', 2)]\<rparr>)"
  by code_simp+

lemma full_state_sync_holds: "full_state_sync mem_pb_enc mem_pb_dec"
  unfolding full_state_sync_def three_operations Let_def prod.case encode_delta_def decode_delta_def mem_pb_roundtrip
  by code_simp

lemma incremental_delta_only_contains_new_ops_holds: "incremental_delta_only_contains_new_ops"
  by code_simp

lemma delta_since_empty_remote_equals_full_state_holds: "delta_since_empty_remote_equals_full_state"
  by code_simp

lemma delta_since_up_to_date_remote_is_empty_holds: "delta_since_up_to_date_remote_is_empty"
  by code_simp

lemma delta_since_sends_only_missing_adds_holds: "delta_since_sends_only_missing_adds"
  by code_simp

lemma delta_since_sends_only_missing_tombstones_holds: "delta_since_sends_only_missing_tombstones"
  by code_simp

lemma perform_gc_removes_eligible_tombstones_holds: "perform_gc_removes_eligible_tombstones"
  by code_simp

lemma perform_gc_keeps_non_eligible_tombstones_holds: "perform_gc_keeps_non_eligible_tombstones"
  by code_simp

lemma delta_since_pull_response_converges_holds: "delta_since_pull_response_converges"
  by code_simp

lemma first_pull:
  "engine_merge_delta (OrSet_new, dvv_new ''B'')
     (delta_since \<lparr>adds = [(''x'', [Dot_new ''A'' 1])], tombstones = []\<rparr> (effective_map (dvv_new ''B''))
        \<lparr>dvv_dot = Dot_new ''A'' 1, dvv_context = []\<rparr>) =
   (\<lparr>adds = [(''x'', [Dot_new ''A'' 1])], tombstones = []\<rparr>, \<lparr>dvv_dot = Dot_new ''B'' 0, dvv_context = [(''A'', 1)]\<rparr>)"
  by code_simp

lemma delta_since_partial_pull_response_converges_holds: "delta_since_partial_pull_response_converges"
  unfolding delta_since_partial_pull_response_converges_def three_operations Let_def prod.case first_pull
  by code_simp

lemma no_new_members_same_lists_holds: "no_new_members_same_lists"
  by code_simp

lemma no_new_members_subset_holds: "no_new_members_subset"
  by code_simp

lemma detects_single_new_member_holds: "detects_single_new_member"
  by code_simp

lemma detects_multiple_new_members_holds: "detects_multiple_new_members"
  by code_simp

lemma empty_old_with_new_members_holds: "empty_old_with_new_members"
  by code_simp

lemma both_empty_holds: "both_empty"
  by code_simp

lemma order_does_not_matter_holds: "order_does_not_matter"
  by code_simp

lemma detects_new_member_with_reordering_holds: "detects_new_member_with_reordering"
  by code_simp

lemma handles_duplicates_in_new_holds: "handles_duplicates_in_new"
  by code_simp

end
